theory Spec2Isabelle
  imports Complex_Main "HOL-Library.Log_Nat"
begin

section \<open>JavaScript numbers\<close>

text \<open>
  Every JavaScript number is an IEEE 754 binary64 value, and every \<open>+\<close>, \<open>-\<close> and \<open>*\<close>
  of the game rounds its exact result to the nearest such value, ties to the even
  significand. A finite number is modelled by the rational it denotes, and \<open>fl64\<close> is that
  rounding: the exact result is scaled so that its 53-bit significand becomes the integer
  part, rounded to an integer, and scaled back. Below \<open>2 powi (- 1022)\<close> the scale stays fixed
  (subnormal numbers). Overflow to \<open>Infinity\<close> (an exact result of \<open>2 powi 1024\<close>
  or more), \<open>NaN\<close> in a position or velocity and the sign of zero are not represented.
\<close>

type_synonym num = rat

definition floor_log2 :: "rat \<Rightarrow> int" where
  "floor_log2 q = (case quotient_of q of (n, d) \<Rightarrow>
     let e0 = bitlen n - bitlen d in if 2 powi e0 \<le> q then e0 else e0 - 1)"

definition round_even :: "rat \<Rightarrow> int" where
  "round_even m = (let f = \<lfloor>m\<rfloor>; r = m - of_int f in
     if r < 1 / 2 then f else if 1 / 2 < r then f + 1 else if even f then f else f + 1)"

definition fl64 :: "rat \<Rightarrow> num" where
  "fl64 q = (if q = 0 then 0 else
     let e = max (floor_log2 \<bar>q\<bar>) (- 1022); s = 2 powi (e - 52)
     in of_int (round_even (q / s)) * s)"

definition jadd :: "num \<Rightarrow> num \<Rightarrow> num" where
  "jadd a b = fl64 (a + b)"

definition jsub :: "num \<Rightarrow> num \<Rightarrow> num" where
  "jsub a b = fl64 (a - b)"

definition jmul :: "num \<Rightarrow> num \<Rightarrow> num" where
  "jmul a b = fl64 (a * b)"

text \<open>A decimal literal of the source denotes the double nearest to it.\<close>

definition gravity :: num where
  "gravity = fl64 (7 / 10)"

definition canvas_width :: num where
  "canvas_width = 1024"

definition canvas_height :: num where
  "canvas_height = 576"


section \<open>The Fighter class\<close>

text \<open>
  An image is read only through its \<open>width\<close> and \<open>height\<close>. An entry of a frame list is
  \<open>None\<close> where the source has \<open>undefined\<close>: the preloader leaves the key of an image that
  failed to load unset, and the animation tables are built from those lookups.
  \<open>frameDuration\<close> is \<open>None\<close> where the animation object has no such property.
\<close>

record image =
  img_width :: num
  img_height :: num

record animation =
  frames :: "image option list"
  frameDuration :: "int option"

text \<open>
  The fields of \<open>Fighter\<close> in \<open>game5.js\<close>. The objects \<open>position\<close>, \<open>velocity\<close> and
  \<open>offset\<close> are flattened into their two coordinates; no two fighters share one of these
  objects. Health, the cooldown and the frame counters only ever hold integers: they start
  from integer literals and change by integer steps. \<open>currentFrame\<close> is \<open>None\<close> when it
  holds \<open>NaN\<close>, the value of a remainder by zero.
\<close>

record fighter =
  position_x :: num
  position_y :: num
  velocity_x :: num
  velocity_y :: num
  animations :: "string \<Rightarrow> animation option"
  currentAnimation :: string
  scale :: num
  offset_x :: num
  offset_y :: num
  width :: num
  height :: num
  health :: int
  maxHealth :: int
  isAttacking :: bool
  attackCooldown :: int
  attackDamage :: int
  framesElapsed :: int
  framesHold :: int
  currentFrame :: "nat option"
  lastDirection :: string

text \<open>The enhanced variant (the second source file) adds the dodge and combo fields.\<close>

record efighter = fighter +
  isDodging :: bool
  dodgeCooldown :: int
  dodgeDuration :: int
  dodgeSpeed :: num
  canCombo :: bool
  comboCount :: nat
  lastAttackTime :: int

text \<open>
  The constructors. Both ignore every key of their argument other than \<open>position\<close>,
  \<open>velocity\<close>, \<open>animations\<close>, \<open>scale\<close> and \<open>offset\<close>.
\<close>

definition Fighter :: "num \<times> num \<Rightarrow> num \<times> num \<Rightarrow> (string \<Rightarrow> animation option) \<Rightarrow> num
    \<Rightarrow> num \<times> num \<Rightarrow> fighter" where
  "Fighter position velocity anims scl offset =
     \<lparr> position_x = fst position, position_y = snd position,
       velocity_x = fst velocity, velocity_y = snd velocity,
       animations = anims, currentAnimation = ''idleRight'',
       scale = scl, offset_x = fst offset, offset_y = snd offset,
       width = 50, height = 150,
       health = 100, maxHealth = 100,
       isAttacking = False, attackCooldown = 0, attackDamage = 10,
       framesElapsed = 0, framesHold = 10, currentFrame = Some 0,
       lastDirection = ''right'' \<rparr>"

definition EFighter :: "num \<times> num \<Rightarrow> num \<times> num \<Rightarrow> (string \<Rightarrow> animation option) \<Rightarrow> num
    \<Rightarrow> num \<times> num \<Rightarrow> efighter" where
  "EFighter position velocity anims scl offset =
     \<lparr> position_x = fst position, position_y = snd position,
       velocity_x = fst velocity, velocity_y = snd velocity,
       animations = anims, currentAnimation = ''idleRight'',
       scale = scl, offset_x = fst offset, offset_y = snd offset,
       width = 50, height = 150,
       health = 200, maxHealth = 200,
       isAttacking = False, attackCooldown = 0, attackDamage = 15,
       framesElapsed = 0, framesHold = 10, currentFrame = Some 0,
       lastDirection = ''right'',
       isDodging = False, dodgeCooldown = 0, dodgeDuration = 15, dodgeSpeed = 12,
       canCombo = False, comboCount = 0, lastAttackTime = 0 \<rparr>"

subsection \<open>setAnimation and draw (the same text in both files)\<close>

definition setAnimation :: "string \<Rightarrow> 'a fighter_scheme \<Rightarrow> 'a fighter_scheme" where
  "setAnimation animationKey f =
     (if currentAnimation f \<noteq> animationKey
      then f\<lparr>currentAnimation := animationKey, currentFrame := Some 0\<rparr>
      else f)"

text \<open>
  \<open>frames[i]\<close>: \<open>undefined\<close> when the index is \<open>NaN\<close> or past the end of the array, or when
  the entry itself is \<open>undefined\<close>.
\<close>

definition frame_at :: "image option list \<Rightarrow> nat option \<Rightarrow> image option" where
  "frame_at fs i = (case i of None \<Rightarrow> None
     | Some k \<Rightarrow> if k < length fs then fs ! k else None)"

datatype error = TypeError

record draw_call =
  dc_image :: image
  dc_x :: num
  dc_y :: num
  dc_w :: num
  dc_h :: num

definition drawImage :: "image \<Rightarrow> 'a fighter_scheme \<Rightarrow> draw_call" where
  "drawImage img f =
     \<lparr> dc_image = img,
       dc_x = jadd (position_x f) (offset_x f),
       dc_y = jadd (position_y f) (offset_y f),
       dc_w = jmul (img_width img) (scale f),
       dc_h = jmul (img_height img) (scale f) \<rparr>"

definition fallbackAnim :: "'a fighter_scheme \<Rightarrow> string" where
  "fallbackAnim f = (if lastDirection f = ''right'' then ''idleRight'' else ''idleLeft'')"

text \<open>
  The table of animations is an object literal. So \<open>this.animations[key]\<close> is the entry of
  the table under \<open>key\<close> if it has one (the field \<open>animations\<close> holds these entries), or
  else what \<open>Object.prototype\<close> has under that name, or else \<open>undefined\<close>. What the
  prototype has is a function, or for \<open>__proto__\<close> the prototype itself: a value that is
  not \<open>undefined\<close> and has neither \<open>frames\<close> nor \<open>frameDuration\<close>.
\<close>

definition object_prototype :: "string list" where
  "object_prototype =
     [''constructor'', ''hasOwnProperty'', ''isPrototypeOf'', ''propertyIsEnumerable'',
      ''toLocaleString'', ''toString'', ''valueOf'', ''__proto__'',
      ''__defineGetter__'', ''__defineSetter__'', ''__lookupGetter__'', ''__lookupSetter__'']"

datatype property = Undefined | Animation animation | Inherited

definition lookup :: "(string \<Rightarrow> animation option) \<Rightarrow> string \<Rightarrow> property" where
  "lookup table key =
     (case table key of
        Some an \<Rightarrow> Animation an
      | None \<Rightarrow> if key \<in> set object_prototype then Inherited else Undefined)"

text \<open>
  \<open>draw\<close> returns the one call it makes on the canvas, or the \<open>TypeError\<close> that
  JavaScript throws: when the test reads \<open>.frames[currentFrame]\<close> of an inherited
  property, whose \<open>frames\<close> is \<open>undefined\<close>, and when the fallback reads \<open>.frames\<close> of a
  missing idle animation or \<open>.width\<close> of a missing frame.
\<close>

definition fallback :: "'a fighter_scheme \<Rightarrow> error + draw_call" where
  "fallback f =
     (case lookup (animations f) (fallbackAnim f) of
        Undefined \<Rightarrow> Inl TypeError
      | Inherited \<Rightarrow> Inl TypeError
      | Animation fb \<Rightarrow>
          (case frame_at (frames fb) (Some 0) of
             None \<Rightarrow> Inl TypeError
           | Some fallbackFrame \<Rightarrow> Inr (drawImage fallbackFrame f)))"

definition draw :: "'a fighter_scheme \<Rightarrow> error + draw_call" where
  "draw f =
     (case lookup (animations f) (currentAnimation f) of
        Undefined \<Rightarrow> fallback f
      | Inherited \<Rightarrow> Inl TypeError
      | Animation animation \<Rightarrow>
          (case frame_at (frames animation) (currentFrame f) of
             None \<Rightarrow> fallback f
           | Some frameImage \<Rightarrow> Inr (drawImage frameImage f)))"

subsection \<open>update\<close>

text \<open>\<open>(currentFrame + 1) % n\<close>, which is \<open>NaN\<close> for \<open>n = 0\<close> and for a \<open>NaN\<close> frame.\<close>

definition next_frame :: "nat option \<Rightarrow> nat \<Rightarrow> nat option" where
  "next_frame i n = (case i of None \<Rightarrow> None
     | Some k \<Rightarrow> if n = 0 then None else Some ((k + 1) mod n))"

text \<open>
  \<open>animation.frameDuration || this.framesHold\<close>: a missing or zero duration gives the
  fighter's own.
\<close>

definition frame_duration :: "animation \<Rightarrow> 'a fighter_scheme \<Rightarrow> int" where
  "frame_duration an f = (case frameDuration an of
       None \<Rightarrow> framesHold f
     | Some d \<Rightarrow> if d = 0 then framesHold f else d)"

text \<open>
  The frame counter and the advance of the frame. A remainder by zero is \<open>NaN\<close>, which is
  not \<open>=== 0\<close>. For an inherited property the duration is the fighter's own, and on the
  ticks where the frame is due the advance reads \<open>.frames.length\<close> of it and throws:
  \<open>advance_faults\<close> says when, and \<open>advance_frames\<close> is the fighter after the step
  otherwise.
\<close>

definition advance_faults :: "'a fighter_scheme \<Rightarrow> bool" where
  "advance_faults f =
     (lookup (animations f) (currentAnimation f) = Inherited \<and>
      framesHold f \<noteq> 0 \<and> (framesElapsed f + 1) mod framesHold f = 0)"

definition advance_frames :: "'a fighter_scheme \<Rightarrow> 'a fighter_scheme" where
  "advance_frames f =
     (let f1 = f\<lparr>framesElapsed := framesElapsed f + 1\<rparr> in
      case lookup (animations f1) (currentAnimation f1) of
        Undefined \<Rightarrow> f1
      | Inherited \<Rightarrow> f1
      | Animation an \<Rightarrow>
          (let d = frame_duration an f1 in
           if d \<noteq> 0 \<and> framesElapsed f1 mod d = 0
           then f1\<lparr>currentFrame := next_frame (currentFrame f1) (length (frames an))\<rparr>
           else f1))"

text \<open>The integration of the position, the screen boundaries and the ground.\<close>

definition integrate :: "'a fighter_scheme \<Rightarrow> 'a fighter_scheme" where
  "integrate f =
     f\<lparr>position_x := jadd (position_x f) (velocity_x f),
       position_y := jadd (position_y f) (velocity_y f)\<rparr>"

definition screen_boundaries :: "'a fighter_scheme \<Rightarrow> 'a fighter_scheme" where
  "screen_boundaries f =
     (let f1 = (if position_x f < 0 then f\<lparr>position_x := 0\<rparr> else f) in
      if canvas_width < jadd (position_x f1) (width f1)
      then f1\<lparr>position_x := jsub canvas_width (width f1)\<rparr>
      else f1)"

definition ground :: "'a fighter_scheme \<Rightarrow> 'a fighter_scheme" where
  "ground f =
     (if canvas_height \<le> jadd (position_y f) (height f)
      then f\<lparr>velocity_y := 0, position_y := jsub canvas_height (height f)\<rparr>
      else f\<lparr>velocity_y := jadd (velocity_y f) gravity\<rparr>)"

definition physics :: "'a fighter_scheme \<Rightarrow> 'a fighter_scheme" where
  "physics f = ground (screen_boundaries (integrate (advance_frames f)))"

text \<open>The end of \<open>update\<close> in \<open>game5.js\<close>.\<close>

definition cooldown :: "fighter \<Rightarrow> fighter" where
  "cooldown f =
     (if 0 < attackCooldown f then f\<lparr>attackCooldown := attackCooldown f - 1\<rparr>
      else if isAttacking f then f\<lparr>isAttacking := False\<rparr>
      else f)"

text \<open>
  \<open>update\<close> draws first, and a throwing \<open>draw\<close> leaves the fighter as it was. The health
  bar drawn next is output only and cannot throw. The advance of the frame comes next and
  is the one other step that can throw.
\<close>

definition update :: "fighter \<Rightarrow> error + fighter" where
  "update f =
     (case draw f of
        Inl e \<Rightarrow> Inl e
      | Inr _ \<Rightarrow> if advance_faults f then Inl TypeError else Inr (cooldown (physics f)))"

text \<open>The end of \<open>update\<close> in the enhanced variant.\<close>

definition cooldowns :: "efighter \<Rightarrow> efighter" where
  "cooldowns f =
     (let f1 = (if 0 < attackCooldown f then f\<lparr>attackCooldown := attackCooldown f - 1\<rparr> else f);
          f2 = (if 0 < dodgeCooldown f1 then f1\<lparr>dodgeCooldown := dodgeCooldown f1 - 1\<rparr> else f1)
      in if attackCooldown f2 \<le> 0 \<and> isAttacking f2
         then f2\<lparr>isAttacking := False, canCombo := True\<rparr>
         else f2)"

definition dodge :: "efighter \<Rightarrow> efighter" where
  "dodge f =
     (if isDodging f
      then (let f1 = f\<lparr>dodgeDuration := dodgeDuration f - 1\<rparr> in
            if dodgeDuration f1 \<le> 0
            then setAnimation (fallbackAnim f1)
                   (f1\<lparr>isDodging := False, dodgeCooldown := 45, velocity_x := 0\<rparr>)
            else f1)
      else f)"

definition eupdate :: "efighter \<Rightarrow> error + efighter" where
  "eupdate f =
     (case draw f of
        Inl e \<Rightarrow> Inl e
      | Inr _ \<Rightarrow> if advance_faults f then Inl TypeError else Inr (dodge (cooldowns (physics f))))"

subsection \<open>attack\<close>

text \<open>
  The hit test, the same in both files but for the range. The attacker and the target
  are two objects in every call of the source, so the pair is returned updated.
\<close>

definition attack_hits :: "num \<Rightarrow> 'a fighter_scheme \<Rightarrow> 'b fighter_scheme \<Rightarrow> bool" where
  "attack_hits attackRange a t =
     (let isFacingRight = (lastDirection a = ''right'');
          attackStartX = (if isFacingRight then jadd (position_x a) (width a)
                          else jsub (position_x a) attackRange);
          attackEndX = (if isFacingRight then jadd (jadd (position_x a) (width a)) attackRange
                        else position_x a)
      in position_x t < attackEndX \<and>
         attackStartX < jadd (position_x t) (width t) \<and>
         position_y a < jadd (position_y t) (height t) \<and>
         position_y t < jadd (position_y a) (height a))"

definition take_damage :: "int \<Rightarrow> 'a fighter_scheme \<Rightarrow> 'a fighter_scheme" where
  "take_damage d t =
     (let t1 = t\<lparr>health := health t - d\<rparr> in
      if health t1 < 0 then t1\<lparr>health := 0\<rparr> else t1)"

definition attack :: "fighter \<Rightarrow> fighter \<Rightarrow> fighter \<times> fighter" where
  "attack a t =
     (if attackCooldown a \<le> 0
      then (let a1 = a\<lparr>isAttacking := True, attackCooldown := 120\<rparr> in
            if attack_hits 100 a1 t then (a1, take_damage (attackDamage a1) t) else (a1, t))
      else (a, t))"

text \<open>\<open>now\<close> is the value of \<open>Date.now()\<close>, in milliseconds.\<close>

definition eattack :: "int \<Rightarrow> efighter \<Rightarrow> efighter \<Rightarrow> efighter \<times> efighter" where
  "eattack now a t =
     (let comboWindow = 500 in
      if attackCooldown a \<le> 0 \<and> \<not> isDodging a
      then (let a1 = a\<lparr>isAttacking := True\<rparr>;
                a2 = (if now - lastAttackTime a1 < comboWindow \<and> canCombo a1
                      then a1\<lparr>comboCount := (comboCount a1 + 1) mod 3\<rparr>
                      else a1\<lparr>comboCount := 0\<rparr>);
                a3 = a2\<lparr>attackCooldown := 30 - int (comboCount a2) * 5, lastAttackTime := now\<rparr>
            in if attack_hits 120 a3 t then (a3, take_damage (attackDamage a3) t) else (a3, t))
      else (a, t))"


section \<open>The two fighters of a match\<close>

text \<open>
  The animation tables that the start-up code builds from the preloaded images,
  \<open>loadedImages\<close> being the table of the images that did load. The attack animations last
  775 ticks a frame in \<open>game5.js\<close> for both fighters; in the enhanced variant the player's
  keep 775 and the enemy's take 15.
\<close>

definition animation_table :: "string \<Rightarrow> int \<Rightarrow> (string \<Rightarrow> image option)
    \<Rightarrow> (string \<Rightarrow> animation option)" where
  "animation_table who attackDuration loadedImages =
     map_of
       [(''idleRight'', \<lparr>frames = [loadedImages (who @ ''_idleRight'')], frameDuration = None\<rparr>),
        (''idleLeft'', \<lparr>frames = [loadedImages (who @ ''_idleLeft'')], frameDuration = None\<rparr>),
        (''runRight'', \<lparr>frames = [loadedImages (who @ ''_runRight1''),
                                     loadedImages (who @ ''_runRight2'')], frameDuration = None\<rparr>),
        (''runLeft'', \<lparr>frames = [loadedImages (who @ ''_runLeft1''),
                                    loadedImages (who @ ''_runLeft2'')], frameDuration = None\<rparr>),
        (''jumpRight'', \<lparr>frames = [loadedImages (who @ ''_jumpRight'')], frameDuration = None\<rparr>),
        (''jumpLeft'', \<lparr>frames = [loadedImages (who @ ''_jumpLeft'')], frameDuration = None\<rparr>),
        (''attackRight'', \<lparr>frames = [loadedImages (who @ ''_attackRight1''),
                                        loadedImages (who @ ''_attackRight2'')],
                            frameDuration = Some attackDuration\<rparr>),
        (''attackLeft'', \<lparr>frames = [loadedImages (who @ ''_attackLeft1''),
                                       loadedImages (who @ ''_attackLeft2'')],
                           frameDuration = Some attackDuration\<rparr>)]"

definition player :: "(string \<Rightarrow> image option) \<Rightarrow> fighter" where
  "player loadedImages =
     Fighter (100, 426) (0, 0) (animation_table ''eren'' 775 loadedImages) 2 (0, 0)"

definition enemy :: "(string \<Rightarrow> image option) \<Rightarrow> fighter" where
  "enemy loadedImages =
     Fighter (jsub canvas_width 200, 426) (0, 0) (animation_table ''levi'' 775 loadedImages) 2 (0, 0)"

definition eplayer :: "(string \<Rightarrow> image option) \<Rightarrow> efighter" where
  "eplayer loadedImages =
     EFighter (100, 426) (0, 0) (animation_table ''eren'' 775 loadedImages) 2 (0, 0)"

definition eenemy :: "(string \<Rightarrow> image option) \<Rightarrow> efighter" where
  "eenemy loadedImages =
     EFighter (jsub canvas_width 200, 426) (0, 0) (animation_table ''levi'' 15 loadedImages) 2 (0, 0)"

text \<open>A table in which every image has loaded, 64 by 64 pixels each.\<close>

definition all_loaded :: "string \<Rightarrow> image option" where
  "all_loaded key = Some \<lparr>img_width = 64, img_height = 64\<rparr>"


section \<open>The AI controller of the enhanced variant\<close>

text \<open>
  The fields of \<open>AIController\<close> besides its two fighters, which \<open>update\<close> receives and
  returns here. The controller's own \<open>attackCooldown\<close> and \<open>state\<close> are renamed, since
  the fighter has fields of these names.
\<close>

record ai_controller =
  nextActionTime :: int
  difficulty :: num
  ai_state :: string
  comboStep :: int
  attackPatterns :: "(int \<times> int) list"
  fatigue :: int
  ai_attackCooldown :: int

definition AIController :: ai_controller where
  "AIController =
     \<lparr> nextActionTime = 0, difficulty = 4, ai_state = ''patrol'', comboStep = 0,
       attackPatterns = [(600, 1), (400, 2), (300, 3), (200, 4)],
       fatigue = 0, ai_attackCooldown = 0 \<rparr>"

text \<open>
  The attack branch. The animation key is \<open>attack\<close> followed by the direction in lower
  case, which no table of the start-up code holds, so the placeholder with no frames is
  what the branch finds after its first run. No property of \<open>Object.prototype\<close> has a name
  that begins with \<open>attack\<close>, so the key is found in the table or not at all.
  \<open>now'\<close> is the clock as \<open>attack\<close> reads it.
\<close>

definition ensure_animation :: "string \<Rightarrow> 'a fighter_scheme \<Rightarrow> 'a fighter_scheme" where
  "ensure_animation attackAnim f =
     (let f1 = (if animations f attackAnim = None
                then f\<lparr>animations := (animations f)(attackAnim \<mapsto> \<lparr>frames = [], frameDuration = Some 5\<rparr>)\<rparr>
                else f)
      in case animations f1 attackAnim of
           None \<Rightarrow> f1
         | Some an \<Rightarrow>
             if frameDuration an = None
             then f1\<lparr>animations := (animations f1)(attackAnim \<mapsto> an\<lparr>frameDuration := Some 5\<rparr>)\<rparr>
             else f1)"

definition ai_attack :: "int \<Rightarrow> int \<Rightarrow> string \<Rightarrow> ai_controller \<times> efighter \<times> efighter
    \<Rightarrow> ai_controller \<times> efighter \<times> efighter" where
  "ai_attack now now' direction s =
     (case s of (ai, fighter, target) \<Rightarrow>
        let attackAnim = ''attack'' @ direction;
            f1 = ensure_animation attackAnim (setAnimation attackAnim fighter);
            (f2, t1) = eattack now' f1 target;
            ai1 = ai\<lparr>ai_attackCooldown := 5, nextActionTime := now + 50\<rparr>;
            predictX = jadd (position_x t1) (jmul (velocity_x t1) (fl64 (7 / 10)));
            predictDistance = jsub predictX (position_x f2)
        in (ai1, f2\<lparr>velocity_x := (if 0 < predictDistance then 3 else - 3)\<rparr>, t1))"

text \<open>The movement and jump branch; \<open>r\<close> is the value of its \<open>Math.random()\<close>.\<close>

definition ai_move :: "int \<Rightarrow> num \<Rightarrow> string \<Rightarrow> num \<Rightarrow> num
    \<Rightarrow> ai_controller \<times> efighter \<times> efighter \<Rightarrow> ai_controller \<times> efighter \<times> efighter" where
  "ai_move now r direction distanceX absDistanceX s =
     (case s of (ai, fighter, target) \<Rightarrow>
        let chaseSpeed = 5;
            edgeThreshold = 100;
            nearLeftEdge = (position_x fighter < edgeThreshold);
            nearRightEdge = (jsub (jsub canvas_width (width fighter)) edgeThreshold < position_x fighter);
            f1 = (if (nearLeftEdge \<and> distanceX < 0) \<or> (nearRightEdge \<and> 0 < distanceX)
                  then (let g = fighter\<lparr>velocity_x := (if 0 < distanceX then - chaseSpeed else chaseSpeed)\<rparr>
                        in if canvas_height \<le> jadd (position_y g) (height g)
                           then g\<lparr>velocity_y := - 15\<rparr> else g)
                  else (let predictX = jadd (position_x target) (jmul (velocity_x target) (fl64 (1 / 2)));
                            predictDistance = jsub predictX (position_x fighter)
                        in fighter\<lparr>velocity_x := (if 0 < predictDistance then chaseSpeed else - chaseSpeed)\<rparr>));
            f2 = setAnimation (if 0 < velocity_x f1 then ''runRight'' else ''runLeft'') f1;
            f3 = f2\<lparr>lastDirection := direction\<rparr>;
            (f4, ai1) =
              (if canvas_height \<le> jadd (position_y f3) (height f3)
               then (let shouldJump = (80 < absDistanceX \<or> (nearLeftEdge \<or> nearRightEdge) \<or> r < fl64 (2 / 5))
                     in if shouldJump
                        then (setAnimation (if lastDirection f3 = ''right'' then ''jumpRight'' else ''jumpLeft'')
                                (f3\<lparr>velocity_y := - 22,
                                    velocity_x := jmul (velocity_x f3) (fl64 (9 / 5))\<rparr>),
                              ai\<lparr>nextActionTime := now + 30\<rparr>)
                        else (f3, ai))
               else (f3, ai))
        in (ai1\<lparr>nextActionTime := now + 100\<rparr>, f4, target))"

text \<open>
  \<open>update\<close> of the controller. \<open>r1\<close> is the random draw of the attack decision and \<open>r2\<close>
  that of the jump decision; the source draws each only where its value is needed.
\<close>

definition ai_update :: "int \<Rightarrow> int \<Rightarrow> num \<Rightarrow> num \<Rightarrow> ai_controller \<times> efighter \<times> efighter
    \<Rightarrow> ai_controller \<times> efighter \<times> efighter" where
  "ai_update now now' r1 r2 s =
     (case s of (ai, fighter, target) \<Rightarrow>
        if now < nextActionTime ai then s
        else
          let distanceX = jsub (position_x target) (position_x fighter);
              distanceY = jsub (position_y target) (position_y fighter);
              absDistanceX = \<bar>distanceX\<bar>;
              absDistanceY = \<bar>distanceY\<bar>;
              direction = (if 0 < distanceX then ''right'' else ''left'');
              inAttackRange = (absDistanceX < 150 \<and> absDistanceY < 100);
              shouldAttack = (inAttackRange \<or> (absDistanceX < 200 \<and> r1 < fl64 (3 / 10)))
          in if shouldAttack then ai_attack now now' direction s
             else ai_move now r2 direction distanceX absDistanceX s)"


section \<open>The game loop and the keyboard\<close>

text \<open>The movement logic of \<open>animate\<close> for a fighter driven by two held keys.\<close>

definition move_by_keys :: "bool \<Rightarrow> bool \<Rightarrow> 'a fighter_scheme \<Rightarrow> 'a fighter_scheme" where
  "move_by_keys left right f =
     (if left then (setAnimation ''runLeft'' (f\<lparr>velocity_x := - 5\<rparr>))\<lparr>lastDirection := ''left''\<rparr>
      else if right then (setAnimation ''runRight'' (f\<lparr>velocity_x := 5\<rparr>))\<lparr>lastDirection := ''right''\<rparr>
      else setAnimation (fallbackAnim f) (f\<lparr>velocity_x := 0\<rparr>))"

text \<open>The jump keys \<open>w\<close> and \<open>ArrowUp\<close>.\<close>

definition jump_key :: "'a fighter_scheme \<Rightarrow> 'a fighter_scheme" where
  "jump_key f =
     (if canvas_height \<le> jadd (position_y f) (height f)
      then setAnimation (if lastDirection f = ''right'' then ''jumpRight'' else ''jumpLeft'')
             (f\<lparr>velocity_y := - 20\<rparr>)
      else f)"

definition attackAnimKey :: "'a fighter_scheme \<Rightarrow> string" where
  "attackAnimKey f = (if lastDirection f = ''right'' then ''attackRight'' else ''attackLeft'')"

text \<open>The attack keys of \<open>game5.js\<close> (space for the player, \<open>k\<close> for the enemy).\<close>

definition attack_key :: "fighter \<Rightarrow> fighter \<Rightarrow> fighter \<times> fighter" where
  "attack_key a t = (case attack a t of (a1, t1) \<Rightarrow> (setAnimation (attackAnimKey a1) a1, t1))"

text \<open>The space and \<open>s\<close> keys of the enhanced variant.\<close>

definition eattack_key :: "int \<Rightarrow> efighter \<Rightarrow> efighter \<Rightarrow> efighter \<times> efighter" where
  "eattack_key now a t =
     (if \<not> isDodging a
      then (case eattack now a t of (a1, t1) \<Rightarrow> (setAnimation (attackAnimKey a1) a1, t1))
      else (a, t))"

definition dodge_key :: "efighter \<Rightarrow> efighter" where
  "dodge_key f =
     (if dodgeCooldown f \<le> 0 \<and> \<not> isAttacking f
      then setAnimation (if lastDirection f = ''right'' then ''runRight'' else ''runLeft'')
             (f\<lparr>isDodging := True, dodgeDuration := 15,
                velocity_x := (if lastDirection f = ''right'' then dodgeSpeed f else - dodgeSpeed f)\<rparr>)
      else f)"

text \<open>The enemy of the enhanced variant turns idle whenever it stands still.\<close>

definition idle_if_still :: "'a fighter_scheme \<Rightarrow> 'a fighter_scheme" where
  "idle_if_still f = (if velocity_x f = 0 then setAnimation (fallbackAnim f) f else f)"

definition resetGame :: "efighter \<times> efighter \<Rightarrow> efighter \<times> efighter" where
  "resetGame s =
     (case s of (p, e) \<Rightarrow>
        (setAnimation ''idleRight''
           (p\<lparr>health := maxHealth p, position_x := 100, position_y := 426,
              velocity_x := 0, velocity_y := 0\<rparr>),
         setAnimation ''idleLeft''
           (e\<lparr>health := maxHealth e, position_x := jsub canvas_width 200, position_y := 426,
              velocity_x := 0, velocity_y := 0\<rparr>)))"

text \<open>
  The states of a match of \<open>game5.js\<close>, as the pair of the player and the enemy: the two
  fighters as constructed, and whatever one call of the frame loop or of a key handler
  makes of a reachable pair. The loop and the handlers call these operations in a fixed
  order, which the relation does not fix, and they stop at a \<open>TypeError\<close>.
\<close>

inductive reach :: "fighter \<times> fighter \<Rightarrow> bool" where
  start: "reach (player loadedImages, enemy loadedImages)"
| update_player: "reach (p, e) \<Longrightarrow> update p = Inr p' \<Longrightarrow> reach (p', e)"
| update_enemy: "reach (p, e) \<Longrightarrow> update e = Inr e' \<Longrightarrow> reach (p, e')"
| move_player: "reach (p, e) \<Longrightarrow> reach (move_by_keys left right p, e)"
| move_enemy: "reach (p, e) \<Longrightarrow> reach (p, move_by_keys left right e)"
| jump_player: "reach (p, e) \<Longrightarrow> reach (jump_key p, e)"
| jump_enemy: "reach (p, e) \<Longrightarrow> reach (p, jump_key e)"
| attack_player: "reach (p, e) \<Longrightarrow> attack_key p e = (p', e') \<Longrightarrow> reach (p', e')"
| attack_enemy: "reach (p, e) \<Longrightarrow> attack_key e p = (e', p') \<Longrightarrow> reach (p', e')"

text \<open>
  The same for the enhanced variant, where the match starts with \<open>resetGame\<close> and the
  enemy is moved by the controller, at any time of the clock and for any random draws.
\<close>

inductive ereach :: "efighter \<times> efighter \<Rightarrow> bool" where
  estart: "ereach (resetGame (eplayer loadedImages, eenemy loadedImages))"
| eupdate_player: "ereach (p, e) \<Longrightarrow> eupdate p = Inr p' \<Longrightarrow> ereach (p', e)"
| eupdate_enemy: "ereach (p, e) \<Longrightarrow> eupdate e = Inr e' \<Longrightarrow> ereach (p, e')"
| emove_player: "ereach (p, e) \<Longrightarrow> ereach (move_by_keys left right p, e)"
| ai_enemy: "ereach (p, e) \<Longrightarrow> ai_update now now' r1 r2 (ai, e, p) = (ai', e', p')
    \<Longrightarrow> ereach (p', e')"
| idle_enemy: "ereach (p, e) \<Longrightarrow> ereach (p, idle_if_still e)"
| ejump_player: "ereach (p, e) \<Longrightarrow> ereach (jump_key p, e)"
| eattack_player: "ereach (p, e) \<Longrightarrow> eattack_key now p e = (p', e') \<Longrightarrow> ereach (p', e')"
| dodge_player: "ereach (p, e) \<Longrightarrow> ereach (dodge_key p, e)"

text \<open>Consecutive calls of \<open>update\<close> on one fighter, stopping at the first error.\<close>

fun updates :: "nat \<Rightarrow> fighter \<Rightarrow> error + fighter" where
  "updates 0 f = Inr f"
| "updates (Suc n) f = (case update f of Inl e \<Rightarrow> Inl e | Inr f' \<Rightarrow> updates n f')"

fun eupdates :: "nat \<Rightarrow> efighter \<Rightarrow> error + efighter" where
  "eupdates 0 f = Inr f"
| "eupdates (Suc n) f = (case eupdate f of Inl e \<Rightarrow> Inl e | Inr f' \<Rightarrow> eupdates n f')"


section \<open>Notions for the statements\<close>

text \<open>
  The two idle animations are there and each has an image as its frame 0: what the
  fallback of \<open>draw\<close> reads.
\<close>

definition has_idle_frames :: "'a fighter_scheme \<Rightarrow> bool" where
  "has_idle_frames f =
     (case (animations f ''idleRight'', animations f ''idleLeft'') of
        (Some r, Some l) \<Rightarrow>
          frame_at (frames r) (Some 0) \<noteq> None \<and> frame_at (frames l) (Some 0) \<noteq> None
      | _ \<Rightarrow> False)"

text \<open>
  The test of \<open>draw\<close> for its fallback: the current animation is missing, or it has no
  image at the current frame (because the frame list is empty or shorter, the entry is
  \<open>undefined\<close>, or the frame index is \<open>NaN\<close>).
\<close>

definition frame_missing :: "'a fighter_scheme \<Rightarrow> bool" where
  "frame_missing f =
     (case animations f (currentAnimation f) of
        None \<Rightarrow> True
      | Some an \<Rightarrow> frame_at (frames an) (currentFrame f) = None)"

text \<open>
  The current animation is no entry of the table but a property that the table inherits
  from \<open>Object.prototype\<close>.
\<close>

definition inherited :: "'a fighter_scheme \<Rightarrow> bool" where
  "inherited f =
     (animations f (currentAnimation f) = None \<and> currentAnimation f \<in> set object_prototype)"

text \<open>The image that the fallback of \<open>draw\<close> draws, if there is one.\<close>

definition fallbackFrame :: "'a fighter_scheme \<Rightarrow> image option" where
  "fallbackFrame f =
     (case animations f (fallbackAnim f) of
        None \<Rightarrow> None
      | Some fb \<Rightarrow> frame_at (frames fb) (Some 0))"


text \<open>
  The quantities in which the range of an attack is stated: the vertical half of the hit
  test, the distance from the edge of the attacker that faces its direction to the near
  edge of the target, as a rational number, and the fighters whose horizontal coordinates
  and widths are whole pixels of moderate size, on which the arithmetic of the hit test
  is exact.
\<close>

definition overlap_y :: "'a fighter_scheme \<Rightarrow> 'b fighter_scheme \<Rightarrow> bool" where
  "overlap_y a t =
     (position_y a < jadd (position_y t) (height t) \<and>
      position_y t < jadd (position_y a) (height a))"

definition edge_gap :: "'a fighter_scheme \<Rightarrow> 'b fighter_scheme \<Rightarrow> rat" where
  "edge_gap a t =
     (if lastDirection a = ''right'' then position_x t - (position_x a + width a)
      else position_x a - (position_x t + width t))"

definition on_pixels :: "'a fighter_scheme \<Rightarrow> 'b fighter_scheme \<Rightarrow> bool" where
  "on_pixels a t =
     (position_x a \<in> \<int> \<and> width a \<in> \<int> \<and> position_x t \<in> \<int> \<and> width t \<in> \<int> \<and>
      \<bar>position_x a\<bar> + \<bar>width a\<bar> + \<bar>position_x t\<bar> + \<bar>width t\<bar> < 2 ^ 52)"


text \<open>
  \<open>falling f\<close>: the next \<open>update\<close> of \<open>f\<close>, having moved it, finds it above the ground
  and takes the gravity branch. \<open>airborne_for n f\<close>: each of the next \<open>n\<close> updates of \<open>f\<close>
  does so, and none fails.
\<close>

definition falling :: "'a fighter_scheme \<Rightarrow> bool" where
  "falling f = (jadd (jadd (position_y f) (velocity_y f)) (height f) < canvas_height)"

fun airborne_for :: "nat \<Rightarrow> fighter \<Rightarrow> bool" where
  "airborne_for 0 f = True"
| "airborne_for (Suc n) f =
     (falling f \<and> (case update f of Inl e \<Rightarrow> False | Inr f' \<Rightarrow> airborne_for n f'))"

fun eairborne_for :: "nat \<Rightarrow> efighter \<Rightarrow> bool" where
  "eairborne_for 0 f = True"
| "eairborne_for (Suc n) f =
     (falling f \<and> (case eupdate f of Inl e \<Rightarrow> False | Inr f' \<Rightarrow> eairborne_for n f'))"

text \<open>
  The vertical position and velocity of a fighter of height \<open>h\<close> through \<open>n\<close> ticks in
  the air, on their own: \<open>None\<close> if one of the ticks reaches the ground.
\<close>

fun free_fall :: "nat \<Rightarrow> num \<Rightarrow> num \<times> num \<Rightarrow> (num \<times> num) option" where
  "free_fall 0 h s = Some s"
| "free_fall (Suc n) h s =
     (case s of (y, v) \<Rightarrow>
        if jadd (jadd y v) h < canvas_height then free_fall n h (jadd y v, jadd v gravity)
        else None)"


text \<open>
  What every fighter of a match satisfies, as shown below: the health is between 0 and
  \<open>maxHealth\<close>, the damage is not negative, the box is 50 by 150, and the horizontal
  position and velocity are whole numbers, the position on the screen and the velocity at
  most 12 in magnitude. In the enhanced variant the dodge speed is 12 as well.
\<close>

definition in_bounds :: "'a fighter_scheme \<Rightarrow> bool" where
  "in_bounds f =
     (0 \<le> health f \<and> health f \<le> maxHealth f \<and> 0 \<le> attackDamage f \<and>
      width f = 50 \<and> height f = 150 \<and>
      position_x f \<in> \<int> \<and> 0 \<le> position_x f \<and> position_x f \<le> 974 \<and>
      velocity_x f \<in> \<int> \<and> \<bar>velocity_x f\<bar> \<le> 12)"

definition ein_bounds :: "efighter \<Rightarrow> bool" where
  "ein_bounds f = (in_bounds f \<and> dodgeSpeed f = 12)"


text \<open>The two bounds in words of the fields: the health, and the place on the screen.\<close>

definition health_ok :: "'a fighter_scheme \<Rightarrow> bool" where
  "health_ok f = (0 \<le> health f \<and> health f \<le> maxHealth f)"

definition on_screen :: "'a fighter_scheme \<Rightarrow> bool" where
  "on_screen f =
     (0 \<le> position_x f \<and> position_x f \<le> canvas_width - width f \<and>
      position_y f + height f \<le> canvas_height)"


section \<open>Rounding to a double\<close>

text \<open>
  What the proofs below need of \<open>fl64\<close>: \<open>floor_log2\<close> is the binary exponent of a
  positive rational, integers below \<open>2 ^ 53\<close> in magnitude are doubles, so that
  arithmetic on pixel coordinates is exact, and rounding does not fall below a positive
  integer that the exact value has reached.
\<close>

lemma round_even_of_int [simp]: "round_even (of_int k) = k"
  by (simp add: round_even_def)

lemma round_even_ge: "of_int k \<le> m \<Longrightarrow> k \<le> round_even m"
proof -
  assume "of_int k \<le> m"
  then have "k \<le> \<lfloor>m\<rfloor>" by (simp add: le_floor_iff)
  then show ?thesis by (simp add: round_even_def Let_def)
qed

lemma bitlen_powi_bounds:
  assumes "0 < n"
  shows "(2::rat) powi (bitlen n - 1) \<le> of_int n" and "(of_int n :: rat) < 2 powi (bitlen n)"
proof -
  have b: "1 \<le> bitlen n" using assms by (simp add: bitlen_alt_def)
  have "(2::int) ^ nat (bitlen n - 1) \<le> n" "n < 2 ^ nat (bitlen n)"
    using bitlen_bounds[OF assms] by simp_all
  then have "(of_int ((2::int) ^ nat (bitlen n - 1)) :: rat) \<le> of_int n"
    "(of_int n :: rat) < of_int (2 ^ nat (bitlen n))"
    by (simp_all only: of_int_le_iff of_int_less_iff)
  then show "(2::rat) powi (bitlen n - 1) \<le> of_int n" "(of_int n :: rat) < 2 powi (bitlen n)"
    using b by (simp_all add: power_int_def)
qed

lemma floor_log2_bounds:
  assumes "0 < q"
  shows "2 powi (floor_log2 q) \<le> q" and "q < 2 powi (floor_log2 q + 1)"
proof -
  obtain n d where qd: "quotient_of q = (n, d)" by (cases "quotient_of q")
  have d: "0 < d" using qd by (rule quotient_of_denom_pos)
  have q: "q = of_int n / of_int d" using qd by (rule quotient_of_div)
  have n: "0 < n" using assms d q by (simp add: zero_less_divide_iff)
  define e0 where "e0 = bitlen n - bitlen d"
  have dpos: "(0::rat) < of_int d" using d by simp
  have up: "q < 2 powi (e0 + 1)"
  proof -
    have "q < 2 powi (bitlen n) / of_int d"
      unfolding q using bitlen_powi_bounds(2)[OF n] dpos by (simp add: divide_strict_right_mono)
    also have "\<dots> \<le> 2 powi (bitlen n) / 2 powi (bitlen d - 1)"
      using bitlen_powi_bounds(1)[OF d] d by (intro divide_left_mono) (simp_all add: zero_less_mult_iff)
    also have "\<dots> = 2 powi (e0 + 1)"
      by (simp add: e0_def power_int_diff power_int_add)
    finally show ?thesis .
  qed
  have lo: "2 powi (e0 - 1) < q"
  proof -
    have "(2::rat) powi (e0 - 1) = 2 powi (bitlen n - 1) / 2 powi (bitlen d)"
      by (simp add: e0_def power_int_diff)
    also have "\<dots> < 2 powi (bitlen n - 1) / of_int d"
      using bitlen_powi_bounds(2)[OF d] d by (intro divide_strict_left_mono) (simp_all add: zero_less_mult_iff)
    also have "\<dots> \<le> q"
      unfolding q using bitlen_powi_bounds(1)[OF n] dpos by (simp add: divide_right_mono)
    finally show ?thesis .
  qed
  have fl: "floor_log2 q = (if 2 powi e0 \<le> q then e0 else e0 - 1)"
    by (simp add: floor_log2_def qd e0_def Let_def)
  show "2 powi (floor_log2 q) \<le> q"
    using lo by (simp add: fl)
  show "q < 2 powi (floor_log2 q + 1)"
    using up by (simp add: fl)
qed

lemma floor_log2_nonneg:
  assumes "1 \<le> q"
  shows "0 \<le> floor_log2 q"
proof (rule ccontr)
  assume "\<not> 0 \<le> floor_log2 q"
  then have "(2::rat) powi (floor_log2 q + 1) \<le> 2 powi 0"
    by (intro power_int_increasing) simp_all
  moreover have "q < 2 powi (floor_log2 q + 1)"
    using floor_log2_bounds(2)[of q] assms by simp
  ultimately show False using assms by simp
qed

lemma floor_log2_less:
  assumes "0 < q" "q < 2 powi N"
  shows "floor_log2 q < N"
proof (rule ccontr)
  assume "\<not> floor_log2 q < N"
  then have "(2::rat) powi N \<le> 2 powi (floor_log2 q)"
    by (intro power_int_increasing) simp_all
  also have "\<dots> \<le> q" using floor_log2_bounds(1)[OF assms(1)] .
  finally show False using assms(2) by simp
qed

lemma fl64_unfold:
  assumes "0 < \<bar>q\<bar>" "- 1022 \<le> floor_log2 \<bar>q\<bar>"
  shows "fl64 q = of_int (round_even (q / 2 powi (floor_log2 \<bar>q\<bar> - 52))) * 2 powi (floor_log2 \<bar>q\<bar> - 52)"
  using assms by (simp add: fl64_def Let_def max_def)

lemma fl64_Ints:
  assumes "x \<in> \<int>" "\<bar>x\<bar> < 2 ^ 53"
  shows "fl64 x = x"
proof (cases "x = 0")
  case True
  then show ?thesis by (simp add: fl64_def)
next
  case False
  obtain n where x: "x = of_int n" using assms(1) by (elim Ints_cases)
  have n: "n \<noteq> 0" using False x by simp
  then have one: "1 \<le> \<bar>x\<bar>" unfolding x by (simp flip: of_int_abs)
  define e where "e = floor_log2 \<bar>x\<bar>"
  have e0: "0 \<le> e" unfolding e_def using one by (rule floor_log2_nonneg)
  have "e < 53" unfolding e_def using one assms(2) by (intro floor_log2_less) simp_all
  then have e52: "e \<le> 52" by simp
  have s: "(2::rat) powi (e - 52) = 1 / 2 ^ nat (52 - e)"
    using e52 by (cases "e = 52") (simp_all add: power_int_def inverse_eq_divide power_one_over)
  have "x / (2 powi (e - 52)) = of_int (n * 2 ^ nat (52 - e))"
    by (simp add: s x)
  then have r: "round_even (x / (2 powi (e - 52))) = n * 2 ^ nat (52 - e)"
    by (simp only: round_even_of_int)
  have "fl64 x = of_int (round_even (x / 2 powi (e - 52))) * 2 powi (e - 52)"
    unfolding e_def using one e0 by (intro fl64_unfold) (simp_all add: e_def)
  also have "\<dots> = x"
    unfolding r by (simp add: s x)
  finally show ?thesis .
qed

lemma fl64_ge_int:
  assumes "of_int k \<le> z" "0 < k" "k < 2 ^ 53"
  shows "of_int k \<le> fl64 z"
proof -
  have "1 \<le> k" using assms(2) by simp
  then have "(1::rat) \<le> of_int k" by simp
  then have z1: "1 \<le> z" using assms(1) by linarith
  then have zpos: "0 < \<bar>z\<bar>" and zabs: "\<bar>z\<bar> = z" by simp_all
  define e where "e = floor_log2 z"
  have e0: "0 \<le> e" unfolding e_def using z1 by (rule floor_log2_nonneg)
  define s :: rat where "s = 2 powi (e - 52)"
  have spos: "0 < s" by (simp add: s_def)
  have fl: "fl64 z = of_int (round_even (z / s)) * s"
    using fl64_unfold[of z] zpos e0 by (simp add: zabs e_def s_def)
  show ?thesis
  proof (cases "e \<le> 52")
    case True
    have s': "s = 1 / 2 ^ nat (52 - e)"
      using True unfolding s_def by (cases "e = 52") (simp_all add: power_int_def inverse_eq_divide power_one_over)
    have "of_int (k * 2 ^ nat (52 - e)) \<le> z / s"
      using assms(1) by (simp add: s')
    then have "k * 2 ^ nat (52 - e) \<le> round_even (z / s)"
      by (rule round_even_ge)
    then have "(of_int (k * 2 ^ nat (52 - e)) :: rat) \<le> of_int (round_even (z / s))"
      by (simp only: of_int_le_iff)
    then have "of_int (k * 2 ^ nat (52 - e)) * s \<le> of_int (round_even (z / s)) * s"
      using spos by (simp only: mult_le_cancel_right_pos)
    then show ?thesis unfolding fl by (simp add: s')
  next
    case False
    then have e53: "53 \<le> e" by simp
    have "(2::rat) powi e \<le> z" unfolding e_def using floor_log2_bounds(1)[of z] z1 by simp
    then have "of_int (2 ^ 52) \<le> z / s"
      using spos by (simp add: s_def power_int_diff field_simps)
    then have "2 ^ 52 \<le> round_even (z / s)"
      by (rule round_even_ge)
    then have "(of_int (2 ^ 52) :: rat) \<le> of_int (round_even (z / s))"
      by (simp only: of_int_le_iff)
    then have "of_int (2 ^ 52) * s \<le> of_int (round_even (z / s)) * s"
      using spos by (simp only: mult_le_cancel_right_pos)
    moreover have "of_int (2 ^ 52) * s = 2 powi e"
      by (simp add: s_def power_int_diff)
    moreover have "(2::rat) powi 53 \<le> 2 powi e"
      using e53 by (intro power_int_increasing) simp_all
    moreover have "(of_int k :: rat) < 2 powi 53"
    proof -
      have "(of_int k :: rat) < of_int (2 ^ 53)"
        using assms(3) by (simp only: of_int_less_iff)
      then show ?thesis by simp
    qed
    ultimately show ?thesis unfolding fl by linarith
  qed
qed


lemma jadd_Ints: "a \<in> \<int> \<Longrightarrow> b \<in> \<int> \<Longrightarrow> \<bar>a + b\<bar> < 2 ^ 53 \<Longrightarrow> jadd a b = a + b"
  by (simp add: jadd_def fl64_Ints)

lemma jsub_Ints: "a \<in> \<int> \<Longrightarrow> b \<in> \<int> \<Longrightarrow> \<bar>a - b\<bar> < 2 ^ 53 \<Longrightarrow> jsub a b = a - b"
  by (simp add: jsub_def fl64_Ints)

lemma jmul_Ints: "a \<in> \<int> \<Longrightarrow> b \<in> \<int> \<Longrightarrow> \<bar>a * b\<bar> < 2 ^ 53 \<Longrightarrow> jmul a b = a * b"
  by (simp add: jmul_def fl64_Ints)


lemma floor_log2_eq:
  assumes "0 < q" "2 powi e \<le> q" "q < 2 powi (e + 1)"
  shows "floor_log2 q = e"
proof (rule antisym)
  show "floor_log2 q \<le> e"
  proof (rule ccontr)
    assume "\<not> floor_log2 q \<le> e"
    then have "(2::rat) powi (e + 1) \<le> 2 powi (floor_log2 q)"
      by (intro power_int_increasing) simp_all
    also have "\<dots> \<le> q" using floor_log2_bounds(1)[OF assms(1)] .
    finally show False using assms(3) by simp
  qed
  show "e \<le> floor_log2 q"
  proof (rule ccontr)
    assume "\<not> e \<le> floor_log2 q"
    then have "(2::rat) powi (floor_log2 q + 1) \<le> 2 powi e"
      by (intro power_int_increasing) simp_all
    also have "\<dots> \<le> q" using assms(2) .
    finally show False using floor_log2_bounds(2)[OF assms(1)] by simp
  qed
qed

lemma round_even_eq:
  assumes "\<bar>m - of_int k\<bar> < 1 / 2"
  shows "round_even m = k"
proof (cases "of_int k \<le> m")
  case True
  then have "\<lfloor>m\<rfloor> = k" using assms by (intro floor_unique) (simp_all add: abs_less_iff)
  then show ?thesis using assms True by (simp add: round_even_def Let_def abs_less_iff)
next
  case False
  then have "\<lfloor>m\<rfloor> = k - 1" using assms by (intro floor_unique) (simp_all add: abs_less_iff)
  then show ?thesis using assms False by (simp add: round_even_def Let_def abs_less_iff)
qed

lemma round_even_error: "\<bar>of_int (round_even m) - m\<bar> \<le> 1 / 2"
proof -
  have "of_int \<lfloor>m\<rfloor> \<le> m" "m < of_int \<lfloor>m\<rfloor> + 1" by linarith+
  then show ?thesis
    by (auto simp: round_even_def Let_def abs_le_iff)
qed

lemma fl64_eval_small:
  fixes m :: nat
  assumes "m \<le> 1074" "2 ^ 52 \<le> \<bar>q\<bar> * 2 ^ m" "\<bar>q\<bar> * 2 ^ m < 2 ^ 53" "\<bar>q * 2 ^ m - of_int k\<bar> < 1 / 2"
  shows "fl64 q = of_int k / 2 ^ m"
proof -
  define e where "e = 52 - int m"
  have s: "(2::rat) powi (e - 52) = 1 / 2 ^ m"
    by (simp add: e_def power_int_minus inverse_eq_divide)
  have pe: "(2::rat) powi e = 2 ^ 52 / 2 ^ m" "(2::rat) powi (e + 1) = 2 ^ 53 / 2 ^ m"
    by (simp_all add: e_def power_int_diff power_int_add)
  have qpos: "0 < \<bar>q\<bar>" using assms(2) by (cases "q = 0") simp_all
  have p2: "(0::rat) < 2 ^ m" by simp
  have "2 powi e \<le> \<bar>q\<bar>"
    unfolding pe using assms(2) p2 by (simp add: pos_divide_le_eq)
  moreover have "\<bar>q\<bar> < 2 powi (e + 1)"
    unfolding pe using assms(3) p2 by (simp add: pos_less_divide_eq)
  ultimately have "floor_log2 \<bar>q\<bar> = e"
    using qpos by (intro floor_log2_eq)
  moreover have "- 1022 \<le> e" using assms(1) by (simp add: e_def)
  ultimately have "fl64 q = of_int (round_even (q / 2 powi (e - 52))) * 2 powi (e - 52)"
    using fl64_unfold[of q] qpos by simp
  also have "round_even (q / 2 powi (e - 52)) = k"
    using assms(4) by (intro round_even_eq) (simp add: s)
  finally show ?thesis by (simp add: s)
qed

lemma round_even_tie:
  assumes "m = of_int k + 1 / 2"
  shows "round_even m = (if even k then k else k + 1)"
proof -
  have "\<lfloor>m\<rfloor> = k" unfolding assms by (intro floor_unique) simp_all
  then show ?thesis by (simp add: round_even_def Let_def assms)
qed

lemma fl64_eval_tie:
  fixes m :: nat
  assumes "m \<le> 1074" "2 ^ 52 \<le> \<bar>q\<bar> * 2 ^ m" "\<bar>q\<bar> * 2 ^ m < 2 ^ 53" "q * 2 ^ m = of_int k + 1 / 2"
  shows "fl64 q = of_int (if even k then k else k + 1) / 2 ^ m"
proof -
  define e where "e = 52 - int m"
  have s: "(2::rat) powi (e - 52) = 1 / 2 ^ m"
    by (simp add: e_def power_int_minus inverse_eq_divide)
  have pe: "(2::rat) powi e = 2 ^ 52 / 2 ^ m" "(2::rat) powi (e + 1) = 2 ^ 53 / 2 ^ m"
    by (simp_all add: e_def power_int_diff power_int_add)
  have qpos: "0 < \<bar>q\<bar>" using assms(2) by (cases "q = 0") simp_all
  have p2: "(0::rat) < 2 ^ m" by simp
  have "2 powi e \<le> \<bar>q\<bar>"
    unfolding pe using assms(2) p2 by (simp add: pos_divide_le_eq)
  moreover have "\<bar>q\<bar> < 2 powi (e + 1)"
    unfolding pe using assms(3) p2 by (simp add: pos_less_divide_eq)
  ultimately have "floor_log2 \<bar>q\<bar> = e"
    using qpos by (intro floor_log2_eq)
  moreover have "- 1022 \<le> e" using assms(1) by (simp add: e_def)
  ultimately have "fl64 q = of_int (round_even (q / 2 powi (e - 52))) * 2 powi (e - 52)"
    using fl64_unfold[of q] qpos by simp
  also have "round_even (q / 2 powi (e - 52)) = (if even k then k else k + 1)"
    using assms(4) by (intro round_even_tie) (simp add: s)
  finally show ?thesis by (simp add: s)
qed

lemma fl64_rel_error:
  assumes "2 powi (- 1022) \<le> \<bar>z\<bar>"
  shows "\<bar>fl64 z - z\<bar> \<le> \<bar>z\<bar> / 2 ^ 53"
proof -
  have "(0::rat) < 2 powi (- 1022)" by simp
  then have zpos: "0 < \<bar>z\<bar>" using assms by linarith
  define e where "e = floor_log2 \<bar>z\<bar>"
  have lo: "2 powi e \<le> \<bar>z\<bar>" unfolding e_def using zpos by (rule floor_log2_bounds(1))
  have e: "- 1022 \<le> e"
  proof (rule ccontr)
    assume "\<not> - 1022 \<le> e"
    then have "(2::rat) powi (e + 1) \<le> 2 powi (- 1022)"
      by (intro power_int_increasing) simp_all
    then show False using floor_log2_bounds(2)[OF zpos] assms unfolding e_def by linarith
  qed
  define s :: rat where "s = 2 powi (e - 52)"
  have spos: "0 < s" by (simp add: s_def)
  have fl: "fl64 z = of_int (round_even (z / s)) * s"
    using fl64_unfold[of z] zpos e by (simp add: e_def s_def)
  have "fl64 z - z = (of_int (round_even (z / s)) - z / s) * s"
    using spos by (simp add: fl left_diff_distrib)
  then have "\<bar>fl64 z - z\<bar> = \<bar>of_int (round_even (z / s)) - z / s\<bar> * s"
    using spos by (simp add: abs_mult)
  also have "\<dots> \<le> 1 / 2 * s"
    using round_even_error[of "z / s"] spos by (intro mult_right_mono) simp_all
  also have "\<dots> = 2 powi e / 2 ^ 53"
    by (simp add: s_def power_int_diff)
  also have "\<dots> \<le> \<bar>z\<bar> / 2 ^ 53"
    using lo by (simp add: divide_right_mono)
  finally show ?thesis .
qed

lemma gravity_value: "gravity = 3152519739159347 / 4503599627370496"
  unfolding gravity_def
  using fl64_eval_small[where q = "7 / 10" and m = 53 and k = 6305039478318694] by simp


section \<open>What each part of update and attack leaves alone\<close>

lemmas physics_defs = physics_def ground_def screen_boundaries_def integrate_def advance_frames_def

lemma physics_keeps [simp]:
  "health (physics f) = health f"
  "maxHealth (physics f) = maxHealth f"
  "attackDamage (physics f) = attackDamage f"
  "attackCooldown (physics f) = attackCooldown f"
  "isAttacking (physics f) = isAttacking f"
  "width (physics f) = width f"
  "height (physics f) = height f"
  "velocity_x (physics f) = velocity_x f"
  "lastDirection (physics f) = lastDirection f"
  "animations (physics f) = animations f"
  "currentAnimation (physics f) = currentAnimation f"
  "fighter.more (physics f) = fighter.more f"
  by (simp_all add: physics_defs Let_def split: property.splits)

lemma physics_keeps_e [simp]:
  "isDodging (physics e) = isDodging e"
  "dodgeCooldown (physics e) = dodgeCooldown e"
  "dodgeDuration (physics e) = dodgeDuration e"
  "canCombo (physics e) = canCombo e"
  "comboCount (physics e) = comboCount e"
  "lastAttackTime (physics e) = lastAttackTime e"
  by (simp_all add: physics_defs Let_def split: property.splits)

lemma setAnimation_keeps [simp]:
  "health (setAnimation k f) = health f"
  "maxHealth (setAnimation k f) = maxHealth f"
  "attackDamage (setAnimation k f) = attackDamage f"
  "attackCooldown (setAnimation k f) = attackCooldown f"
  "isAttacking (setAnimation k f) = isAttacking f"
  "width (setAnimation k f) = width f"
  "height (setAnimation k f) = height f"
  "position_x (setAnimation k f) = position_x f"
  "position_y (setAnimation k f) = position_y f"
  "velocity_x (setAnimation k f) = velocity_x f"
  "velocity_y (setAnimation k f) = velocity_y f"
  "lastDirection (setAnimation k f) = lastDirection f"
  "animations (setAnimation k f) = animations f"
  "fighter.more (setAnimation k f) = fighter.more f"
  by (simp_all add: setAnimation_def)

lemma setAnimation_keeps_e [simp]:
  "isDodging (setAnimation k e) = isDodging e"
  "dodgeCooldown (setAnimation k e) = dodgeCooldown e"
  "dodgeDuration (setAnimation k e) = dodgeDuration e"
  "canCombo (setAnimation k e) = canCombo e"
  "comboCount (setAnimation k e) = comboCount e"
  "lastAttackTime (setAnimation k e) = lastAttackTime e"
  by (simp_all add: setAnimation_def)

lemma cooldown_keeps [simp]:
  "health (cooldown f) = health f"
  "maxHealth (cooldown f) = maxHealth f"
  "attackDamage (cooldown f) = attackDamage f"
  "width (cooldown f) = width f"
  "height (cooldown f) = height f"
  "position_x (cooldown f) = position_x f"
  "position_y (cooldown f) = position_y f"
  "velocity_x (cooldown f) = velocity_x f"
  "velocity_y (cooldown f) = velocity_y f"
  "lastDirection (cooldown f) = lastDirection f"
  "animations (cooldown f) = animations f"
  by (simp_all add: cooldown_def)

lemma cooldowns_keeps [simp]:
  "health (cooldowns e) = health e"
  "maxHealth (cooldowns e) = maxHealth e"
  "attackDamage (cooldowns e) = attackDamage e"
  "width (cooldowns e) = width e"
  "height (cooldowns e) = height e"
  "position_x (cooldowns e) = position_x e"
  "position_y (cooldowns e) = position_y e"
  "velocity_x (cooldowns e) = velocity_x e"
  "velocity_y (cooldowns e) = velocity_y e"
  "lastDirection (cooldowns e) = lastDirection e"
  "animations (cooldowns e) = animations e"
  "isDodging (cooldowns e) = isDodging e"
  "dodgeDuration (cooldowns e) = dodgeDuration e"
  "comboCount (cooldowns e) = comboCount e"
  "lastAttackTime (cooldowns e) = lastAttackTime e"
  by (simp_all add: cooldowns_def Let_def)

lemma dodge_keeps [simp]:
  "health (dodge e) = health e"
  "maxHealth (dodge e) = maxHealth e"
  "attackDamage (dodge e) = attackDamage e"
  "attackCooldown (dodge e) = attackCooldown e"
  "isAttacking (dodge e) = isAttacking e"
  "canCombo (dodge e) = canCombo e"
  "width (dodge e) = width e"
  "height (dodge e) = height e"
  "position_x (dodge e) = position_x e"
  "position_y (dodge e) = position_y e"
  "velocity_y (dodge e) = velocity_y e"
  "lastDirection (dodge e) = lastDirection e"
  "animations (dodge e) = animations e"
  "comboCount (dodge e) = comboCount e"
  "lastAttackTime (dodge e) = lastAttackTime e"
  by (simp_all add: dodge_def Let_def)

lemma update_Inr: "update f = Inr f' \<Longrightarrow> f' = cooldown (physics f)"
  by (simp add: update_def split: sum.splits if_splits)

lemma eupdate_Inr: "eupdate f = Inr f' \<Longrightarrow> f' = dodge (cooldowns (physics f))"
  by (simp add: eupdate_def split: sum.splits if_splits)

lemma attack_hits_upd [simp]:
  "attack_hits r (a\<lparr>isAttacking := b\<rparr>) t = attack_hits r a t"
  "attack_hits r (a\<lparr>attackCooldown := c\<rparr>) t = attack_hits r a t"
  "attack_hits r (e\<lparr>comboCount := k\<rparr>) t = attack_hits r e t"
  "attack_hits r (e\<lparr>lastAttackTime := l\<rparr>) t = attack_hits r e t"
  "attack_hits r a (u\<lparr>isDodging := d\<rparr>) = attack_hits r a u"
  by (simp_all add: attack_hits_def)


lemma eattack_eligible:
  assumes "attackCooldown a \<le> 0" "\<not> isDodging a"
  shows "eattack now a t =
    (a\<lparr>isAttacking := True,
       comboCount := (if now - lastAttackTime a < 500 \<and> canCombo a then (comboCount a + 1) mod 3 else 0),
       attackCooldown := 30 - int (if now - lastAttackTime a < 500 \<and> canCombo a then (comboCount a + 1) mod 3 else 0) * 5,
       lastAttackTime := now\<rparr>,
     if attack_hits 120 a t then take_damage (attackDamage a) t else t)"
  using assms by (simp add: eattack_def Let_def)

lemma eattack_gated:
  assumes "\<not> (attackCooldown a \<le> 0 \<and> \<not> isDodging a)"
  shows "eattack now a t = (a, t)"
  using assms by (auto simp add: eattack_def)

lemma attack_eligible:
  assumes "attackCooldown a \<le> 0"
  shows "attack a t = (a\<lparr>isAttacking := True, attackCooldown := 120\<rparr>,
     if attack_hits 100 a t then take_damage (attackDamage a) t else t)"
  using assms by (simp add: attack_def Let_def)

lemma take_damage_eq: "take_damage d t = t\<lparr>health := max 0 (health t - d)\<rparr>"
  by (simp add: take_damage_def Let_def max_def)


section \<open>Drawing never fails while the idle frames are there\<close>

lemma lookup_own: "table key = Some an \<Longrightarrow> lookup table key = Animation an"
  by (simp add: lookup_def)

lemma lookup_absent:
  "table key = None \<Longrightarrow> key \<notin> set object_prototype \<Longrightarrow> lookup table key = Undefined"
  by (simp add: lookup_def)

lemma lookup_Inherited:
  "lookup table key = Inherited \<longleftrightarrow> table key = None \<and> key \<in> set object_prototype"
  by (simp add: lookup_def split: option.splits)

lemma inherited_lookup: "inherited f \<longleftrightarrow> lookup (animations f) (currentAnimation f) = Inherited"
  by (simp add: inherited_def lookup_Inherited)

lemma idle_keys [simp]:
  "''idleRight'' \<notin> set object_prototype" "''idleLeft'' \<notin> set object_prototype"
  "fallbackAnim f \<notin> set object_prototype"
  by (simp_all add: object_prototype_def fallbackAnim_def)

lemma fallback_eq:
  "fallback f = (case fallbackFrame f of None \<Rightarrow> Inl TypeError | Some img \<Rightarrow> Inr (drawImage img f))"
  by (simp add: fallback_def fallbackFrame_def lookup_def split: option.splits)

lemma has_idle_frames_fallback:
  "has_idle_frames f \<Longrightarrow> \<exists>img. fallbackFrame f = Some img"
  by (auto simp: has_idle_frames_def fallbackFrame_def fallbackAnim_def split: option.splits)

lemma draw_missing: "frame_missing f \<Longrightarrow> \<not> inherited f \<Longrightarrow> draw f = fallback f"
  by (auto simp: draw_def frame_missing_def inherited_def lookup_def split: option.splits)

lemma draw_present:
  "animations f (currentAnimation f) = Some an \<Longrightarrow> frame_at (frames an) (currentFrame f) = Some img
     \<Longrightarrow> draw f = Inr (drawImage img f)"
  by (simp add: draw_def lookup_own)

lemma draw_inherited: "inherited f \<Longrightarrow> draw f = Inl TypeError"
  by (simp add: draw_def inherited_lookup)

lemma draw_fallback:
  assumes "fallbackFrame f = Some img" and "\<not> inherited f" and "frame_missing f"
  shows "draw f = Inr (drawImage img f)"
  using assms by (simp add: draw_missing fallback_eq)

lemma draw_total: "has_idle_frames f \<Longrightarrow> \<not> inherited f \<Longrightarrow> \<exists>c. draw f = Inr c"
proof (cases "frame_missing f")
  case True
  assume "has_idle_frames f" "\<not> inherited f"
  then show ?thesis using has_idle_frames_fallback[of f] draw_fallback[OF _ _ True] by blast
next
  case False
  then obtain an img where "animations f (currentAnimation f) = Some an"
    "frame_at (frames an) (currentFrame f) = Some img"
    by (auto simp: frame_missing_def split: option.splits)
  then show ?thesis by (simp add: draw_present)
qed

lemma advance_faults_inherited: "advance_faults f \<Longrightarrow> inherited f"
  by (simp add: advance_faults_def inherited_lookup)

lemma update_total:
  "has_idle_frames f \<Longrightarrow> \<not> inherited f \<Longrightarrow> update f = Inr (cooldown (physics f))"
  using draw_total[of f] advance_faults_inherited[of f] by (auto simp: update_def)

lemma eupdate_total:
  "has_idle_frames f \<Longrightarrow> \<not> inherited f \<Longrightarrow> eupdate f = Inr (dodge (cooldowns (physics f)))"
  using draw_total[of f] advance_faults_inherited[of f] by (auto simp: eupdate_def)

lemma inherited_upd [simp]:
  "inherited (f\<lparr>attackCooldown := c\<rparr>) = inherited f"
  "inherited (f\<lparr>isAttacking := b\<rparr>) = inherited f"
  "inherited (f\<lparr>position_x := x\<rparr>) = inherited f"
  "inherited (f\<lparr>position_y := y\<rparr>) = inherited f"
  "inherited (f\<lparr>velocity_x := vx\<rparr>) = inherited f"
  "inherited (f\<lparr>velocity_y := vy\<rparr>) = inherited f"
  "inherited (f\<lparr>health := h\<rparr>) = inherited f"
  "inherited (f\<lparr>lastDirection := d\<rparr>) = inherited f"
  "inherited (f\<lparr>currentFrame := i\<rparr>) = inherited f"
  "inherited (e\<lparr>isDodging := b\<rparr>) = inherited e"
  "inherited (e\<lparr>canCombo := b\<rparr>) = inherited e"
  "inherited (e\<lparr>comboCount := k\<rparr>) = inherited e"
  "inherited (e\<lparr>lastAttackTime := l\<rparr>) = inherited e"
  "inherited (e\<lparr>dodgeCooldown := dc\<rparr>) = inherited e"
  "inherited (e\<lparr>dodgeDuration := dd\<rparr>) = inherited e"
  by (simp_all add: inherited_def)

lemma inherited_setAnimation:
  "inherited (setAnimation k f) \<longleftrightarrow> animations f k = None \<and> k \<in> set object_prototype"
  by (auto simp: inherited_def setAnimation_def)

lemma not_inherited_idle [simp]:
  "\<not> inherited (setAnimation (fallbackAnim g) f)"
  "\<not> inherited (setAnimation ''idleRight'' f)"
  "\<not> inherited (setAnimation ''idleLeft'' f)"
  by (simp_all add: inherited_setAnimation)

lemma inherited_steps [simp]:
  "inherited (physics f) = inherited f"
  "inherited (cooldown g) = inherited g"
  "inherited (cooldowns e) = inherited e"
  by (simp_all add: inherited_def cooldown_def cooldowns_def Let_def)

lemma not_inherited_dodge [simp]: "\<not> inherited e \<Longrightarrow> \<not> inherited (dodge e)"
  by (simp add: dodge_def Let_def)

lemma has_idle_frames_cong: "animations f' = animations f \<Longrightarrow> has_idle_frames f' = has_idle_frames f"
  by (simp add: has_idle_frames_def)

lemma has_idle_frames_steps [simp]:
  "has_idle_frames (physics f) = has_idle_frames f"
  "has_idle_frames (cooldown g) = has_idle_frames g"
  "has_idle_frames (cooldowns e) = has_idle_frames e"
  "has_idle_frames (dodge e) = has_idle_frames e"
  "has_idle_frames (setAnimation k f) = has_idle_frames f"
  by (simp_all add: has_idle_frames_def)

lemma has_idle_frames_table:
  "has_idle_frames (f\<lparr>animations := animation_table who d imgs\<rparr>) \<longleftrightarrow>
     imgs (who @ ''_idleRight'') \<noteq> None \<and> imgs (who @ ''_idleLeft'') \<noteq> None"
  by (simp add: has_idle_frames_def animation_table_def frame_at_def)

lemma has_idle_frames_match [simp]:
  "has_idle_frames (player all_loaded)" "has_idle_frames (enemy all_loaded)"
  "has_idle_frames (eplayer all_loaded)" "has_idle_frames (eenemy all_loaded)"
  by (simp_all add: has_idle_frames_def player_def enemy_def eplayer_def eenemy_def Fighter_def EFighter_def
      animation_table_def frame_at_def all_loaded_def)

lemma not_inherited_match [simp]:
  "\<not> inherited (player i)" "\<not> inherited (enemy i)"
  "\<not> inherited (eplayer i)" "\<not> inherited (eenemy i)"
  by (simp_all add: inherited_def player_def enemy_def eplayer_def eenemy_def Fighter_def EFighter_def)


section \<open>The fighters of a match, field by field\<close>

lemma match_fields [simp]:
  "position_x (eplayer i) = 100" "position_y (eplayer i) = 426"
  "position_x (eenemy i) = 824" "position_y (eenemy i) = 426"
  "position_x (player i) = 100" "position_y (player i) = 426"
  "position_x (enemy i) = 824" "position_y (enemy i) = 426"
  "width (eplayer i) = 50" "height (eplayer i) = 150" "width (eenemy i) = 50" "height (eenemy i) = 150"
  "width (player i) = 50" "height (player i) = 150" "width (enemy i) = 50" "height (enemy i) = 150"
  "lastDirection (eplayer i) = ''right''" "lastDirection (eenemy i) = ''right''"
  "lastDirection (player i) = ''right''" "lastDirection (enemy i) = ''right''"
  "attackCooldown (eplayer i) = 0" "attackCooldown (eenemy i) = 0"
  "attackCooldown (player i) = 0" "attackCooldown (enemy i) = 0"
  "health (eplayer i) = 200" "health (eenemy i) = 200" "health (player i) = 100" "health (enemy i) = 100"
  "maxHealth (eplayer i) = 200" "maxHealth (eenemy i) = 200" "maxHealth (player i) = 100" "maxHealth (enemy i) = 100"
  "attackDamage (eplayer i) = 15" "attackDamage (eenemy i) = 15" "attackDamage (player i) = 10" "attackDamage (enemy i) = 10"
  "isDodging (eplayer i) = False" "isDodging (eenemy i) = False"
  "velocity_x (eplayer i) = 0" "velocity_y (eplayer i) = 0" "velocity_x (eenemy i) = 0" "velocity_y (eenemy i) = 0"
  "velocity_x (player i) = 0" "velocity_y (player i) = 0" "velocity_x (enemy i) = 0" "velocity_y (enemy i) = 0"
  "canCombo (eplayer i) = False" "comboCount (eplayer i) = 0" "lastAttackTime (eplayer i) = 0"
  "canCombo (eenemy i) = False" "comboCount (eenemy i) = 0" "lastAttackTime (eenemy i) = 0"
  "isAttacking (eplayer i) = False" "isAttacking (eenemy i) = False"
  "isAttacking (player i) = False" "isAttacking (enemy i) = False"
  by (simp_all add: player_def enemy_def eplayer_def eenemy_def Fighter_def EFighter_def canvas_width_def jsub_Ints)


section \<open>Running a cooldown down\<close>

lemma eupdate_not_dodging:
  assumes "eupdate f = Inr f'" "\<not> isDodging f"
  shows "\<not> isDodging f'" "comboCount f' = comboCount f" "lastAttackTime f' = lastAttackTime f"
    "attackCooldown f' = (if 0 < attackCooldown f then attackCooldown f - 1 else attackCooldown f)"
    "isAttacking f' = (isAttacking f \<and> 0 < attackCooldown f')"
    "canCombo f' = (canCombo f \<or> (isAttacking f \<and> attackCooldown f' \<le> 0))"
proof -
  have f': "f' = dodge (cooldowns (physics f))" using assms(1) by (rule eupdate_Inr)
  have nd: "dodge (cooldowns (physics f)) = cooldowns (physics f)"
    using assms(2) by (simp add: dodge_def)
  show "\<not> isDodging f'" "comboCount f' = comboCount f" "lastAttackTime f' = lastAttackTime f"
    unfolding f' nd using assms(2) by simp_all
  show "attackCooldown f' = (if 0 < attackCooldown f then attackCooldown f - 1 else attackCooldown f)"
    "isAttacking f' = (isAttacking f \<and> 0 < attackCooldown f')"
    "canCombo f' = (canCombo f \<or> (isAttacking f \<and> attackCooldown f' \<le> 0))"
    unfolding f' nd by (auto simp add: cooldowns_def Let_def)
qed

lemma eupdates_expire:
  assumes "eupdates n f = Inr f'" "\<not> isDodging f" "isAttacking f" "attackCooldown f = int n" "0 < n"
  shows "attackCooldown f' = 0 \<and> canCombo f' \<and> \<not> isAttacking f' \<and> \<not> isDodging f' \<and>
         comboCount f' = comboCount f \<and> lastAttackTime f' = lastAttackTime f"
  using assms
proof (induction n arbitrary: f)
  case 0
  then show ?case by simp
next
  case (Suc n)
  from Suc.prems(1) obtain f1 where f1: "eupdate f = Inr f1" and rest: "eupdates n f1 = Inr f'"
    by (auto split: sum.splits)
  note st = eupdate_not_dodging[OF f1 Suc.prems(2)]
  show ?case
  proof (cases "n = 0")
    case True
    then have "f' = f1" using rest by simp
    then show ?thesis using st Suc.prems True by simp
  next
    case False
    have "attackCooldown f1 = int n" using st(4) Suc.prems(4) by simp
    moreover have "isAttacking f1" using st(5) Suc.prems(3) False \<open>attackCooldown f1 = int n\<close> by simp
    ultimately have "attackCooldown f' = 0 \<and> canCombo f' \<and> \<not> isAttacking f' \<and> \<not> isDodging f' \<and>
         comboCount f' = comboCount f1 \<and> lastAttackTime f' = lastAttackTime f1"
      using Suc.IH[OF rest st(1)] False by simp
    then show ?thesis using st(2,3) by simp
  qed
qed

lemma eupdates_total:
  "has_idle_frames f \<Longrightarrow> \<not> inherited f
     \<Longrightarrow> \<exists>f'. eupdates n f = Inr f' \<and> has_idle_frames f' \<and> \<not> inherited f'"
  by (induction n arbitrary: f) (simp_all add: eupdate_total)

lemma updates_total:
  "has_idle_frames f \<Longrightarrow> \<not> inherited f
     \<Longrightarrow> \<exists>f'. updates n f = Inr f' \<and> has_idle_frames f' \<and> \<not> inherited f'"
  by (induction n arbitrary: f) (simp_all add: update_total)


lemma eupdates_projr:
  assumes "has_idle_frames f" "\<not> inherited f"
  shows "eupdates n f = Inr (projr (eupdates n f))" "has_idle_frames (projr (eupdates n f))"
    "\<not> inherited (projr (eupdates n f))"
  using eupdates_total[OF assms, of n] by auto

lemma updates_projr:
  assumes "has_idle_frames f" "\<not> inherited f"
  shows "updates n f = Inr (projr (updates n f))" "has_idle_frames (projr (updates n f))"
    "\<not> inherited (projr (updates n f))"
  using updates_total[OF assms, of n] by auto

lemma has_idle_frames_attack [simp]:
  "has_idle_frames (fst (eattack now a t)) = has_idle_frames a"
  "has_idle_frames (fst (attack b u)) = has_idle_frames b"
proof -
  show "has_idle_frames (fst (eattack now a t)) = has_idle_frames a"
    by (cases "attackCooldown a \<le> 0 \<and> \<not> isDodging a")
       (simp_all add: eattack_eligible eattack_gated has_idle_frames_def)
  show "has_idle_frames (fst (attack b u)) = has_idle_frames b"
  proof (cases "attackCooldown b \<le> 0")
    case True
    then show ?thesis by (simp add: attack_eligible has_idle_frames_def)
  next
    case False
    then show ?thesis by (simp add: attack_def)
  qed
qed


lemma inherited_attack [simp]:
  "inherited (fst (eattack now a t)) = inherited a"
  "inherited (fst (attack b u)) = inherited b"
proof -
  show "inherited (fst (eattack now a t)) = inherited a"
    by (cases "attackCooldown a \<le> 0 \<and> \<not> isDodging a")
       (simp_all add: eattack_eligible eattack_gated inherited_def)
  show "inherited (fst (attack b u)) = inherited b"
  proof (cases "attackCooldown b \<le> 0")
    case True
    then show ?thesis by (simp add: attack_eligible inherited_def)
  next
    case False
    then show ?thesis by (simp add: attack_def)
  qed
qed

lemma has_idle_frames_upd [simp]:
  "has_idle_frames (f\<lparr>attackCooldown := c\<rparr>) = has_idle_frames f"
  "has_idle_frames (f\<lparr>isAttacking := b\<rparr>) = has_idle_frames f"
  "has_idle_frames (f\<lparr>position_x := x\<rparr>) = has_idle_frames f"
  "has_idle_frames (f\<lparr>position_y := y\<rparr>) = has_idle_frames f"
  "has_idle_frames (f\<lparr>velocity_x := vx\<rparr>) = has_idle_frames f"
  "has_idle_frames (f\<lparr>velocity_y := vy\<rparr>) = has_idle_frames f"
  "has_idle_frames (f\<lparr>health := h\<rparr>) = has_idle_frames f"
  "has_idle_frames (f\<lparr>lastDirection := d\<rparr>) = has_idle_frames f"
  "has_idle_frames (f\<lparr>currentFrame := i\<rparr>) = has_idle_frames f"
  "has_idle_frames (f\<lparr>currentAnimation := k\<rparr>) = has_idle_frames f"
  "has_idle_frames (e\<lparr>isDodging := b\<rparr>) = has_idle_frames e"
  "has_idle_frames (e\<lparr>canCombo := b\<rparr>) = has_idle_frames e"
  by (simp_all add: has_idle_frames_def)

lemma cooldown_fields:
  "attackCooldown (cooldown f) = (if 0 < attackCooldown f then attackCooldown f - 1 else attackCooldown f)"
  "isAttacking (cooldown f) = (isAttacking f \<and> 0 < attackCooldown f)"
  by (auto simp: cooldown_def)

lemma cooldowns_fields:
  "attackCooldown (cooldowns f) = (if 0 < attackCooldown f then attackCooldown f - 1 else attackCooldown f)"
  "isAttacking (cooldowns f) = (isAttacking f \<and> 1 < attackCooldown f)"
  "canCombo (cooldowns f) = (canCombo f \<or> (isAttacking f \<and> attackCooldown f \<le> 1))"
  by (auto simp: cooldowns_def Let_def)


section \<open>The hit test on whole pixels\<close>

lemma attack_hits_pixels:
  assumes "on_pixels a t" "\<bar>r\<bar> \<le> 1000" "r \<in> \<int>"
  shows "attack_hits r a t \<longleftrightarrow> - width t < edge_gap a t \<and> edge_gap a t < r \<and> overlap_y a t"
proof -
  from assms(1) have i: "position_x a \<in> \<int>" "width a \<in> \<int>" "position_x t \<in> \<int>" "width t \<in> \<int>"
    and b: "\<bar>position_x a\<bar> + \<bar>width a\<bar> + \<bar>position_x t\<bar> + \<bar>width t\<bar> < 2 ^ 52"
    by (simp_all add: on_pixels_def)
  have 1: "jadd (position_x a) (width a) = position_x a + width a"
    using i b by (intro jadd_Ints) simp_all
  have 2: "jadd (position_x a + width a) r = position_x a + width a + r"
    using i b assms(2,3) by (intro jadd_Ints) simp_all
  have 3: "jsub (position_x a) r = position_x a - r"
    using i b assms(2,3) by (intro jsub_Ints) simp_all
  have 4: "jadd (position_x t) (width t) = position_x t + width t"
    using i b by (intro jadd_Ints) simp_all
  show ?thesis
    unfolding attack_hits_def Let_def 1 2 3 4 edge_gap_def overlap_y_def by auto
qed


section \<open>The fallback of draw and the placeholder of the controller\<close>

lemma draw_frame_missing:
  assumes "has_idle_frames f" "\<not> inherited f" "frame_missing f"
  shows "\<exists>fb img. animations f (if lastDirection f = ''right'' then ''idleRight'' else ''idleLeft'') = Some fb \<and>
     frames fb \<noteq> [] \<and> frames fb ! 0 = Some img \<and> draw f = Inr (drawImage img f)"
proof -
  obtain img where img: "fallbackFrame f = Some img"
    using has_idle_frames_fallback[OF assms(1)] by blast
  then obtain fb where fb: "animations f (fallbackAnim f) = Some fb" "frame_at (frames fb) (Some 0) = Some img"
    by (auto simp: fallbackFrame_def split: option.splits)
  have "draw f = Inr (drawImage img f)"
    using img assms(2,3) by (rule draw_fallback)
  moreover have "frames fb \<noteq> []" "frames fb ! 0 = Some img"
    using fb(2) by (auto simp: frame_at_def split: if_splits)
  ultimately show ?thesis using fb(1) by (auto simp: fallbackAnim_def)
qed

text \<open>
  Without an image at frame 0 of the idle animation the fallback itself throws, as for a
  player whose right idle image failed to load: its frame list has one entry, which is
  \<open>undefined\<close>.
\<close>

lemma draw_without_idle_image:
  "frame_missing f \<Longrightarrow> \<not> inherited f \<Longrightarrow> fallbackFrame f = None \<Longrightarrow> draw f = Inl TypeError"
  by (simp add: draw_missing fallback_eq)

lemma frame_missing_empty:
  "animations f (currentAnimation f) = Some an \<Longrightarrow> frames an = [] \<Longrightarrow> frame_missing f"
  by (simp add: frame_missing_def frame_at_def split: option.splits)

lemma ensure_animation_absent:
  "animations f k = None \<Longrightarrow>
     ensure_animation k f = f\<lparr>animations := (animations f)(k \<mapsto> \<lparr>frames = [], frameDuration = Some 5\<rparr>)\<rparr>"
  by (simp add: ensure_animation_def Let_def)

lemma ensure_animation_keeps [simp]:
  "currentAnimation (ensure_animation k f) = currentAnimation f"
  "currentFrame (ensure_animation k f) = currentFrame f"
  "lastDirection (ensure_animation k f) = lastDirection f"
  "position_x (ensure_animation k f) = position_x f"
  "position_y (ensure_animation k f) = position_y f"
  "velocity_x (ensure_animation k f) = velocity_x f"
  "velocity_y (ensure_animation k f) = velocity_y f"
  "width (ensure_animation k f) = width f"
  "height (ensure_animation k f) = height f"
  "health (ensure_animation k f) = health f"
  "maxHealth (ensure_animation k f) = maxHealth f"
  "attackDamage (ensure_animation k f) = attackDamage f"
  "fighter.more (ensure_animation k f) = fighter.more f"
  by (simp_all add: ensure_animation_def Let_def split: option.splits)

lemma ensure_animation_other:
  "k' \<noteq> k \<Longrightarrow> animations (ensure_animation k f) k' = animations f k'"
  by (simp add: ensure_animation_def Let_def split: option.splits)

lemma has_idle_frames_ensure:
  "k \<noteq> ''idleRight'' \<Longrightarrow> k \<noteq> ''idleLeft'' \<Longrightarrow> has_idle_frames (ensure_animation k f) = has_idle_frames f"
  by (simp add: has_idle_frames_def ensure_animation_other)

lemma ai_attack_eq:
  "ai_attack now now' dir (ai, f, t) =
     (let k = ''attack'' @ dir;
          r = eattack now' (ensure_animation k (setAnimation k f)) t
      in (ai\<lparr>ai_attackCooldown := 5, nextActionTime := now + 50\<rparr>,
          (fst r)\<lparr>velocity_x :=
              (if 0 < jsub (jadd (position_x (snd r)) (jmul (velocity_x (snd r)) (fl64 (7 / 10))))
                        (position_x (fst r))
               then 3 else - 3)\<rparr>,
          snd r))"
  by (simp add: ai_attack_def Let_def split_beta)


lemma advance_frames_empty:
  assumes "animations f (currentAnimation f) = Some an" "frames an = []"
  shows "currentFrame (advance_frames f) =
     (if frame_duration an f \<noteq> 0 \<and> (framesElapsed f + 1) mod frame_duration an f = 0
      then None else currentFrame f)"
  using assms
  by (simp add: advance_frames_def lookup_own Let_def frame_duration_def next_frame_def split: option.splits)

lemma attack_key_neq_idle [simp]:
  "''attack'' @ dir \<noteq> ''idleRight''" "''attack'' @ dir \<noteq> ''idleLeft''"
  by simp_all

lemma attack_key_own: "''attack'' @ dir \<notin> set object_prototype"
  by (simp add: object_prototype_def)

lemma lookup_attack_key:
  "lookup table (''attack'' @ dir) =
     (case table (''attack'' @ dir) of None \<Rightarrow> Undefined | Some an \<Rightarrow> Animation an)"
  using attack_key_own[of dir] by (simp add: lookup_def split: option.splits)

lemma eattack_fst_keeps [simp]:
  "animations (fst (eattack now a t)) = animations a"
  "currentAnimation (fst (eattack now a t)) = currentAnimation a"
  "currentFrame (fst (eattack now a t)) = currentFrame a"
  "lastDirection (fst (eattack now a t)) = lastDirection a"
proof -
  show "animations (fst (eattack now a t)) = animations a"
    "currentAnimation (fst (eattack now a t)) = currentAnimation a"
    "currentFrame (fst (eattack now a t)) = currentFrame a"
    "lastDirection (fst (eattack now a t)) = lastDirection a"
    by (cases "attackCooldown a \<le> 0 \<and> \<not> isDodging a"; simp add: eattack_eligible eattack_gated)+
qed

lemma ai_attack_placeholder:
  assumes "has_idle_frames e" "animations e (''attack'' @ dir) = None"
    and "e1 = fst (snd (ai_attack now now' dir (ai, e, p)))"
  shows "animations e1 (currentAnimation e1) = Some \<lparr>frames = [], frameDuration = Some 5\<rparr>"
    and "frame_missing e1" and "has_idle_frames e1" and "\<not> inherited e1"
proof -
  define k where "k = ''attack'' @ dir"
  define e0 where "e0 = ensure_animation k (setAnimation k e)"
  have an: "animations e0 = (animations e)(k \<mapsto> \<lparr>frames = [], frameDuration = Some 5\<rparr>)"
    using assms(2) by (simp add: e0_def k_def ensure_animation_absent)
  have cur: "currentAnimation e0 = k"
    by (simp add: e0_def setAnimation_def)
  have e1: "animations e1 = animations e0" "currentAnimation e1 = currentAnimation e0"
    "currentFrame e1 = currentFrame e0"
    unfolding assms(3) ai_attack_eq Let_def e0_def k_def by simp_all
  show a: "animations e1 (currentAnimation e1) = Some \<lparr>frames = [], frameDuration = Some 5\<rparr>"
    by (simp add: e1 an cur)
  show "frame_missing e1"
    using a by (rule frame_missing_empty) simp
  have "has_idle_frames e0"
    using assms(1) by (simp add: e0_def k_def has_idle_frames_ensure)
  then show "has_idle_frames e1"
    by (simp add: has_idle_frames_def e1)
  show "\<not> inherited e1"
    using a by (simp add: inherited_def)
qed


section \<open>Free fall\<close>

lemma physics_vertical:
  "position_y (physics f) =
     (if falling f then jadd (position_y f) (velocity_y f) else jsub canvas_height (height f))"
  "velocity_y (physics f) = (if falling f then jadd (velocity_y f) gravity else 0)"
  by (auto simp add: physics_defs falling_def Let_def split: property.splits)

lemma update_vertical:
  assumes "update f = Inr f'"
  shows "position_y f' = (if falling f then jadd (position_y f) (velocity_y f) else jsub canvas_height (height f))"
    and "velocity_y f' = (if falling f then jadd (velocity_y f) gravity else 0)"
    and "height f' = height f"
  using update_Inr[OF assms] by (simp_all add: physics_vertical)

lemma eupdate_vertical:
  assumes "eupdate f = Inr f'"
  shows "position_y f' = (if falling f then jadd (position_y f) (velocity_y f) else jsub canvas_height (height f))"
    and "velocity_y f' = (if falling f then jadd (velocity_y f) gravity else 0)"
    and "height f' = height f"
  using eupdate_Inr[OF assms] by (simp_all add: physics_vertical)

lemma gravity_funpow:
  "((\<lambda>v. jadd v g) ^^ n) (jadd v g) = jadd (((\<lambda>v. jadd v g) ^^ n) v) g"
  using funpow_swap1[of "\<lambda>v. jadd v g" n v] by simp

lemma airborne_velocity:
  "airborne_for n f \<Longrightarrow>
     \<exists>f'. updates n f = Inr f' \<and> velocity_y f' = ((\<lambda>v. jadd v gravity) ^^ n) (velocity_y f)"
proof (induction n arbitrary: f)
  case 0
  then show ?case by simp
next
  case (Suc n)
  from Suc.prems obtain f1 where f1: "update f = Inr f1" and fl: "falling f" and rest: "airborne_for n f1"
    by (auto split: sum.splits)
  from Suc.IH[OF rest] obtain f' where f': "updates n f1 = Inr f'"
    "velocity_y f' = ((\<lambda>v. jadd v gravity) ^^ n) (velocity_y f1)" by blast
  have "velocity_y f1 = jadd (velocity_y f) gravity"
    using update_vertical(2)[OF f1] fl by simp
  then show ?case using f1 f' by (simp add: gravity_funpow)
qed

lemma eairborne_velocity:
  "eairborne_for n f \<Longrightarrow>
     \<exists>f'. eupdates n f = Inr f' \<and> velocity_y f' = ((\<lambda>v. jadd v gravity) ^^ n) (velocity_y f)"
proof (induction n arbitrary: f)
  case 0
  then show ?case by simp
next
  case (Suc n)
  from Suc.prems obtain f1 where f1: "eupdate f = Inr f1" and fl: "falling f" and rest: "eairborne_for n f1"
    by (auto split: sum.splits)
  from Suc.IH[OF rest] obtain f' where f': "eupdates n f1 = Inr f'"
    "velocity_y f' = ((\<lambda>v. jadd v gravity) ^^ n) (velocity_y f1)" by blast
  have "velocity_y f1 = jadd (velocity_y f) gravity"
    using eupdate_vertical(2)[OF f1] fl by simp
  then show ?case using f1 f' by (simp add: gravity_funpow)
qed

lemma airborne_free_fall:
  "has_idle_frames f \<Longrightarrow> \<not> inherited f \<Longrightarrow>
     free_fall n (height f) (position_y f, velocity_y f) =
       (if airborne_for n f
        then Some (position_y (projr (updates n f)), velocity_y (projr (updates n f)))
        else None)"
proof (induction n arbitrary: f)
  case 0
  show ?case by simp
next
  case (Suc n)
  have u: "update f = Inr (cooldown (physics f))" using Suc.prems by (rule update_total)
  have i: "has_idle_frames (cooldown (physics f))" "\<not> inherited (cooldown (physics f))"
    using Suc.prems by simp_all
  let ?f1 = "cooldown (physics f)"
  show ?case
  proof (cases "falling f")
    case True
    then have "position_y ?f1 = jadd (position_y f) (velocity_y f)"
      "velocity_y ?f1 = jadd (velocity_y f) gravity" "height ?f1 = height f"
      using update_vertical[OF u] by simp_all
    then show ?thesis
      using Suc.IH[OF i] True by (simp add: u falling_def)
  next
    case False
    then show ?thesis by (simp add: falling_def)
  qed
qed

lemma eairborne_free_fall:
  "has_idle_frames f \<Longrightarrow> \<not> inherited f \<Longrightarrow>
     free_fall n (height f) (position_y f, velocity_y f) =
       (if eairborne_for n f
        then Some (position_y (projr (eupdates n f)), velocity_y (projr (eupdates n f)))
        else None)"
proof (induction n arbitrary: f)
  case 0
  show ?case by simp
next
  case (Suc n)
  have u: "eupdate f = Inr (dodge (cooldowns (physics f)))" using Suc.prems by (rule eupdate_total)
  have i: "has_idle_frames (dodge (cooldowns (physics f)))" "\<not> inherited (dodge (cooldowns (physics f)))"
    using Suc.prems by simp_all
  let ?f1 = "dodge (cooldowns (physics f))"
  show ?case
  proof (cases "falling f")
    case True
    then have "position_y ?f1 = jadd (position_y f) (velocity_y f)"
      "velocity_y ?f1 = jadd (velocity_y f) gravity" "height ?f1 = height f"
      using eupdate_vertical[OF u] by simp_all
    then show ?thesis
      using Suc.IH[OF i] True by (simp add: u falling_def)
  next
    case False
    then show ?thesis by (simp add: falling_def)
  qed
qed


section \<open>The sum of n gravities\<close>

lemma fl64_0 [simp]: "fl64 0 = 0"
  by (simp add: fl64_def)

lemma gravity_sum_error:
  fixes n :: nat
  assumes "n \<le> 2 ^ 53"
  shows "0 \<le> ((\<lambda>v. jadd v gravity) ^^ n) 0 \<and>
         \<bar>((\<lambda>v. jadd v gravity) ^^ n) 0 - of_nat n * gravity\<bar> \<le> (of_nat n)\<^sup>2 / 2 ^ 53"
  using assms
proof (induction n)
  case 0
  show ?case by simp
next
  case (Suc n)
  define v where "v = ((\<lambda>v. jadd v gravity) ^^ n) 0"
  define z where "z = v + gravity"
  have n: "n \<le> 2 ^ 53" using Suc.prems by simp
  have ih: "0 \<le> v" "\<bar>v - of_nat n * gravity\<bar> \<le> (of_nat n)\<^sup>2 / 2 ^ 53"
    using Suc.IH[OF n] by (simp_all add: v_def)
  have g: "1 / 2 \<le> gravity" "gravity \<le> 1" by (simp_all add: gravity_value)
  have zg: "1 / 2 \<le> z" using ih(1) g(1) by (simp add: z_def)
  have "(2::rat) powi (- 1022) \<le> 2 powi (- 1)"
    by (intro power_int_increasing) simp_all
  then have "2 powi (- 1022) \<le> \<bar>z\<bar>" using zg by simp
  then have "\<bar>fl64 z - z\<bar> \<le> \<bar>z\<bar> / 2 ^ 53" by (rule fl64_rel_error)
  then have err: "\<bar>fl64 z - z\<bar> \<le> z / 2 ^ 53" using zg by simp
  have nn: "(of_nat n :: rat) * of_nat n \<le> of_nat n * 2 ^ 53"
  proof -
    have "(of_nat n :: rat) \<le> of_nat (2 ^ 53)" using n by (simp only: of_nat_le_iff)
    then show ?thesis by (intro mult_left_mono) simp_all
  qed
  have "v \<le> of_nat n * gravity + (of_nat n)\<^sup>2 / 2 ^ 53" using ih(2) by linarith
  also have "\<dots> \<le> of_nat n * 1 + of_nat n"
    using g(2) nn by (intro add_mono mult_left_mono) (simp_all add: power2_eq_square field_simps)
  finally have "z \<le> 2 * of_nat n + 1" using g(2) by (simp add: z_def)
  then have zb: "z / 2 ^ 53 \<le> (2 * of_nat n + 1) / 2 ^ 53" by (simp add: divide_right_mono)
  have step: "((\<lambda>v. jadd v gravity) ^^ Suc n) 0 = fl64 z"
    by (simp add: v_def z_def jadd_def)
  have pos: "0 \<le> fl64 z"
  proof -
    have "z / 2 ^ 53 \<le> z" using zg by (simp add: field_simps)
    then show ?thesis using err zg by linarith
  qed
  have "\<bar>fl64 z - of_nat (Suc n) * gravity\<bar> \<le> \<bar>fl64 z - z\<bar> + \<bar>v - of_nat n * gravity\<bar>"
    by (simp add: z_def algebra_simps)
  also have "\<dots> \<le> (2 * of_nat n + 1) / 2 ^ 53 + (of_nat n)\<^sup>2 / 2 ^ 53"
    using err zb ih(2) by linarith
  also have "\<dots> = (of_nat (Suc n))\<^sup>2 / 2 ^ 53"
    by (simp add: power2_eq_square field_simps)
  finally have "\<bar>fl64 z - of_nat (Suc n) * gravity\<bar> \<le> (of_nat (Suc n))\<^sup>2 / 2 ^ 53" .
  with pos show ?case unfolding step by blast
qed

lemma gravity_sum_close:
  fixes n :: nat
  assumes "n \<le> 2 ^ 53"
  shows "\<bar>((\<lambda>v. jadd v gravity) ^^ n) 0 - 7 / 10 * of_nat n\<bar> \<le> (of_nat n)\<^sup>2 / 2 ^ 53 + of_nat n / (5 * 2 ^ 52)"
proof -
  have "\<bar>of_nat n * gravity - 7 / 10 * of_nat n\<bar> = of_nat n / (5 * 2 ^ 52)"
    by (simp add: gravity_value abs_if field_simps)
  then show ?thesis
    using gravity_sum_error[OF assms] by linarith
qed

text \<open>
  Eight ticks of free fall from height 0 at rest, rounding by rounding: the velocity ends
  one unit in the last place above the product of the gravity constant and 8, which is
  also the double nearest to 5.6.
\<close>

lemma fall_round_1: "fl64 (7 / 10) = 3152519739159347 / 4503599627370496"
  using fl64_eval_small [where q = "7 / 10" and m = 53 and k = 6305039478318694] by simp

lemma fall_round_2: "fl64 (150) = 150"
  using fl64_eval_small [where q = "150" and m = 45 and k = 5277655813324800] by simp

lemma fall_round_3: "fl64 (3152519739159347 / 4503599627370496) = 3152519739159347 / 4503599627370496"
  using fl64_eval_small [where q = "3152519739159347 / 4503599627370496" and m = 53 and k = 6305039478318694] by simp

lemma fall_round_4: "fl64 (678692463844733747 / 4503599627370496) = 2651142436893491 / 17592186044416"
  using fl64_eval_small [where q = "678692463844733747 / 4503599627370496" and m = 45 and k = 5302284873786982] by simp

lemma fall_round_5: "fl64 (3152519739159347 / 2251799813685248) = 3152519739159347 / 2251799813685248"
  using fl64_eval_small [where q = "3152519739159347 / 2251799813685248" and m = 52 and k = 6305039478318694] by simp

lemma fall_round_6: "fl64 (9457559217478041 / 4503599627370496) = 1182194902184755 / 562949953421312"
  using fl64_eval_tie [where q = "9457559217478041 / 4503599627370496" and m = 51 and k = 4728779608739020] by simp

lemma fall_round_7: "fl64 (85624687915381555 / 562949953421312) = 5351542994711347 / 35184372088832"
  using fl64_eval_small [where q = "85624687915381555 / 562949953421312" and m = 45 and k = 5351542994711347] by simp

lemma fall_round_8: "fl64 (1182194902184755 / 281474976710656) = 1182194902184755 / 281474976710656"
  using fl64_eval_small [where q = "1182194902184755 / 281474976710656" and m = 50 and k = 4728779608739020] by simp

lemma fall_round_9: "fl64 (43403441408783155 / 281474976710656) = 2712715088048947 / 17592186044416"
  using fl64_eval_small [where q = "43403441408783155 / 281474976710656" and m = 45 and k = 5425430176097894] by simp

lemma fall_round_10: "fl64 (12610078956637387 / 4503599627370496) = 3152519739159347 / 1125899906842624"
  using fl64_eval_tie [where q = "12610078956637387 / 4503599627370496" and m = 51 and k = 6305039478318693] by simp

lemma fall_round_11: "fl64 (7881299347898367 / 1125899906842624) = 7881299347898367 / 1125899906842624"
  using fl64_eval_small [where q = "7881299347898367 / 1125899906842624" and m = 50 and k = 7881299347898367] by simp

lemma fall_round_12: "fl64 (176766285374291967 / 1125899906842624) = 157"
  using fl64_eval_small [where q = "176766285374291967 / 1125899906842624" and m = 45 and k = 5523946417946624] by simp

lemma fall_round_13: "fl64 (15762598695796735 / 4503599627370496) = 7 / 2"
  using fl64_eval_tie [where q = "15762598695796735 / 4503599627370496" and m = 51 and k = 7881299347898367] by simp

lemma fall_round_14: "fl64 (11821949021847551 / 1125899906842624) = 21 / 2"
  using fl64_eval_tie [where q = "11821949021847551 / 1125899906842624" and m = 49 and k = 5910974510923775] by simp

lemma fall_round_15: "fl64 (321 / 2) = 321 / 2"
  using fl64_eval_small [where q = "321 / 2" and m = 45 and k = 5647091720257536] by simp

lemma fall_round_16: "fl64 (18915118434956083 / 4503599627370496) = 4728779608739021 / 1125899906842624"
  using fl64_eval_small [where q = "18915118434956083 / 4503599627370496" and m = 50 and k = 4728779608739021] by simp

lemma fall_round_17: "fl64 (16550728630586573 / 1125899906842624) = 4137682157646643 / 281474976710656"
  using fl64_eval_tie [where q = "16550728630586573 / 1125899906842624" and m = 49 and k = 8275364315293286] by simp

lemma fall_round_18: "fl64 (46358928664245043 / 281474976710656) = 2897433041515315 / 17592186044416"
  using fl64_eval_small [where q = "46358928664245043 / 281474976710656" and m = 45 and k = 5794866083030630] by simp

lemma fall_round_19: "fl64 (22067638174115431 / 4503599627370496) = 2758454771764429 / 562949953421312"
  using fl64_eval_small [where q = "22067638174115431 / 4503599627370496" and m = 50 and k = 5516909543528858] by simp

lemma fall_round_20: "fl64 (11033819087057715 / 562949953421312) = 2758454771764429 / 140737488355328"
  using fl64_eval_tie [where q = "11033819087057715 / 562949953421312" and m = 48 and k = 5516909543528857] by simp

lemma fall_round_21: "fl64 (23869078025063629 / 140737488355328) = 5967269506265907 / 35184372088832"
  using fl64_eval_small [where q = "23869078025063629 / 140737488355328" and m = 45 and k = 5967269506265907] by simp

lemma fall_round_22: "fl64 (25220157913274779 / 4503599627370496) = 6305039478318695 / 1125899906842624"
  using fl64_eval_small [where q = "25220157913274779 / 4503599627370496" and m = 50 and k = 6305039478318695] by simp

lemma fall_round_23: "fl64 (3152519739159347 / 562949953421312) = 3152519739159347 / 562949953421312"
  using fl64_eval_small [where q = "3152519739159347 / 562949953421312" and m = 50 and k = 6305039478318694] by simp

lemma fall_round_24: "fl64 (28 / 5) = 3152519739159347 / 562949953421312"
  using fl64_eval_small [where q = "28 / 5" and m = 50 and k = 6305039478318694] by simp

lemmas fall_rounds =
  fall_round_1 fall_round_2 fall_round_3 fall_round_4 fall_round_5 fall_round_6
  fall_round_7 fall_round_8 fall_round_9 fall_round_10 fall_round_11 fall_round_12
  fall_round_13 fall_round_14 fall_round_15 fall_round_16 fall_round_17 fall_round_18
  fall_round_19 fall_round_20 fall_round_21 fall_round_22 fall_round_23 fall_round_24

lemma fall8:
  "free_fall 8 150 (0, 0) =
     Some (2758454771764429 / 140737488355328, 6305039478318695 / 1125899906842624)"
  by (simp add: eval_nat_numeral jadd_def canvas_height_def gravity_value fall_rounds)

lemma product8: "jmul gravity 8 = 6305039478318694 / 1125899906842624"
  by (simp add: jmul_def gravity_value fall_rounds)

lemma eight_ticks:
  "airborne_for 8 ((player all_loaded)\<lparr>position_y := 0\<rparr>)"
  "velocity_y (projr (updates 8 ((player all_loaded)\<lparr>position_y := 0\<rparr>))) =
     6305039478318695 / 1125899906842624"
  "eairborne_for 8 ((eplayer all_loaded)\<lparr>position_y := 0\<rparr>)"
  "velocity_y (projr (eupdates 8 ((eplayer all_loaded)\<lparr>position_y := 0\<rparr>))) =
     6305039478318695 / 1125899906842624"
proof -
  let ?f = "(player all_loaded)\<lparr>position_y := 0\<rparr>"
  let ?e = "(eplayer all_loaded)\<lparr>position_y := 0\<rparr>"
  have "free_fall 8 (height ?f) (position_y ?f, velocity_y ?f) =
       (if airborne_for 8 ?f
        then Some (position_y (projr (updates 8 ?f)), velocity_y (projr (updates 8 ?f)))
        else None)"
    by (rule airborne_free_fall) simp_all
  then have f: "Some (2758454771764429 / 140737488355328, 6305039478318695 / 1125899906842624) =
       (if airborne_for 8 ?f
        then Some (position_y (projr (updates 8 ?f)), velocity_y (projr (updates 8 ?f)))
        else None)"
    by (simp add: fall8)
  show "airborne_for 8 ?f" using f by (simp split: if_splits)
  show "velocity_y (projr (updates 8 ?f)) = 6305039478318695 / 1125899906842624"
    using f by (simp split: if_splits)
  have "free_fall 8 (height ?e) (position_y ?e, velocity_y ?e) =
       (if eairborne_for 8 ?e
        then Some (position_y (projr (eupdates 8 ?e)), velocity_y (projr (eupdates 8 ?e)))
        else None)"
    by (rule eairborne_free_fall) simp_all
  then have e: "Some (2758454771764429 / 140737488355328, 6305039478318695 / 1125899906842624) =
       (if eairborne_for 8 ?e
        then Some (position_y (projr (eupdates 8 ?e)), velocity_y (projr (eupdates 8 ?e)))
        else None)"
    by (simp add: fall8)
  show "eairborne_for 8 ?e" using e by (simp split: if_splits)
  show "velocity_y (projr (eupdates 8 ?e)) = 6305039478318695 / 1125899906842624"
    using e by (simp split: if_splits)
qed


section \<open>The invariant of a match\<close>

lemma in_bounds_setAnimation [simp]: "in_bounds (setAnimation k f) = in_bounds f"
  by (simp add: in_bounds_def)

lemma physics_position_x:
  "position_x (physics f) =
     (let x1 = jadd (position_x f) (velocity_x f);
          x2 = (if x1 < 0 then 0 else x1)
      in if canvas_width < jadd x2 (width f) then jsub canvas_width (width f) else x2)"
  by (simp add: physics_defs Let_def split: property.splits)

lemma in_bounds_position_x:
  assumes "in_bounds f"
  shows "position_x (physics f) \<in> \<int>" "0 \<le> position_x (physics f)" "position_x (physics f) \<le> 974"
proof -
  from assms have i: "position_x f \<in> \<int>" "velocity_x f \<in> \<int>"
    and b: "0 \<le> position_x f" "position_x f \<le> 974" "\<bar>velocity_x f\<bar> \<le> 12" and w: "width f = 50"
    by (simp_all add: in_bounds_def)
  have 1: "jadd (position_x f) (velocity_x f) = position_x f + velocity_x f"
    using i b by (intro jadd_Ints) simp_all
  define x2 where "x2 = (if position_x f + velocity_x f < 0 then 0 else position_x f + velocity_x f)"
  have x2: "x2 \<in> \<int>" "0 \<le> x2" "x2 \<le> 986"
    using i b by (auto simp: x2_def)
  have 2: "jadd x2 50 = x2 + 50"
    using x2 by (intro jadd_Ints) simp_all
  have 3: "jsub canvas_width 50 = 974"
    by (simp add: canvas_width_def jsub_Ints)
  have px: "position_x (physics f) = (if 1024 < x2 + 50 then 974 else x2)"
    unfolding physics_position_x Let_def 1 w x2_def[symmetric] 2 3 by (simp add: canvas_width_def)
  show "position_x (physics f) \<in> \<int>" "0 \<le> position_x (physics f)" "position_x (physics f) \<le> 974"
    using x2 by (auto simp: px)
qed

lemma in_bounds_physics: "in_bounds f \<Longrightarrow> in_bounds (physics f)"
  using in_bounds_position_x[of f] by (simp add: in_bounds_def)

lemma in_bounds_cooldown: "in_bounds f \<Longrightarrow> in_bounds (cooldown f)"
  by (simp add: in_bounds_def)

lemma in_bounds_cooldowns: "in_bounds f \<Longrightarrow> in_bounds (cooldowns f)"
  by (simp add: in_bounds_def)

lemma in_bounds_dodge: "in_bounds f \<Longrightarrow> in_bounds (dodge f)"
  by (simp add: in_bounds_def dodge_def Let_def)

lemma in_bounds_update: "in_bounds f \<Longrightarrow> update f = Inr f' \<Longrightarrow> in_bounds f'"
  by (auto dest!: update_Inr intro: in_bounds_cooldown in_bounds_physics)

lemma dodge_more [simp]: "dodgeSpeed (dodge f) = dodgeSpeed f"
  by (simp add: dodge_def Let_def setAnimation_def)

lemma cooldowns_more [simp]: "dodgeSpeed (cooldowns f) = dodgeSpeed f"
  by (simp add: cooldowns_def Let_def)

lemma physics_dodgeSpeed [simp]: "dodgeSpeed (physics f) = dodgeSpeed f"
  by (simp add: physics_defs Let_def split: property.splits)

lemma ein_bounds_eupdate: "ein_bounds f \<Longrightarrow> eupdate f = Inr f' \<Longrightarrow> ein_bounds f'"
  by (auto dest!: eupdate_Inr simp: ein_bounds_def intro: in_bounds_dodge in_bounds_cooldowns in_bounds_physics)

lemma in_bounds_move_by_keys: "in_bounds f \<Longrightarrow> in_bounds (move_by_keys l r f)"
  by (simp add: move_by_keys_def in_bounds_def)

lemma in_bounds_jump_key: "in_bounds f \<Longrightarrow> in_bounds (jump_key f)"
  by (simp add: jump_key_def in_bounds_def)

lemma in_bounds_take_damage: "in_bounds t \<Longrightarrow> 0 \<le> d \<Longrightarrow> in_bounds (take_damage d t)"
  by (simp add: take_damage_eq in_bounds_def)

lemma attack_gated: "\<not> attackCooldown a \<le> 0 \<Longrightarrow> attack a t = (a, t)"
  by (simp add: attack_def)

lemma in_bounds_attack:
  assumes "in_bounds a" "in_bounds t"
  shows "in_bounds (fst (attack a t))" "in_bounds (snd (attack a t))"
proof -
  have d: "0 \<le> attackDamage a" using assms(1) by (simp add: in_bounds_def)
  show "in_bounds (fst (attack a t))"
  proof (cases "attackCooldown a \<le> 0")
    case True
    then show ?thesis using assms(1) by (simp add: attack_eligible in_bounds_def)
  next
    case False
    show ?thesis unfolding attack_gated[OF False] using assms(1) by simp
  qed
  show "in_bounds (snd (attack a t))"
  proof (cases "attackCooldown a \<le> 0")
    case True
    then show ?thesis using assms(2) d by (simp add: attack_eligible in_bounds_take_damage)
  next
    case False
    show ?thesis unfolding attack_gated[OF False] using assms(2) by simp
  qed
qed

lemma in_bounds_eattack:
  assumes "in_bounds a" "in_bounds t"
  shows "in_bounds (fst (eattack now a t))" "in_bounds (snd (eattack now a t))"
proof -
  have d: "0 \<le> attackDamage a" using assms(1) by (simp add: in_bounds_def)
  show "in_bounds (fst (eattack now a t))"
  proof (cases "attackCooldown a \<le> 0 \<and> \<not> isDodging a")
    case True
    then show ?thesis using assms(1) by (simp add: eattack_eligible in_bounds_def)
  next
    case False
    show ?thesis unfolding eattack_gated[OF False] using assms(1) by simp
  qed
  show "in_bounds (snd (eattack now a t))"
  proof (cases "attackCooldown a \<le> 0 \<and> \<not> isDodging a")
    case True
    then show ?thesis using assms(2) d by (simp add: eattack_eligible in_bounds_take_damage)
  next
    case False
    show ?thesis unfolding eattack_gated[OF False] using assms(2) by simp
  qed
qed


lemma boost_round_1: "fl64 (9 / 5) = 8106479329266893 / 4503599627370496"
  using fl64_eval_small [where q = "9 / 5" and m = 52 and k = "8106479329266893"] by simp

lemma boost_round_2: "fl64 (40532396646334465 / 4503599627370496) = 9"
  using fl64_eval_small [where q = "40532396646334465 / 4503599627370496" and m = 49 and k = "5066549580791808"] by simp

lemma boost_round_3: "fl64 (- (40532396646334465 / 4503599627370496)) = - 9"
  using fl64_eval_small [where q = "- (40532396646334465 / 4503599627370496)" and m = 49 and k = "- 5066549580791808"] by simp

lemma boost:
  "jmul 5 (fl64 (9 / 5)) = 9" "jmul (- 5) (fl64 (9 / 5)) = - 9"
  by (simp_all add: jmul_def boost_round_1 boost_round_2 boost_round_3)

lemma dodgeSpeed_keeps [simp]:
  "dodgeSpeed (setAnimation k f) = dodgeSpeed f"
  "dodgeSpeed (ensure_animation k f) = dodgeSpeed f"
  "dodgeSpeed (take_damage d f) = dodgeSpeed f"
  by (simp_all add: setAnimation_def ensure_animation_def take_damage_def Let_def split: option.splits)

lemma dodgeSpeed_eattack [simp]:
  "dodgeSpeed (fst (eattack now a t)) = dodgeSpeed a"
  "dodgeSpeed (snd (eattack now a t)) = dodgeSpeed t"
proof -
  show "dodgeSpeed (fst (eattack now a t)) = dodgeSpeed a"
  proof (cases "attackCooldown a \<le> 0 \<and> \<not> isDodging a")
    case True
    then show ?thesis by (simp add: eattack_eligible)
  next
    case False
    show ?thesis unfolding eattack_gated[OF False] by simp
  qed
  show "dodgeSpeed (snd (eattack now a t)) = dodgeSpeed t"
  proof (cases "attackCooldown a \<le> 0 \<and> \<not> isDodging a")
    case True
    then show ?thesis by (simp add: eattack_eligible)
  next
    case False
    show ?thesis unfolding eattack_gated[OF False] by simp
  qed
qed

lemma in_bounds_ensure_animation [simp]: "in_bounds (ensure_animation k f) = in_bounds f"
  by (simp add: in_bounds_def)

lemma in_bounds_velocity_x:
  "in_bounds f \<Longrightarrow> v \<in> \<int> \<Longrightarrow> \<bar>v\<bar> \<le> 12 \<Longrightarrow> in_bounds (f\<lparr>velocity_x := v\<rparr>)"
  by (simp add: in_bounds_def)

lemma in_bounds_other_upd [simp]:
  "in_bounds (f\<lparr>velocity_y := vy\<rparr>) = in_bounds f"
  "in_bounds (f\<lparr>lastDirection := d\<rparr>) = in_bounds f"
  "in_bounds (e\<lparr>isDodging := b\<rparr>) = in_bounds e"
  "in_bounds (e\<lparr>dodgeDuration := n\<rparr>) = in_bounds e"
  by (simp_all add: in_bounds_def)

lemma ein_bounds_eattack:
  assumes "ein_bounds a" "ein_bounds t"
  shows "ein_bounds (fst (eattack now a t))" "ein_bounds (snd (eattack now a t))"
  using assms in_bounds_eattack[of a t now] by (simp_all add: ein_bounds_def)

lemma ein_bounds_ai_attack:
  assumes "ein_bounds f" "ein_bounds t" "ai_attack now now' dir (ai, f, t) = (ai', f', t')"
  shows "ein_bounds f'" "ein_bounds t'"
proof -
  define k where "k = ''attack'' @ dir"
  define g where "g = ensure_animation k (setAnimation k f)"
  have g: "ein_bounds g" using assms(1) by (simp add: g_def ein_bounds_def)
  note r = ein_bounds_eattack[OF g assms(2), of now']
  have "(ai', f', t') = ai_attack now now' dir (ai, f, t)" using assms(3) by simp
  then have "f' = (fst (eattack now' g t))\<lparr>velocity_x :=
              (if 0 < jsub (jadd (position_x (snd (eattack now' g t)))
                               (jmul (velocity_x (snd (eattack now' g t))) (fl64 (7 / 10))))
                        (position_x (fst (eattack now' g t)))
               then 3 else - 3)\<rparr> \<and> t' = snd (eattack now' g t)"
    unfolding ai_attack_eq Let_def k_def[symmetric] g_def[symmetric] by (simp only: prod.inject)
  then have f': "f' = (fst (eattack now' g t))\<lparr>velocity_x :=
              (if 0 < jsub (jadd (position_x (snd (eattack now' g t)))
                               (jmul (velocity_x (snd (eattack now' g t))) (fl64 (7 / 10))))
                        (position_x (fst (eattack now' g t)))
               then 3 else - 3)\<rparr>"
    and t': "t' = snd (eattack now' g t)"
    by blast+
  show "ein_bounds t'" using r(2) by (simp add: t')
  show "ein_bounds f'" using r(1) unfolding f' by (simp add: ein_bounds_def in_bounds_velocity_x)
qed

lemma ein_bounds_ai_move:
  assumes "ein_bounds f" "ein_bounds t" "ai_move now r dir dx adx (ai, f, t) = (ai', f', t')"
  shows "ein_bounds f'" "ein_bounds t'"
proof -
  show "ein_bounds t'" using assms(2,3) by (auto simp: ai_move_def Let_def split_beta)
  have "in_bounds f' \<and> dodgeSpeed f' = 12"
    using assms(1,3)
    by (auto simp: ai_move_def Let_def split_beta ein_bounds_def boost in_bounds_velocity_x
        intro!: in_bounds_velocity_x split: if_splits)
  then show "ein_bounds f'" by (simp add: ein_bounds_def)
qed


lemma ai_update_cases:
  "ai_update now now' r1 r2 (ai, f, t) = (ai, f, t) \<or>
   (\<exists>dir. ai_update now now' r1 r2 (ai, f, t) = ai_attack now now' dir (ai, f, t)) \<or>
   (\<exists>dir dx adx. ai_update now now' r1 r2 (ai, f, t) = ai_move now r2 dir dx adx (ai, f, t))"
proof (cases "now < nextActionTime ai")
  case True
  then show ?thesis by (simp add: ai_update_def)
next
  case False
  define dx where "dx = jsub (position_x t) (position_x f)"
  define dy where "dy = jsub (position_y t) (position_y f)"
  define dir where "dir = (if 0 < dx then ''right'' else ''left'')"
  have "ai_update now now' r1 r2 (ai, f, t) =
      (if (\<bar>dx\<bar> < 150 \<and> \<bar>dy\<bar> < 100) \<or> (\<bar>dx\<bar> < 200 \<and> r1 < fl64 (3 / 10))
       then ai_attack now now' dir (ai, f, t) else ai_move now r2 dir dx \<bar>dx\<bar> (ai, f, t))"
    using False by (simp add: ai_update_def Let_def dx_def dy_def dir_def)
  then show ?thesis by (metis (full_types))
qed

lemma ein_bounds_ai_update:
  assumes "ein_bounds f" "ein_bounds t" "ai_update now now' r1 r2 (ai, f, t) = (ai', f', t')"
  shows "ein_bounds f'" "ein_bounds t'"
proof -
  have "ein_bounds f' \<and> ein_bounds t'"
    using ai_update_cases[of now now' r1 r2 ai f t]
  proof (elim disjE exE)
    assume "ai_update now now' r1 r2 (ai, f, t) = (ai, f, t)"
    then show ?thesis using assms by simp
  next
    fix dir
    assume "ai_update now now' r1 r2 (ai, f, t) = ai_attack now now' dir (ai, f, t)"
    then show ?thesis using assms ein_bounds_ai_attack[of f t now now' dir ai ai' f' t'] by simp
  next
    fix dir dx adx
    assume "ai_update now now' r1 r2 (ai, f, t) = ai_move now r2 dir dx adx (ai, f, t)"
    then show ?thesis using assms ein_bounds_ai_move[of f t now r2 dir dx adx ai ai' f' t'] by simp
  qed
  then show "ein_bounds f'" "ein_bounds t'" by simp_all
qed

lemma ein_bounds_dodge_key: "ein_bounds f \<Longrightarrow> ein_bounds (dodge_key f)"
  by (simp add: dodge_key_def ein_bounds_def in_bounds_def)

lemma in_bounds_idle_if_still: "in_bounds f \<Longrightarrow> in_bounds (idle_if_still f)"
  by (simp add: idle_if_still_def)

lemma dodgeSpeed_glue [simp]:
  "dodgeSpeed (idle_if_still f) = dodgeSpeed f"
  "dodgeSpeed (move_by_keys l r f) = dodgeSpeed f"
  "dodgeSpeed (jump_key f) = dodgeSpeed f"
  by (simp_all add: idle_if_still_def move_by_keys_def jump_key_def)

lemma ein_bounds_simple:
  "ein_bounds f \<Longrightarrow> ein_bounds (idle_if_still f)"
  "ein_bounds f \<Longrightarrow> ein_bounds (move_by_keys l r f)"
  "ein_bounds f \<Longrightarrow> ein_bounds (jump_key f)"
  by (simp_all add: ein_bounds_def in_bounds_idle_if_still in_bounds_move_by_keys in_bounds_jump_key)

lemma ein_bounds_eattack_key:
  assumes "ein_bounds a" "ein_bounds t" "eattack_key now a t = (a', t')"
  shows "ein_bounds a'" "ein_bounds t'"
proof -
  have "ein_bounds a' \<and> ein_bounds t'"
  proof (cases "isDodging a")
    case True
    then show ?thesis using assms by (simp add: eattack_key_def)
  next
    case False
    then have "a' = setAnimation (attackAnimKey (fst (eattack now a t))) (fst (eattack now a t))"
      "t' = snd (eattack now a t)"
      using assms(3) by (auto simp: eattack_key_def split_beta)
    then show ?thesis using ein_bounds_eattack[OF assms(1,2), of now] by (simp add: ein_bounds_def)
  qed
  then show "ein_bounds a'" "ein_bounds t'" by simp_all
qed

lemma in_bounds_attack_key:
  assumes "in_bounds a" "in_bounds t" "attack_key a t = (a', t')"
  shows "in_bounds a'" "in_bounds t'"
proof -
  have "a' = setAnimation (attackAnimKey (fst (attack a t))) (fst (attack a t))"
      "t' = snd (attack a t)"
      using assms(3) by (auto simp: attack_key_def split_beta)
  then show "in_bounds a'" "in_bounds t'"
    using in_bounds_attack[OF assms(1,2)] by simp_all
qed

lemma in_bounds_start:
  "in_bounds (player i)" "in_bounds (enemy i)"
  by (simp_all add: in_bounds_def)

lemma ein_bounds_start:
  "ein_bounds (fst (resetGame (eplayer i, eenemy i)))" "ein_bounds (snd (resetGame (eplayer i, eenemy i)))"
  by (simp_all add: resetGame_def ein_bounds_def in_bounds_def eplayer_def eenemy_def EFighter_def
      canvas_width_def jsub_Ints)

lemma reach_in_bounds: "reach s \<Longrightarrow> in_bounds (fst s) \<and> in_bounds (snd s)"
proof (induction rule: reach.induct)
  case (start loadedImages)
  show ?case by (simp add: in_bounds_start)
next
  case (update_player p e p')
  then show ?case by (auto intro: in_bounds_update)
next
  case (update_enemy p e e')
  then show ?case by (auto intro: in_bounds_update)
next
  case (move_player p e left right)
  then show ?case by (simp add: in_bounds_move_by_keys)
next
  case (move_enemy p e left right)
  then show ?case by (simp add: in_bounds_move_by_keys)
next
  case (jump_player p e)
  then show ?case by (simp add: in_bounds_jump_key)
next
  case (jump_enemy p e)
  then show ?case by (simp add: in_bounds_jump_key)
next
  case (attack_player p e p' e')
  then show ?case using in_bounds_attack_key[of p e p' e'] by simp
next
  case (attack_enemy p e e' p')
  then show ?case using in_bounds_attack_key[of e p e' p'] by simp
qed

lemma ereach_in_bounds: "ereach s \<Longrightarrow> ein_bounds (fst s) \<and> ein_bounds (snd s)"
proof (induction rule: ereach.induct)
  case (estart loadedImages)
  show ?case by (simp add: ein_bounds_start)
next
  case (eupdate_player p e p')
  then show ?case by (auto intro: ein_bounds_eupdate)
next
  case (eupdate_enemy p e e')
  then show ?case by (auto intro: ein_bounds_eupdate)
next
  case (emove_player p e left right)
  then show ?case by (simp add: ein_bounds_simple)
next
  case (ai_enemy p e now now' r1 r2 ai ai' e' p')
  then show ?case using ein_bounds_ai_update[of e p now now' r1 r2 ai ai' e' p'] by simp
next
  case (idle_enemy p e)
  then show ?case by (simp add: ein_bounds_simple)
next
  case (ejump_player p e)
  then show ?case by (simp add: ein_bounds_simple)
next
  case (eattack_player p e now p' e')
  then show ?case using ein_bounds_eattack_key[of p e now p' e'] by simp
next
  case (dodge_player p e)
  then show ?case by (simp add: ein_bounds_dodge_key)
qed


lemma fl64_less_int:
  assumes "fl64 z < of_int k" "0 < k" "k < 2 ^ 53"
  shows "z < of_int k"
  using fl64_ge_int[of k z] assms by (cases "of_int k \<le> z") simp_all

lemma position_y_bound:
  assumes "height f = 150"
  shows "position_y (physics f) + 150 \<le> 576"
proof (cases "falling f")
  case True
  then have "fl64 (jadd (position_y f) (velocity_y f) + 150) < of_int 576"
    using assms by (simp add: falling_def jadd_def canvas_height_def)
  then have "jadd (position_y f) (velocity_y f) + 150 < of_int 576"
    by (rule fl64_less_int) simp_all
  then show ?thesis using True by (simp add: physics_vertical)
next
  case False
  then show ?thesis using assms by (simp add: physics_vertical canvas_height_def jsub_Ints)
qed

lemma in_bounds_on_screen:
  assumes "in_bounds f"
  shows "on_screen (physics f)" "health_ok (physics f)" "health_ok f"
proof -
  from assms have h: "height f = 150" "width f = 50" by (simp_all add: in_bounds_def)
  show "on_screen (physics f)"
    using in_bounds_position_x[OF assms] position_y_bound[OF h(1)] h
    by (simp add: on_screen_def canvas_width_def canvas_height_def)
  show "health_ok (physics f)" "health_ok f"
    using assms by (simp_all add: health_ok_def in_bounds_def)
qed

lemma on_screen_after [simp]:
  "on_screen (cooldown g) = on_screen g" "on_screen (cooldowns e) = on_screen e"
  "on_screen (dodge e) = on_screen e"
  "health_ok (cooldown g) = health_ok g" "health_ok (cooldowns e) = health_ok e"
  "health_ok (dodge e) = health_ok e"
  by (simp_all add: on_screen_def health_ok_def)

lemma in_bounds_after_update:
  "in_bounds f \<Longrightarrow> update f = Inr f' \<Longrightarrow> on_screen f' \<and> health_ok f'"
  "in_bounds e \<Longrightarrow> eupdate e = Inr e' \<Longrightarrow> on_screen e' \<and> health_ok e'"
  by (auto dest!: update_Inr eupdate_Inr simp: in_bounds_on_screen)

lemma in_bounds_health_ok: "in_bounds f \<Longrightarrow> health_ok f"
  by (simp add: in_bounds_def health_ok_def)

lemma has_idle_frames_resetGame [simp]:
  "has_idle_frames (fst (resetGame (p, e))) = has_idle_frames p"
  "has_idle_frames (snd (resetGame (p, e))) = has_idle_frames e"
  by (simp_all add: resetGame_def has_idle_frames_def)

lemma not_inherited_resetGame [simp]:
  "\<not> inherited (fst (resetGame (p, e)))" "\<not> inherited (snd (resetGame (p, e)))"
  by (simp_all add: resetGame_def)

lemma in_bounds_on_pixels: "in_bounds a \<Longrightarrow> in_bounds t \<Longrightarrow> on_pixels a t"
  by (simp add: in_bounds_def on_pixels_def)


section \<open>Attacks on cooldown\<close>

text \<open>
  C3. An attacker whose \<open>attackCooldown\<close> is positive, or in the enhanced variant one that
  is dodging, changes nothing by \<open>attack\<close>: the attacker and the target come back as they
  were, so the target's health and the attacker's \<open>isAttacking\<close>, \<open>attackCooldown\<close>,
  \<open>comboCount\<close> and \<open>lastAttackTime\<close> are all unchanged.
\<close>

theorem attack_gated_noop:
  "(0 < attackCooldown a \<longrightarrow> attack a t = (a, t)) \<and>
   (0 < attackCooldown b \<or> isDodging b \<longrightarrow> eattack now b u = (b, u))"
  by (auto simp: attack_def eattack_def)

theorem attack_gated_noop_witness:
  "0 < attackCooldown ((player all_loaded)\<lparr>attackCooldown := 7\<rparr>) \<and>
   attack ((player all_loaded)\<lparr>attackCooldown := 7\<rparr>) (enemy all_loaded) =
     ((player all_loaded)\<lparr>attackCooldown := 7\<rparr>, enemy all_loaded) \<and>
   (0 < attackCooldown ((eplayer all_loaded)\<lparr>isDodging := True\<rparr>) \<or>
    isDodging ((eplayer all_loaded)\<lparr>isDodging := True\<rparr>)) \<and>
   eattack 1000 ((eplayer all_loaded)\<lparr>isDodging := True\<rparr>) (eenemy all_loaded) =
     ((eplayer all_loaded)\<lparr>isDodging := True\<rparr>, eenemy all_loaded)"
  using attack_gated_noop [of "(player all_loaded)\<lparr>attackCooldown := 7\<rparr>" "enemy all_loaded"
      "(eplayer all_loaded)\<lparr>isDodging := True\<rparr>" 1000 "eenemy all_loaded"]
  by (simp add: player_def Fighter_def)


section \<open>Frame conditions\<close>

text \<open>
  C10. No \<open>update\<close> changes the health of its fighter, in either variant, and neither
  does \<open>setAnimation\<close>, the one other method that changes a fighter. \<open>attack\<close>
  returns the attacker with at most \<open>isAttacking\<close> and \<open>attackCooldown\<close> changed (and,
  in the enhanced variant, \<open>comboCount\<close> and \<open>lastAttackTime\<close>), and the target with at most
  its health changed: the positions and velocities of both, and every other field, are
  as before.
\<close>

theorem frame_conditions:
  "(update f = Inr f' \<longrightarrow> health f' = health f) \<and>
   (eupdate g = Inr g' \<longrightarrow> health g' = health g) \<and>
   health (setAnimation k h) = health h \<and>
   attack a t = (a\<lparr>isAttacking := isAttacking (fst (attack a t)),
                   attackCooldown := attackCooldown (fst (attack a t))\<rparr>,
                 t\<lparr>health := health (snd (attack a t))\<rparr>) \<and>
   eattack now b u = (b\<lparr>isAttacking := isAttacking (fst (eattack now b u)),
                       attackCooldown := attackCooldown (fst (eattack now b u)),
                       comboCount := comboCount (fst (eattack now b u)),
                       lastAttackTime := lastAttackTime (fst (eattack now b u))\<rparr>,
                     u\<lparr>health := health (snd (eattack now b u))\<rparr>)"
proof (intro conjI impI)
  assume "update f = Inr f'"
  then show "health f' = health f" by (auto dest: update_Inr)
next
  assume "eupdate g = Inr g'"
  then show "health g' = health g" by (auto dest: eupdate_Inr)
next
  show "health (setAnimation k h) = health h" by simp
next
  show "attack a t = (a\<lparr>isAttacking := isAttacking (fst (attack a t)),
                   attackCooldown := attackCooldown (fst (attack a t))\<rparr>,
                 t\<lparr>health := health (snd (attack a t))\<rparr>)"
  proof (cases "attackCooldown a \<le> 0")
    case True
    then show ?thesis by (simp add: attack_eligible take_damage_eq)
  next
    case False
    then show ?thesis by (simp add: attack_def)
  qed
next
  show "eattack now b u = (b\<lparr>isAttacking := isAttacking (fst (eattack now b u)),
                       attackCooldown := attackCooldown (fst (eattack now b u)),
                       comboCount := comboCount (fst (eattack now b u)),
                       lastAttackTime := lastAttackTime (fst (eattack now b u))\<rparr>,
                     u\<lparr>health := health (snd (eattack now b u))\<rparr>)"
  proof (cases "attackCooldown b \<le> 0 \<and> \<not> isDodging b")
    case True
    then show ?thesis by (simp add: eattack_eligible take_damage_eq)
  next
    case False
    show ?thesis unfolding eattack_gated[OF False] by simp
  qed
qed

theorem frame_conditions_witness:
  "update (player all_loaded) = Inr (cooldown (physics (player all_loaded))) \<and>
   health (cooldown (physics (player all_loaded))) = health (player all_loaded) \<and>
   eupdate (eplayer all_loaded) = Inr (dodge (cooldowns (physics (eplayer all_loaded)))) \<and>
   health (dodge (cooldowns (physics (eplayer all_loaded)))) = health (eplayer all_loaded)"
  using frame_conditions [of "player all_loaded" "cooldown (physics (player all_loaded))"
      "eplayer all_loaded" "dodge (cooldowns (physics (eplayer all_loaded)))"]
  by (simp add: update_total eupdate_total)


section \<open>The target's dodge is never read\<close>

text \<open>
  C8. In the enhanced variant the outcome of \<open>attack\<close> does not depend on the target's
  \<open>isDodging\<close>: setting that flag on the target changes nothing but the flag itself in
  the result. So when the attacker is off cooldown and not dodging and the hitbox overlaps
  the target, the target's health drops by \<open>attackDamage\<close>, clamped at 0, also while the
  target is in the middle of a dodge.
\<close>

theorem eattack_blind_to_target_dodge:
  "eattack now a (t\<lparr>isDodging := d\<rparr>) =
     (fst (eattack now a t), (snd (eattack now a t))\<lparr>isDodging := d\<rparr>) \<and>
   (attackCooldown a \<le> 0 \<and> \<not> isDodging a \<and> attack_hits 120 a t \<longrightarrow>
      health (snd (eattack now a t)) = max 0 (health t - attackDamage a) \<and>
      health (snd (eattack now a (t\<lparr>isDodging := True\<rparr>))) = max 0 (health t - attackDamage a))"
proof (cases "attackCooldown a \<le> 0 \<and> \<not> isDodging a")
  case True
  then show ?thesis by (simp add: eattack_eligible take_damage_eq)
next
  case False
  show ?thesis unfolding eattack_gated[OF False] using False by auto
qed

theorem eattack_blind_to_target_dodge_witness:
  "attackCooldown (eplayer all_loaded) \<le> 0 \<and> \<not> isDodging (eplayer all_loaded) \<and>
   attack_hits 120 (eplayer all_loaded) ((eenemy all_loaded)\<lparr>position_x := 200\<rparr>) \<and>
   health (snd (eattack 1000 (eplayer all_loaded)
     ((eenemy all_loaded)\<lparr>position_x := 200, isDodging := True\<rparr>))) = 185"
  using eattack_blind_to_target_dodge [where now = 1000 and a = "eplayer all_loaded"
      and t = "(eenemy all_loaded)\<lparr>position_x := 200\<rparr>" and d = True]
  by (simp add: attack_hits_def jadd_Ints)


section \<open>The combo counter\<close>

text \<open>
  C4. In the enhanced variant an attack by a fighter that is off cooldown and not dodging
  sets \<open>comboCount\<close> to \<open>(comboCount + 1) mod 3\<close> if less than 500 ms have passed since
  \<open>lastAttackTime\<close> and \<open>canCombo\<close> is set, and to 0 otherwise; then \<open>attackCooldown\<close>
  becomes \<open>30 - 5 * comboCount\<close> and \<open>lastAttackTime\<close> the present time. Hence a
  fighter that attacks three times, 100 ms apart, the first time not within an open combo
  window (as a new fighter does) and each further time after as many calls of \<open>update\<close>
  as its cooldown counts (which run the cooldown down and set \<open>canCombo\<close>), goes through
  the combo counts 0, 1, 2 and the cooldowns 30, 25, 20.
\<close>

theorem combo_rule:
  "(attackCooldown a \<le> 0 \<and> \<not> isDodging a \<longrightarrow>
      comboCount (fst (eattack now a t)) =
        (if now - lastAttackTime a < 500 \<and> canCombo a then (comboCount a + 1) mod 3 else 0) \<and>
      attackCooldown (fst (eattack now a t)) = 30 - 5 * int (comboCount (fst (eattack now a t))) \<and>
      lastAttackTime (fst (eattack now a t)) = now) \<and>
   (attackCooldown a0 \<le> 0 \<and> \<not> isDodging a0 \<and>
    \<not> (now - lastAttackTime a0 < 500 \<and> canCombo a0) \<and>
    a1 = fst (eattack now a0 t1) \<and>
    eupdates 30 a1 = Inr b1 \<and>
    a2 = fst (eattack (now + 100) b1 t2) \<and>
    eupdates 25 a2 = Inr b2 \<and>
    a3 = fst (eattack (now + 200) b2 t3) \<longrightarrow>
      map (\<lambda>x. (comboCount x, attackCooldown x)) [a1, a2, a3] = [(0, 30), (1, 25), (2, 20)])"
proof (rule conjI)
  show "attackCooldown a \<le> 0 \<and> \<not> isDodging a \<longrightarrow>
      comboCount (fst (eattack now a t)) =
        (if now - lastAttackTime a < 500 \<and> canCombo a then (comboCount a + 1) mod 3 else 0) \<and>
      attackCooldown (fst (eattack now a t)) = 30 - 5 * int (comboCount (fst (eattack now a t))) \<and>
      lastAttackTime (fst (eattack now a t)) = now"
    by (simp add: eattack_eligible)
next
  have "map (\<lambda>x. (comboCount x, attackCooldown x)) [a1, a2, a3] = [(0, 30), (1, 25), (2, 20)]"
    if h: "attackCooldown a0 \<le> 0 \<and> \<not> isDodging a0 \<and>
    \<not> (now - lastAttackTime a0 < 500 \<and> canCombo a0) \<and>
    a1 = fst (eattack now a0 t1) \<and>
    eupdates 30 a1 = Inr b1 \<and>
    a2 = fst (eattack (now + 100) b1 t2) \<and>
    eupdates 25 a2 = Inr b2 \<and>
    a3 = fst (eattack (now + 200) b2 t3)"
  proof -
    from h have el: "attackCooldown a0 \<le> 0" "\<not> isDodging a0"
      and fresh: "\<not> (now - lastAttackTime a0 < 500 \<and> canCombo a0)"
      and e1: "a1 = fst (eattack now a0 t1)"
      and u1: "eupdates 30 a1 = Inr b1"
      and e2: "a2 = fst (eattack (now + 100) b1 t2)"
      and u2: "eupdates 25 a2 = Inr b2"
      and e3: "a3 = fst (eattack (now + 200) b2 t3)"
      by blast+
    have a1: "comboCount a1 = 0" "attackCooldown a1 = 30" "lastAttackTime a1 = now"
      "isAttacking a1" "\<not> isDodging a1"
      unfolding e1 using el fresh by (auto simp add: eattack_eligible)
    have b1: "attackCooldown b1 = 0 \<and> canCombo b1 \<and> \<not> isAttacking b1 \<and> \<not> isDodging b1 \<and>
         comboCount b1 = comboCount a1 \<and> lastAttackTime b1 = lastAttackTime a1"
      using eupdates_expire[OF u1 a1(5) a1(4)] a1(2) by simp
    have a2: "comboCount a2 = 1" "attackCooldown a2 = 25" "lastAttackTime a2 = now + 100"
      "isAttacking a2" "\<not> isDodging a2"
      unfolding e2 using b1 a1 by (simp_all add: eattack_eligible)
    have b2: "attackCooldown b2 = 0 \<and> canCombo b2 \<and> \<not> isAttacking b2 \<and> \<not> isDodging b2 \<and>
         comboCount b2 = comboCount a2 \<and> lastAttackTime b2 = lastAttackTime a2"
      using eupdates_expire[OF u2 a2(5) a2(4)] a2(2) by simp
    have a3: "comboCount a3 = 2" "attackCooldown a3 = 20"
      unfolding e3 using b2 a2 by (simp_all add: eattack_eligible)
    show ?thesis
      using a1 a2 a3 by simp
  qed
  then show "attackCooldown a0 \<le> 0 \<and> \<not> isDodging a0 \<and>
    \<not> (now - lastAttackTime a0 < 500 \<and> canCombo a0) \<and>
    a1 = fst (eattack now a0 t1) \<and>
    eupdates 30 a1 = Inr b1 \<and>
    a2 = fst (eattack (now + 100) b1 t2) \<and>
    eupdates 25 a2 = Inr b2 \<and>
    a3 = fst (eattack (now + 200) b2 t3) \<longrightarrow>
      map (\<lambda>x. (comboCount x, attackCooldown x)) [a1, a2, a3] = [(0, 30), (1, 25), (2, 20)]"
    by (rule impI)
qed

theorem combo_rule_witness:
  "let a0 = eplayer all_loaded; t = eenemy all_loaded;
       a1 = fst (eattack 1000 a0 t); b1 = projr (eupdates 30 a1);
       a2 = fst (eattack 1100 b1 t); b2 = projr (eupdates 25 a2);
       a3 = fst (eattack 1200 b2 t)
   in attackCooldown a0 \<le> 0 \<and> \<not> isDodging a0 \<and>
      \<not> (1000 - lastAttackTime a0 < 500 \<and> canCombo a0) \<and>
      comboCount a1 = 0 \<and> attackCooldown a1 = 30 \<and> lastAttackTime a1 = 1000 \<and>
      eupdates 30 a1 = Inr b1 \<and> eupdates 25 a2 = Inr b2 \<and>
      map (\<lambda>x. (comboCount x, attackCooldown x)) [a1, a2, a3] = [(0, 30), (1, 25), (2, 20)]"
proof -
  define a0 where "a0 = eplayer all_loaded"
  define t where "t = eenemy all_loaded"
  define a1 where "a1 = fst (eattack 1000 a0 t)"
  define b1 where "b1 = projr (eupdates 30 a1)"
  define a2 where "a2 = fst (eattack 1100 b1 t)"
  define b2 where "b2 = projr (eupdates 25 a2)"
  define a3 where "a3 = fst (eattack 1200 b2 t)"
  have i1: "has_idle_frames a1" by (simp add: a1_def a0_def)
  have n1: "\<not> inherited a1" by (simp add: a1_def a0_def)
  have u1: "eupdates 30 a1 = Inr b1" and ib1: "has_idle_frames b1" and nb1: "\<not> inherited b1"
    unfolding b1_def using eupdates_projr[OF i1 n1] by simp_all
  have i2: "has_idle_frames a2" and n2: "\<not> inherited a2" using ib1 nb1 by (simp_all add: a2_def)
  have u2: "eupdates 25 a2 = Inr b2"
    unfolding b2_def using eupdates_projr[OF i2 n2] by simp
  have el: "attackCooldown a0 \<le> 0 \<and> \<not> isDodging a0 \<and>
      \<not> (1000 - lastAttackTime a0 < 500 \<and> canCombo a0)"
    by (simp add: a0_def)
  have "comboCount a1 = 0 \<and> attackCooldown a1 = 30 \<and> lastAttackTime a1 = 1000 \<and>
      map (\<lambda>x. (comboCount x, attackCooldown x)) [a1, a2, a3] = [(0, 30), (1, 25), (2, 20)]"
    using combo_rule [where a = a0 and now = 1000 and t = t and ?a0.0 = a0 and ?a1.0 = a1
        and ?t1.0 = t and ?b1.0 = b1 and ?a2.0 = a2 and ?t2.0 = t and ?b2.0 = b2 and ?a3.0 = a3
        and ?t3.0 = t]
      el u1 u2
    by (simp add: a1_def a2_def a3_def)
  then show ?thesis
    using el u1 u2 unfolding Let_def a0_def t_def a1_def b1_def a2_def b2_def a3_def by blast
qed


section \<open>When isAttacking is cleared\<close>

text \<open>
  C5 says that both variants clear \<open>isAttacking\<close> in the tick in which \<open>attackCooldown\<close>
  reaches 0. In \<open>game5.js\<close> the clearing is the \<open>else\<close> branch of the decrement: the
  player with a cooldown of 1 comes out of \<open>update\<close> with a cooldown of 0 and still
  attacking.
\<close>

theorem isAttacking_same_tick_counterexample:
  "update ((player all_loaded)\<lparr>isAttacking := True, attackCooldown := 1\<rparr>) =
     Inr (cooldown (physics ((player all_loaded)\<lparr>isAttacking := True, attackCooldown := 1\<rparr>))) \<and>
   attackCooldown (cooldown (physics ((player all_loaded)\<lparr>isAttacking := True, attackCooldown := 1\<rparr>))) = 0 \<and>
   isAttacking (cooldown (physics ((player all_loaded)\<lparr>isAttacking := True, attackCooldown := 1\<rparr>)))"
  by (simp add: update_total cooldown_fields)

text \<open>
  C5, amended. In the enhanced variant an \<open>update\<close> that starts with \<open>isAttacking\<close> set and
  a cooldown of at most 1 ends with the cooldown at 0 or below, \<open>isAttacking\<close> cleared and
  \<open>canCombo\<close> set: the flag is cleared in the tick in which the cooldown reaches 0. In
  \<open>game5.js\<close> an \<open>update\<close> that starts with a positive cooldown decrements it and leaves
  \<open>isAttacking\<close> set, and one that starts with a cooldown of 0 or below clears
  \<open>isAttacking\<close>: the flag is cleared one tick after the cooldown has reached 0.
\<close>

theorem isAttacking_cleared:
  "(eupdate e = Inr e' \<and> isAttacking e \<and> attackCooldown e \<le> 1 \<longrightarrow>
      attackCooldown e' \<le> 0 \<and> \<not> isAttacking e' \<and> canCombo e') \<and>
   (update f = Inr f' \<and> isAttacking f \<and> 0 < attackCooldown f \<longrightarrow>
      attackCooldown f' = attackCooldown f - 1 \<and> isAttacking f') \<and>
   (update f = Inr f' \<and> isAttacking f \<and> attackCooldown f \<le> 0 \<longrightarrow>
      attackCooldown f' = attackCooldown f \<and> \<not> isAttacking f')"
proof (intro conjI)
  show "eupdate e = Inr e' \<and> isAttacking e \<and> attackCooldown e \<le> 1 \<longrightarrow>
      attackCooldown e' \<le> 0 \<and> \<not> isAttacking e' \<and> canCombo e'"
    by (auto dest!: eupdate_Inr simp: cooldowns_fields)
  show "update f = Inr f' \<and> isAttacking f \<and> 0 < attackCooldown f \<longrightarrow>
      attackCooldown f' = attackCooldown f - 1 \<and> isAttacking f'"
    by (auto dest!: update_Inr simp: cooldown_fields)
  show "update f = Inr f' \<and> isAttacking f \<and> attackCooldown f \<le> 0 \<longrightarrow>
      attackCooldown f' = attackCooldown f \<and> \<not> isAttacking f'"
    by (auto dest!: update_Inr simp: cooldown_fields)
qed

theorem isAttacking_cleared_witness:
  "eupdate ((eplayer all_loaded)\<lparr>isAttacking := True, attackCooldown := 1\<rparr>) =
     Inr (dodge (cooldowns (physics ((eplayer all_loaded)\<lparr>isAttacking := True, attackCooldown := 1\<rparr>)))) \<and>
   attackCooldown (dodge (cooldowns (physics ((eplayer all_loaded)\<lparr>isAttacking := True, attackCooldown := 1\<rparr>)))) \<le> 0 \<and>
   \<not> isAttacking (dodge (cooldowns (physics ((eplayer all_loaded)\<lparr>isAttacking := True, attackCooldown := 1\<rparr>)))) \<and>
   canCombo (dodge (cooldowns (physics ((eplayer all_loaded)\<lparr>isAttacking := True, attackCooldown := 1\<rparr>)))) \<and>
   update ((player all_loaded)\<lparr>isAttacking := True, attackCooldown := 2\<rparr>) =
     Inr (cooldown (physics ((player all_loaded)\<lparr>isAttacking := True, attackCooldown := 2\<rparr>))) \<and>
   attackCooldown (cooldown (physics ((player all_loaded)\<lparr>isAttacking := True, attackCooldown := 2\<rparr>))) = 1 \<and>
   isAttacking (cooldown (physics ((player all_loaded)\<lparr>isAttacking := True, attackCooldown := 2\<rparr>))) \<and>
   update ((player all_loaded)\<lparr>isAttacking := True, attackCooldown := 0\<rparr>) =
     Inr (cooldown (physics ((player all_loaded)\<lparr>isAttacking := True, attackCooldown := 0\<rparr>))) \<and>
   attackCooldown (cooldown (physics ((player all_loaded)\<lparr>isAttacking := True, attackCooldown := 0\<rparr>))) = 0 \<and>
   \<not> isAttacking (cooldown (physics ((player all_loaded)\<lparr>isAttacking := True, attackCooldown := 0\<rparr>)))"
  using isAttacking_cleared [where e = "(eplayer all_loaded)\<lparr>isAttacking := True, attackCooldown := 1\<rparr>"
      and e' = "dodge (cooldowns (physics ((eplayer all_loaded)\<lparr>isAttacking := True, attackCooldown := 1\<rparr>)))"
      and f = "(player all_loaded)\<lparr>isAttacking := True, attackCooldown := 2\<rparr>"
      and f' = "cooldown (physics ((player all_loaded)\<lparr>isAttacking := True, attackCooldown := 2\<rparr>))"]
    isAttacking_cleared [where e = "(eplayer all_loaded)\<lparr>isAttacking := True, attackCooldown := 1\<rparr>"
      and e' = "dodge (cooldowns (physics ((eplayer all_loaded)\<lparr>isAttacking := True, attackCooldown := 1\<rparr>)))"
      and f = "(player all_loaded)\<lparr>isAttacking := True, attackCooldown := 0\<rparr>"
      and f' = "cooldown (physics ((player all_loaded)\<lparr>isAttacking := True, attackCooldown := 0\<rparr>))"]
  by (simp add: update_total eupdate_total)


section \<open>The range of an attack\<close>

text \<open>
  C1 says that two fighters exactly \<open>attackRange\<close> apart register a hit. The hit test
  compares with \<open>>\<close>, so they do not: the player of \<open>game5.js\<close> at 100, 50 wide and
  facing right, does not touch an enemy at 250, which is 100 from its right edge, and in
  the enhanced variant, with a range of 120, it does not touch an enemy at 270. Both
  enemies stand on the same ground as the player and keep their full health.
\<close>

theorem attack_at_range_counterexample:
  "attackCooldown (player all_loaded) \<le> 0 \<and>
   overlap_y (player all_loaded) ((enemy all_loaded)\<lparr>position_x := 250\<rparr>) \<and>
   edge_gap (player all_loaded) ((enemy all_loaded)\<lparr>position_x := 250\<rparr>) = 100 \<and>
   attackDamage (player all_loaded) = 10 \<and>
   health ((enemy all_loaded)\<lparr>position_x := 250\<rparr>) = 100 \<and>
   health (snd (attack (player all_loaded) ((enemy all_loaded)\<lparr>position_x := 250\<rparr>))) = 100 \<and>
   attackCooldown (eplayer all_loaded) \<le> 0 \<and> \<not> isDodging (eplayer all_loaded) \<and>
   overlap_y (eplayer all_loaded) ((eenemy all_loaded)\<lparr>position_x := 270\<rparr>) \<and>
   edge_gap (eplayer all_loaded) ((eenemy all_loaded)\<lparr>position_x := 270\<rparr>) = 120 \<and>
   attackDamage (eplayer all_loaded) = 15 \<and>
   health ((eenemy all_loaded)\<lparr>position_x := 270\<rparr>) = 200 \<and>
   health (snd (eattack 1000 (eplayer all_loaded) ((eenemy all_loaded)\<lparr>position_x := 270\<rparr>))) = 200"
  by (simp add: overlap_y_def edge_gap_def jadd_Ints attack_eligible eattack_eligible attack_hits_def)

text \<open>
  C1, amended. Take an attacker that is off cooldown (and, in the enhanced variant, not
  dodging) and a target that overlaps it vertically, the horizontal positions and the
  widths of both being whole numbers of pixels (whose magnitudes add up to less than
  \<open>2 ^ 52\<close>). The attack registers a hit, and takes \<open>attackDamage\<close> off the target's
  health down to 0 at most, exactly when the target's near edge is less than
  \<open>attackRange\<close> (100, or 120 in the enhanced variant) away from the attacker's facing edge
  and the target is not wholly behind that edge. At \<open>attackRange - 1\<close> it hits; at
  \<open>attackRange\<close> and at \<open>attackRange + 1\<close> the health is unchanged. The two fighters of
  a match are on whole pixels in every state that the match can reach.
\<close>

theorem attack_range:
  "(attackCooldown a \<le> 0 \<and> overlap_y a t \<and> on_pixels a t \<longrightarrow>
      health (snd (attack a t)) =
        (if - width t < edge_gap a t \<and> edge_gap a t < 100 then max 0 (health t - attackDamage a)
         else health t)) \<and>
   (attackCooldown b \<le> 0 \<and> \<not> isDodging b \<and> overlap_y b u \<and> on_pixels b u \<longrightarrow>
      health (snd (eattack now b u)) =
        (if - width u < edge_gap b u \<and> edge_gap b u < 120 then max 0 (health u - attackDamage b)
         else health u)) \<and>
   (reach (p, e) \<longrightarrow> on_pixels p e \<and> on_pixels e p) \<and>
   (ereach (q, d) \<longrightarrow> on_pixels q d \<and> on_pixels d q)"
proof (intro conjI)
  show "attackCooldown a \<le> 0 \<and> overlap_y a t \<and> on_pixels a t \<longrightarrow>
      health (snd (attack a t)) =
        (if - width t < edge_gap a t \<and> edge_gap a t < 100 then max 0 (health t - attackDamage a)
         else health t)"
    using attack_hits_pixels[of a t 100] by (simp add: attack_eligible take_damage_eq)
  show "attackCooldown b \<le> 0 \<and> \<not> isDodging b \<and> overlap_y b u \<and> on_pixels b u \<longrightarrow>
      health (snd (eattack now b u)) =
        (if - width u < edge_gap b u \<and> edge_gap b u < 120 then max 0 (health u - attackDamage b)
         else health u)"
    using attack_hits_pixels[of b u 120] by (simp add: eattack_eligible take_damage_eq)
  show "reach (p, e) \<longrightarrow> on_pixels p e \<and> on_pixels e p"
    using reach_in_bounds[of "(p, e)"] by (simp add: in_bounds_on_pixels)
  show "ereach (q, d) \<longrightarrow> on_pixels q d \<and> on_pixels d q"
    using ereach_in_bounds[of "(q, d)"] by (simp add: ein_bounds_def in_bounds_on_pixels)
qed

theorem attack_range_witness:
  "attackCooldown (player all_loaded) \<le> 0 \<and>
   overlap_y (player all_loaded) ((enemy all_loaded)\<lparr>position_x := 249\<rparr>) \<and>
   on_pixels (player all_loaded) ((enemy all_loaded)\<lparr>position_x := 249\<rparr>) \<and>
   edge_gap (player all_loaded) ((enemy all_loaded)\<lparr>position_x := 249\<rparr>) = 99 \<and>
   health (snd (attack (player all_loaded) ((enemy all_loaded)\<lparr>position_x := 249\<rparr>))) = 90 \<and>
   edge_gap (player all_loaded) ((enemy all_loaded)\<lparr>position_x := 251\<rparr>) = 101 \<and>
   health (snd (attack (player all_loaded) ((enemy all_loaded)\<lparr>position_x := 251\<rparr>))) = 100 \<and>
   attackCooldown (eplayer all_loaded) \<le> 0 \<and> \<not> isDodging (eplayer all_loaded) \<and>
   overlap_y (eplayer all_loaded) ((eenemy all_loaded)\<lparr>position_x := 269\<rparr>) \<and>
   on_pixels (eplayer all_loaded) ((eenemy all_loaded)\<lparr>position_x := 269\<rparr>) \<and>
   edge_gap (eplayer all_loaded) ((eenemy all_loaded)\<lparr>position_x := 269\<rparr>) = 119 \<and>
   health (snd (eattack 1000 (eplayer all_loaded) ((eenemy all_loaded)\<lparr>position_x := 269\<rparr>))) = 185 \<and>
   edge_gap (eplayer all_loaded) ((eenemy all_loaded)\<lparr>position_x := 271\<rparr>) = 121 \<and>
   health (snd (eattack 1000 (eplayer all_loaded) ((eenemy all_loaded)\<lparr>position_x := 271\<rparr>))) = 200 \<and>
   reach (player all_loaded, enemy all_loaded) \<and>
   on_pixels (player all_loaded) (enemy all_loaded) \<and>
   ereach (fst (resetGame (eplayer all_loaded, eenemy all_loaded)),
           snd (resetGame (eplayer all_loaded, eenemy all_loaded))) \<and>
   on_pixels (fst (resetGame (eplayer all_loaded, eenemy all_loaded)))
     (snd (resetGame (eplayer all_loaded, eenemy all_loaded)))"
proof -
  let ?q = "fst (resetGame (eplayer all_loaded, eenemy all_loaded))"
  let ?d = "snd (resetGame (eplayer all_loaded, eenemy all_loaded))"
  have r: "reach (player all_loaded, enemy all_loaded)" by (rule reach.start)
  have "ereach (resetGame (eplayer all_loaded, eenemy all_loaded))" by (rule ereach.estart)
  then have er: "ereach (?q, ?d)" by simp
  have h: "attackCooldown (player all_loaded) \<le> 0"
    "overlap_y (player all_loaded) ((enemy all_loaded)\<lparr>position_x := 249\<rparr>)"
    "on_pixels (player all_loaded) ((enemy all_loaded)\<lparr>position_x := 249\<rparr>)"
    "edge_gap (player all_loaded) ((enemy all_loaded)\<lparr>position_x := 249\<rparr>) = 99"
    "overlap_y (player all_loaded) ((enemy all_loaded)\<lparr>position_x := 251\<rparr>)"
    "on_pixels (player all_loaded) ((enemy all_loaded)\<lparr>position_x := 251\<rparr>)"
    "edge_gap (player all_loaded) ((enemy all_loaded)\<lparr>position_x := 251\<rparr>) = 101"
    "attackCooldown (eplayer all_loaded) \<le> 0" "\<not> isDodging (eplayer all_loaded)"
    "overlap_y (eplayer all_loaded) ((eenemy all_loaded)\<lparr>position_x := 269\<rparr>)"
    "on_pixels (eplayer all_loaded) ((eenemy all_loaded)\<lparr>position_x := 269\<rparr>)"
    "edge_gap (eplayer all_loaded) ((eenemy all_loaded)\<lparr>position_x := 269\<rparr>) = 119"
    "overlap_y (eplayer all_loaded) ((eenemy all_loaded)\<lparr>position_x := 271\<rparr>)"
    "on_pixels (eplayer all_loaded) ((eenemy all_loaded)\<lparr>position_x := 271\<rparr>)"
    "edge_gap (eplayer all_loaded) ((eenemy all_loaded)\<lparr>position_x := 271\<rparr>) = 121"
    by (simp_all add: overlap_y_def on_pixels_def edge_gap_def jadd_Ints)
  note near = attack_range [where a = "player all_loaded" and t = "(enemy all_loaded)\<lparr>position_x := 249\<rparr>"
      and b = "eplayer all_loaded" and u = "(eenemy all_loaded)\<lparr>position_x := 269\<rparr>" and now = 1000
      and p = "player all_loaded" and e = "enemy all_loaded" and q = ?q and d = ?d]
  note far = attack_range [where a = "player all_loaded" and t = "(enemy all_loaded)\<lparr>position_x := 251\<rparr>"
      and b = "eplayer all_loaded" and u = "(eenemy all_loaded)\<lparr>position_x := 271\<rparr>" and now = 1000
      and p = "player all_loaded" and e = "enemy all_loaded" and q = ?q and d = ?d]
  have 1: "health (snd (attack (player all_loaded) ((enemy all_loaded)\<lparr>position_x := 249\<rparr>))) = 90"
    "health (snd (eattack 1000 (eplayer all_loaded) ((eenemy all_loaded)\<lparr>position_x := 269\<rparr>))) = 185"
    using near h by simp_all
  have 2: "health (snd (attack (player all_loaded) ((enemy all_loaded)\<lparr>position_x := 251\<rparr>))) = 100"
    "health (snd (eattack 1000 (eplayer all_loaded) ((eenemy all_loaded)\<lparr>position_x := 271\<rparr>))) = 200"
    using far h by simp_all
  have 3: "on_pixels (player all_loaded) (enemy all_loaded)" "on_pixels ?q ?d"
    using near r er by blast+
  show ?thesis
    using h 1 2 3 r er by blast
qed


section \<open>Missing animations and frames\<close>

text \<open>
  C7 says that \<open>draw\<close> and \<open>update\<close> never fault for a fighter whose two idle animations
  have at least one frame each. The player whose right idle image failed to load has one
  frame in each idle animation, the right one \<open>undefined\<close>. As constructed it shows the
  right idle animation at frame 0 and faces right: its current frame is missing, the
  fallback finds no image either, and \<open>draw\<close> and \<open>update\<close> throw, in both variants. And
  a player with every image loaded whose current animation is \<open>toString\<close>, of which the
  table has no entry, finds the function of that name, and \<open>draw\<close> and \<open>update\<close> throw.
\<close>

theorem idle_frame_undefined_counterexample:
  "animations (player (all_loaded(''eren_idleRight'' := None))) ''idleRight'' =
     Some \<lparr>frames = [None], frameDuration = None\<rparr> \<and>
   animations (player (all_loaded(''eren_idleRight'' := None))) ''idleLeft'' =
     Some \<lparr>frames = [Some \<lparr>img_width = 64, img_height = 64\<rparr>], frameDuration = None\<rparr> \<and>
   currentAnimation (player (all_loaded(''eren_idleRight'' := None))) = ''idleRight'' \<and>
   currentFrame (player (all_loaded(''eren_idleRight'' := None))) = Some 0 \<and>
   lastDirection (player (all_loaded(''eren_idleRight'' := None))) = ''right'' \<and>
   draw (player (all_loaded(''eren_idleRight'' := None))) = Inl TypeError \<and>
   update (player (all_loaded(''eren_idleRight'' := None))) = Inl TypeError \<and>
   draw (eplayer (all_loaded(''eren_idleRight'' := None))) = Inl TypeError \<and>
   eupdate (eplayer (all_loaded(''eren_idleRight'' := None))) = Inl TypeError \<and>
   has_idle_frames ((player all_loaded)\<lparr>currentAnimation := ''toString''\<rparr>) \<and>
   animations ((player all_loaded)\<lparr>currentAnimation := ''toString''\<rparr>) ''toString'' = None \<and>
   draw ((player all_loaded)\<lparr>currentAnimation := ''toString''\<rparr>) = Inl TypeError \<and>
   update ((player all_loaded)\<lparr>currentAnimation := ''toString''\<rparr>) = Inl TypeError"
proof -
  let ?f = "player (all_loaded(''eren_idleRight'' := None))"
  let ?e = "eplayer (all_loaded(''eren_idleRight'' := None))"
  let ?g = "(player all_loaded)\<lparr>currentAnimation := ''toString''\<rparr>"
  have tab: "animations ?f ''idleRight'' = Some \<lparr>frames = [None], frameDuration = None\<rparr>"
    "animations ?f ''idleLeft'' =
       Some \<lparr>frames = [Some \<lparr>img_width = 64, img_height = 64\<rparr>], frameDuration = None\<rparr>"
    "currentAnimation ?f = ''idleRight''" "currentFrame ?f = Some 0" "lastDirection ?f = ''right''"
    by (simp_all add: player_def Fighter_def animation_table_def all_loaded_def)
  have "frame_missing ?f" "fallbackFrame ?f = None"
    by (simp_all add: frame_missing_def fallbackFrame_def fallbackAnim_def tab frame_at_def)
  then have df: "draw ?f = Inl TypeError"
    by (intro draw_without_idle_image) simp_all
  have "frame_missing ?e" "fallbackFrame ?e = None"
    by (simp_all add: frame_missing_def fallbackFrame_def fallbackAnim_def eplayer_def EFighter_def
        animation_table_def frame_at_def)
  then have de: "draw ?e = Inl TypeError"
    by (intro draw_without_idle_image) simp_all
  have g: "animations ?g ''toString'' = None"
    by (simp add: player_def Fighter_def animation_table_def)
  then have "inherited ?g"
    by (simp add: inherited_def object_prototype_def)
  then have dg: "draw ?g = Inl TypeError" by (rule draw_inherited)
  have ig: "has_idle_frames ?g"
    using has_idle_frames_match(1) by (simp add: has_idle_frames_def)
  show ?thesis
    using tab df de dg g ig by (simp add: update_def eupdate_def)
qed

text \<open>
  C7, amended. Take a fighter whose two idle animations each have an image as frame 0,
  and whose current animation is an entry of its table or else no property of
  \<open>Object.prototype\<close>. When its current animation is missing, or has no image at the
  current frame, \<open>draw\<close> draws frame 0 of \<open>idleRight\<close> if the fighter last faced right
  and of \<open>idleLeft\<close> otherwise; \<open>draw\<close> never fails, and the advance of the frame in
  \<open>update\<close> does not throw. An animation with an empty frame list is such a case, and
  there the advance sets the frame to \<open>NaN\<close> on the ticks where it advances and
  otherwise leaves it. \<open>update\<close> does not fail in either variant, and keeps not failing
  for any number of ticks. The controller's attack on a fighter without the attack
  animation of its direction leaves exactly such a fighter: the current animation is the
  placeholder with no frames, and the idle frames are still there.
\<close>

theorem missing_frames_never_fault:
  "(has_idle_frames f \<and> \<not> inherited f \<and> frame_missing f \<longrightarrow>
      (\<exists>fb img. animations f (if lastDirection f = ''right'' then ''idleRight'' else ''idleLeft'') = Some fb \<and>
         frames fb \<noteq> [] \<and> frames fb ! 0 = Some img \<and>
         draw f = Inr (drawImage img f) \<and> dc_image (drawImage img f) = img)) \<and>
   (has_idle_frames f \<and> \<not> inherited f \<longrightarrow> (\<exists>c. draw f = Inr c) \<and> \<not> advance_faults f) \<and>
   (animations f (currentAnimation f) = Some an \<and> frames an = [] \<longrightarrow>
      frame_missing f \<and> \<not> inherited f \<and>
      currentFrame (advance_frames f) =
        (if frame_duration an f \<noteq> 0 \<and> (framesElapsed f + 1) mod frame_duration an f = 0
         then None else currentFrame f)) \<and>
   (has_idle_frames g \<and> \<not> inherited g \<longrightarrow>
      (\<exists>g'. update g = Inr g' \<and> has_idle_frames g' \<and> \<not> inherited g') \<and>
      (\<exists>g'. updates n g = Inr g')) \<and>
   (has_idle_frames e \<and> \<not> inherited e \<longrightarrow>
      (\<exists>e'. eupdate e = Inr e' \<and> has_idle_frames e' \<and> \<not> inherited e') \<and>
      (\<exists>e'. eupdates n e = Inr e')) \<and>
   (has_idle_frames e \<and> animations e (''attack'' @ dir) = None \<and>
    e1 = fst (snd (ai_attack now now' dir (ai, e, p))) \<longrightarrow>
      animations e1 (currentAnimation e1) = Some \<lparr>frames = [], frameDuration = Some 5\<rparr> \<and>
      frame_missing e1 \<and> \<not> inherited e1 \<and> has_idle_frames e1)"
proof (intro conjI)
  show "has_idle_frames f \<and> \<not> inherited f \<and> frame_missing f \<longrightarrow>
      (\<exists>fb img. animations f (if lastDirection f = ''right'' then ''idleRight'' else ''idleLeft'') = Some fb \<and>
         frames fb \<noteq> [] \<and> frames fb ! 0 = Some img \<and>
         draw f = Inr (drawImage img f) \<and> dc_image (drawImage img f) = img)"
    using draw_frame_missing[of f] by (simp add: drawImage_def)
  show "has_idle_frames f \<and> \<not> inherited f \<longrightarrow> (\<exists>c. draw f = Inr c) \<and> \<not> advance_faults f"
    using draw_total[of f] advance_faults_inherited[of f] by blast
  show "animations f (currentAnimation f) = Some an \<and> frames an = [] \<longrightarrow>
      frame_missing f \<and> \<not> inherited f \<and>
      currentFrame (advance_frames f) =
        (if frame_duration an f \<noteq> 0 \<and> (framesElapsed f + 1) mod frame_duration an f = 0
         then None else currentFrame f)"
    using frame_missing_empty[of f an] advance_frames_empty[of f an] by (simp add: inherited_def)
  show "has_idle_frames g \<and> \<not> inherited g \<longrightarrow>
      (\<exists>g'. update g = Inr g' \<and> has_idle_frames g' \<and> \<not> inherited g') \<and>
      (\<exists>g'. updates n g = Inr g')"
    using updates_total[of g n] by (auto simp: update_total)
  show "has_idle_frames e \<and> \<not> inherited e \<longrightarrow>
      (\<exists>e'. eupdate e = Inr e' \<and> has_idle_frames e' \<and> \<not> inherited e') \<and>
      (\<exists>e'. eupdates n e = Inr e')"
    using eupdates_total[of e n] by (auto simp: eupdate_total)
  show "has_idle_frames e \<and> animations e (''attack'' @ dir) = None \<and>
    e1 = fst (snd (ai_attack now now' dir (ai, e, p))) \<longrightarrow>
      animations e1 (currentAnimation e1) = Some \<lparr>frames = [], frameDuration = Some 5\<rparr> \<and>
      frame_missing e1 \<and> \<not> inherited e1 \<and> has_idle_frames e1"
    using ai_attack_placeholder[of e dir e1 now now' ai p] by blast
qed

theorem missing_frames_never_fault_witness:
  "has_idle_frames ((eenemy (all_loaded(''levi_idleLeft'' := Some \<lparr>img_width = 32, img_height = 48\<rparr>)))\<lparr>lastDirection := ''left''\<rparr>) \<and>
   \<not> inherited ((eenemy (all_loaded(''levi_idleLeft'' := Some \<lparr>img_width = 32, img_height = 48\<rparr>)))\<lparr>lastDirection := ''left''\<rparr>) \<and>
   animations ((eenemy (all_loaded(''levi_idleLeft'' := Some \<lparr>img_width = 32, img_height = 48\<rparr>)))\<lparr>lastDirection := ''left''\<rparr>)
     (''attack'' @ ''left'') = None \<and>
   animations
     (fst (snd (ai_attack 1000 1000 ''left'' (AIController,
        (eenemy (all_loaded(''levi_idleLeft'' := Some \<lparr>img_width = 32, img_height = 48\<rparr>)))\<lparr>lastDirection := ''left''\<rparr>,
        eplayer all_loaded))))
     (currentAnimation
        (fst (snd (ai_attack 1000 1000 ''left'' (AIController,
           (eenemy (all_loaded(''levi_idleLeft'' := Some \<lparr>img_width = 32, img_height = 48\<rparr>)))\<lparr>lastDirection := ''left''\<rparr>,
           eplayer all_loaded)))))
     = Some \<lparr>frames = [], frameDuration = Some 5\<rparr> \<and>
   frame_missing
     (fst (snd (ai_attack 1000 1000 ''left'' (AIController,
        (eenemy (all_loaded(''levi_idleLeft'' := Some \<lparr>img_width = 32, img_height = 48\<rparr>)))\<lparr>lastDirection := ''left''\<rparr>,
        eplayer all_loaded)))) \<and>
   lastDirection
     (fst (snd (ai_attack 1000 1000 ''left'' (AIController,
        (eenemy (all_loaded(''levi_idleLeft'' := Some \<lparr>img_width = 32, img_height = 48\<rparr>)))\<lparr>lastDirection := ''left''\<rparr>,
        eplayer all_loaded)))) = ''left'' \<and>
   draw
     (fst (snd (ai_attack 1000 1000 ''left'' (AIController,
        (eenemy (all_loaded(''levi_idleLeft'' := Some \<lparr>img_width = 32, img_height = 48\<rparr>)))\<lparr>lastDirection := ''left''\<rparr>,
        eplayer all_loaded)))) =
     Inr (drawImage \<lparr>img_width = 32, img_height = 48\<rparr>
       (fst (snd (ai_attack 1000 1000 ''left'' (AIController,
          (eenemy (all_loaded(''levi_idleLeft'' := Some \<lparr>img_width = 32, img_height = 48\<rparr>)))\<lparr>lastDirection := ''left''\<rparr>,
          eplayer all_loaded))))) \<and>
   \<not> advance_faults
     (fst (snd (ai_attack 1000 1000 ''left'' (AIController,
        (eenemy (all_loaded(''levi_idleLeft'' := Some \<lparr>img_width = 32, img_height = 48\<rparr>)))\<lparr>lastDirection := ''left''\<rparr>,
        eplayer all_loaded)))) \<and>
   (\<exists>e'. eupdates 5
     (fst (snd (ai_attack 1000 1000 ''left'' (AIController,
        (eenemy (all_loaded(''levi_idleLeft'' := Some \<lparr>img_width = 32, img_height = 48\<rparr>)))\<lparr>lastDirection := ''left''\<rparr>,
        eplayer all_loaded)))) = Inr e') \<and>
   has_idle_frames ((player (all_loaded(''eren_idleLeft'' := Some \<lparr>img_width = 32, img_height = 48\<rparr>)))\<lparr>currentAnimation := ''attackright''\<rparr>) \<and>
   \<not> inherited ((player (all_loaded(''eren_idleLeft'' := Some \<lparr>img_width = 32, img_height = 48\<rparr>)))\<lparr>currentAnimation := ''attackright''\<rparr>) \<and>
   frame_missing ((player (all_loaded(''eren_idleLeft'' := Some \<lparr>img_width = 32, img_height = 48\<rparr>)))\<lparr>currentAnimation := ''attackright''\<rparr>) \<and>
   draw ((player (all_loaded(''eren_idleLeft'' := Some \<lparr>img_width = 32, img_height = 48\<rparr>)))\<lparr>currentAnimation := ''attackright''\<rparr>) =
     Inr (drawImage \<lparr>img_width = 64, img_height = 64\<rparr>
       ((player (all_loaded(''eren_idleLeft'' := Some \<lparr>img_width = 32, img_height = 48\<rparr>)))\<lparr>currentAnimation := ''attackright''\<rparr>)) \<and>
   (\<exists>g'. updates 5 ((player (all_loaded(''eren_idleLeft'' := Some \<lparr>img_width = 32, img_height = 48\<rparr>)))\<lparr>currentAnimation := ''attackright''\<rparr>) = Inr g')"
proof -
  define small where "small = \<lparr>img_width = 32, img_height = (48::rat)\<rparr>"
  define e where "e = (eenemy (all_loaded(''levi_idleLeft'' := Some small)))\<lparr>lastDirection := ''left''\<rparr>"
  define e1 where "e1 = fst (snd (ai_attack 1000 1000 ''left'' (AIController, e, eplayer all_loaded)))"
  define g where "g = (player (all_loaded(''eren_idleLeft'' := Some small)))\<lparr>currentAnimation := ''attackright''\<rparr>"
  have tab_e: "animations e ''idleLeft'' = Some \<lparr>frames = [Some small], frameDuration = None\<rparr>"
    "animations e ''idleRight'' = Some \<lparr>frames = [Some \<lparr>img_width = 64, img_height = 64\<rparr>], frameDuration = None\<rparr>"
    "animations e (''attack'' @ ''left'') = None" "currentAnimation e = ''idleRight''"
    by (simp_all add: e_def eenemy_def EFighter_def animation_table_def all_loaded_def)
  have ie: "has_idle_frames e" "\<not> inherited e"
    by (simp_all add: has_idle_frames_def inherited_def tab_e frame_at_def)
  have tab_g: "animations g ''idleLeft'' = Some \<lparr>frames = [Some small], frameDuration = None\<rparr>"
    "animations g ''idleRight'' = Some \<lparr>frames = [Some \<lparr>img_width = 64, img_height = 64\<rparr>], frameDuration = None\<rparr>"
    "animations g ''attackright'' = None" "currentAnimation g = ''attackright''"
    "lastDirection g = ''right''"
    by (simp_all add: g_def player_def Fighter_def animation_table_def all_loaded_def)
  have ig: "has_idle_frames g" "\<not> inherited g" "frame_missing g"
    by (simp_all add: has_idle_frames_def inherited_def frame_missing_def tab_g frame_at_def object_prototype_def)
  note th = missing_frames_never_fault [where e = e and dir = "''left''" and ?e1.0 = e1 and now = 1000
      and now' = 1000 and ai = AIController and p = "eplayer all_loaded" and n = 5]
  have 1: "animations e1 (currentAnimation e1) = Some \<lparr>frames = [], frameDuration = Some 5\<rparr> \<and>
      frame_missing e1 \<and> \<not> inherited e1 \<and> has_idle_frames e1"
    using th [where f = e1 and g = g] ie tab_e(3) e1_def by blast
  have l1: "lastDirection e1 = ''left''" "animations e1 ''idleLeft'' = animations e ''idleLeft''"
    unfolding e1_def ai_attack_eq Let_def by (simp_all add: e_def ensure_animation_other)
  have 2: "\<exists>fb img. animations e1 (if lastDirection e1 = ''right'' then ''idleRight'' else ''idleLeft'') = Some fb \<and>
         frames fb \<noteq> [] \<and> frames fb ! 0 = Some img \<and>
         draw e1 = Inr (drawImage img e1) \<and> dc_image (drawImage img e1) = img"
    using th [where f = e1 and g = g] 1 by blast
  then have d1: "draw e1 = Inr (drawImage small e1)"
    by (auto simp: l1 tab_e)
  have 3: "\<not> advance_faults e1" "\<exists>e'. eupdates 5 e1 = Inr e'"
    using missing_frames_never_fault [where f = e1 and e = e1 and n = 5] 1 by blast+
  have 4: "\<exists>fb img. animations g (if lastDirection g = ''right'' then ''idleRight'' else ''idleLeft'') = Some fb \<and>
         frames fb \<noteq> [] \<and> frames fb ! 0 = Some img \<and>
         draw g = Inr (drawImage img g) \<and> dc_image (drawImage img g) = img"
    using th [where f = g and g = g] ig by blast
  then have dg: "draw g = Inr (drawImage \<lparr>img_width = 64, img_height = 64\<rparr> g)"
    by (auto simp: tab_g)
  have 5: "\<exists>g'. updates 5 g = Inr g'"
    using th [where f = g and g = g] ig by blast
  show ?thesis
    using ie tab_e(3) 1 l1(1) d1 3 ig dg 5
    unfolding e1_def e_def g_def small_def by blast
qed


section \<open>The attack decision of the controller\<close>

text \<open>
  C9. When the controller's \<open>update\<close> runs at or after \<open>nextActionTime\<close> with the target
  in close range (less than 150 apart horizontally and less than 100 vertically, both as
  the controller computes them), its result is that of the attack branch, whatever the
  two random draws are: two runs that differ only in the draws end in the same state, and
  the target comes back as \<open>attack\<close> leaves it. Two fighters on the ground (at height
  426) whose horizontal positions are whole pixels 60 apart are in close range.
\<close>

theorem ai_attacks_in_close_range:
  "(nextActionTime ai \<le> now \<and>
    \<bar>jsub (position_x t) (position_x f)\<bar> < 150 \<and> \<bar>jsub (position_y t) (position_y f)\<bar> < 100 \<longrightarrow>
      ai_update now now' r1 r2 (ai, f, t) =
        ai_attack now now' (if 0 < jsub (position_x t) (position_x f) then ''right'' else ''left'') (ai, f, t) \<and>
      ai_update now now' r1 r2 (ai, f, t) = ai_update now now' r1' r2' (ai, f, t) \<and>
      snd (snd (ai_update now now' r1 r2 (ai, f, t))) =
        snd (eattack now'
               (ensure_animation
                  (''attack'' @ (if 0 < jsub (position_x t) (position_x f) then ''right'' else ''left''))
                  (setAnimation
                     (''attack'' @ (if 0 < jsub (position_x t) (position_x f) then ''right'' else ''left''))
                     f))
               t)) \<and>
   (position_x f \<in> \<int> \<and> position_x t \<in> \<int> \<and> \<bar>position_x f\<bar> + \<bar>position_x t\<bar> < 2 ^ 52 \<and>
    \<bar>position_x t - position_x f\<bar> = 60 \<and> position_y f = 426 \<and> position_y t = 426 \<longrightarrow>
      \<bar>jsub (position_x t) (position_x f)\<bar> < 150 \<and> \<bar>jsub (position_y t) (position_y f)\<bar> < 100)"
proof (rule conjI)
  have u: "ai_update now now' q1 q2 (ai, f, t) =
        ai_attack now now' (if 0 < jsub (position_x t) (position_x f) then ''right'' else ''left'') (ai, f, t)"
    if "nextActionTime ai \<le> now \<and>
    \<bar>jsub (position_x t) (position_x f)\<bar> < 150 \<and> \<bar>jsub (position_y t) (position_y f)\<bar> < 100" for q1 q2
    using that by (simp add: ai_update_def Let_def)
  show "nextActionTime ai \<le> now \<and>
    \<bar>jsub (position_x t) (position_x f)\<bar> < 150 \<and> \<bar>jsub (position_y t) (position_y f)\<bar> < 100 \<longrightarrow>
      ai_update now now' r1 r2 (ai, f, t) =
        ai_attack now now' (if 0 < jsub (position_x t) (position_x f) then ''right'' else ''left'') (ai, f, t) \<and>
      ai_update now now' r1 r2 (ai, f, t) = ai_update now now' r1' r2' (ai, f, t) \<and>
      snd (snd (ai_update now now' r1 r2 (ai, f, t))) =
        snd (eattack now'
               (ensure_animation
                  (''attack'' @ (if 0 < jsub (position_x t) (position_x f) then ''right'' else ''left''))
                  (setAnimation
                     (''attack'' @ (if 0 < jsub (position_x t) (position_x f) then ''right'' else ''left''))
                     f))
               t)"
    using u[of r1 r2] u[of r1' r2'] by (simp add: ai_attack_eq Let_def)
next
  show "position_x f \<in> \<int> \<and> position_x t \<in> \<int> \<and> \<bar>position_x f\<bar> + \<bar>position_x t\<bar> < 2 ^ 52 \<and>
    \<bar>position_x t - position_x f\<bar> = 60 \<and> position_y f = 426 \<and> position_y t = 426 \<longrightarrow>
      \<bar>jsub (position_x t) (position_x f)\<bar> < 150 \<and> \<bar>jsub (position_y t) (position_y f)\<bar> < 100"
    by (auto simp: jsub_Ints)
qed

theorem ai_attacks_in_close_range_witness:
  "nextActionTime AIController \<le> 1000 \<and>
   position_x (eenemy all_loaded) \<in> \<int> \<and> position_x ((eplayer all_loaded)\<lparr>position_x := 764\<rparr>) \<in> \<int> \<and>
   \<bar>position_x ((eplayer all_loaded)\<lparr>position_x := 764\<rparr>) - position_x (eenemy all_loaded)\<bar> = 60 \<and>
   position_y (eenemy all_loaded) = 426 \<and> position_y ((eplayer all_loaded)\<lparr>position_x := 764\<rparr>) = 426 \<and>
   \<bar>position_x (eenemy all_loaded)\<bar> + \<bar>position_x ((eplayer all_loaded)\<lparr>position_x := 764\<rparr>)\<bar> < 2 ^ 52 \<and>
   \<bar>jsub (position_x ((eplayer all_loaded)\<lparr>position_x := 764\<rparr>)) (position_x (eenemy all_loaded))\<bar> < 150 \<and>
   \<bar>jsub (position_y ((eplayer all_loaded)\<lparr>position_x := 764\<rparr>)) (position_y (eenemy all_loaded))\<bar> < 100 \<and>
   ai_update 1000 1001 (1 / 2) (3 / 4) (AIController, eenemy all_loaded, (eplayer all_loaded)\<lparr>position_x := 764\<rparr>) =
     ai_attack 1000 1001 ''left'' (AIController, eenemy all_loaded, (eplayer all_loaded)\<lparr>position_x := 764\<rparr>) \<and>
   ai_update 1000 1001 (1 / 2) (3 / 4) (AIController, eenemy all_loaded, (eplayer all_loaded)\<lparr>position_x := 764\<rparr>) =
     ai_update 1000 1001 (1 / 8) 0 (AIController, eenemy all_loaded, (eplayer all_loaded)\<lparr>position_x := 764\<rparr>)"
proof -
  let ?f = "eenemy all_loaded"
  let ?t = "(eplayer all_loaded)\<lparr>position_x := 764\<rparr>"
  have h1: "nextActionTime AIController \<le> 1000"
    by (simp add: AIController_def)
  have simple: "position_x ?f \<in> \<int> \<and> position_x ?t \<in> \<int> \<and>
     \<bar>position_x ?t - position_x ?f\<bar> = 60 \<and> position_y ?f = 426 \<and> position_y ?t = 426 \<and>
     \<bar>position_x ?f\<bar> + \<bar>position_x ?t\<bar> < 2 ^ 52"
    by simp
  note th = ai_attacks_in_close_range [where ai = AIController and now = 1000 and now' = 1001
      and f = ?f and t = ?t and ?r1.0 = "1 / 2" and ?r2.0 = "3 / 4" and r1' = "1 / 8" and r2' = 0]
  have h2: "\<bar>jsub (position_x ?t) (position_x ?f)\<bar> < 150 \<and> \<bar>jsub (position_y ?t) (position_y ?f)\<bar> < 100"
    using th simple by blast
  have h3: "(if 0 < jsub (position_x ?t) (position_x ?f) then ''right'' else ''left'') = ''left''"
    by (simp add: jsub_Ints)
  have "ai_update 1000 1001 (1 / 2) (3 / 4) (AIController, ?f, ?t) =
          ai_attack 1000 1001 (if 0 < jsub (position_x ?t) (position_x ?f) then ''right'' else ''left'')
            (AIController, ?f, ?t) \<and>
        ai_update 1000 1001 (1 / 2) (3 / 4) (AIController, ?f, ?t) =
          ai_update 1000 1001 (1 / 8) 0 (AIController, ?f, ?t)"
    using th h1 h2 by blast
  then have A: "ai_update 1000 1001 (1 / 2) (3 / 4) (AIController, ?f, ?t) =
          ai_attack 1000 1001 ''left'' (AIController, ?f, ?t)"
    and B: "ai_update 1000 1001 (1 / 2) (3 / 4) (AIController, ?f, ?t) =
          ai_update 1000 1001 (1 / 8) 0 (AIController, ?f, ?t)"
    unfolding h3 by blast+
  show ?thesis
    using h1 h2 simple A B by blast
qed


section \<open>Gravity\<close>

text \<open>
  C6 says that the vertical velocity after \<open>n\<close> ticks in the air is exactly \<open>0.7 * n\<close>.
  The velocity is a double and each tick rounds. The player, put at height 0 at rest,
  stays in the air for eight ticks and then has the velocity
  \<open>6305039478318695 / 2 ^ 50\<close>, in both variants. The product of the gravity constant
  and 8 as JavaScript computes it is the double below, \<open>6305039478318694 / 2 ^ 50\<close>, which
  is also the double nearest to 5.6; and no double is the rational \<open>7 / 10 * 8\<close>.
\<close>

theorem gravity_not_exact_counterexample:
  "velocity_y ((player all_loaded)\<lparr>position_y := 0\<rparr>) = 0 \<and>
   airborne_for 8 ((player all_loaded)\<lparr>position_y := 0\<rparr>) \<and>
   velocity_y (projr (updates 8 ((player all_loaded)\<lparr>position_y := 0\<rparr>))) =
     6305039478318695 / 1125899906842624 \<and>
   velocity_y ((eplayer all_loaded)\<lparr>position_y := 0\<rparr>) = 0 \<and>
   eairborne_for 8 ((eplayer all_loaded)\<lparr>position_y := 0\<rparr>) \<and>
   velocity_y (projr (eupdates 8 ((eplayer all_loaded)\<lparr>position_y := 0\<rparr>))) =
     6305039478318695 / 1125899906842624 \<and>
   jmul gravity 8 = 6305039478318694 / 1125899906842624 \<and>
   fl64 (7 / 10 * 8) = 6305039478318694 / 1125899906842624 \<and>
   (6305039478318695 / 1125899906842624 :: rat) \<noteq> 7 / 10 * 8"
  using eight_ticks by (simp add: product8 fall_rounds)

text \<open>
  C6, amended. A fighter that starts with vertical velocity 0 and that each of \<open>n\<close>
  consecutive updates finds above the ground has, after them, the vertical velocity that
  adding the gravity constant \<open>n\<close> times to 0 gives, each sum rounded to a double: no
  update caps it. For \<open>n\<close> up to \<open>2 ^ 53\<close> this velocity is within
  \<open>n\<^sup>2 / 2 ^ 53 + n / (5 * 2 ^ 52)\<close> of \<open>0.7 * n\<close>.
\<close>

theorem gravity_accumulates:
  "(airborne_for n f \<and> velocity_y f = 0 \<longrightarrow>
      (\<exists>f'. updates n f = Inr f' \<and>
         velocity_y f' = ((\<lambda>v. jadd v gravity) ^^ n) 0 \<and>
         (n \<le> 2 ^ 53 \<longrightarrow>
            \<bar>velocity_y f' - 7 / 10 * of_nat n\<bar> \<le> (of_nat n)\<^sup>2 / 2 ^ 53 + of_nat n / (5 * 2 ^ 52)))) \<and>
   (eairborne_for n e \<and> velocity_y e = 0 \<longrightarrow>
      (\<exists>e'. eupdates n e = Inr e' \<and>
         velocity_y e' = ((\<lambda>v. jadd v gravity) ^^ n) 0 \<and>
         (n \<le> 2 ^ 53 \<longrightarrow>
            \<bar>velocity_y e' - 7 / 10 * of_nat n\<bar> \<le> (of_nat n)\<^sup>2 / 2 ^ 53 + of_nat n / (5 * 2 ^ 52))))"
proof (rule conjI)
  show "airborne_for n f \<and> velocity_y f = 0 \<longrightarrow>
      (\<exists>f'. updates n f = Inr f' \<and>
         velocity_y f' = ((\<lambda>v. jadd v gravity) ^^ n) 0 \<and>
         (n \<le> 2 ^ 53 \<longrightarrow>
            \<bar>velocity_y f' - 7 / 10 * of_nat n\<bar> \<le> (of_nat n)\<^sup>2 / 2 ^ 53 + of_nat n / (5 * 2 ^ 52)))"
    using airborne_velocity[of n f] gravity_sum_close[of n] by auto
  show "eairborne_for n e \<and> velocity_y e = 0 \<longrightarrow>
      (\<exists>e'. eupdates n e = Inr e' \<and>
         velocity_y e' = ((\<lambda>v. jadd v gravity) ^^ n) 0 \<and>
         (n \<le> 2 ^ 53 \<longrightarrow>
            \<bar>velocity_y e' - 7 / 10 * of_nat n\<bar> \<le> (of_nat n)\<^sup>2 / 2 ^ 53 + of_nat n / (5 * 2 ^ 52)))"
    using eairborne_velocity[of n e] gravity_sum_close[of n] by auto
qed

theorem gravity_accumulates_witness:
  "airborne_for 8 ((player all_loaded)\<lparr>position_y := 0\<rparr>) \<and>
   velocity_y ((player all_loaded)\<lparr>position_y := 0\<rparr>) = 0 \<and>
   eairborne_for 8 ((eplayer all_loaded)\<lparr>position_y := 0\<rparr>) \<and>
   velocity_y ((eplayer all_loaded)\<lparr>position_y := 0\<rparr>) = 0 \<and>
   (8::nat) \<le> 2 ^ 53 \<and>
   (\<exists>f'. updates 8 ((player all_loaded)\<lparr>position_y := 0\<rparr>) = Inr f' \<and>
      velocity_y f' = ((\<lambda>v. jadd v gravity) ^^ 8) 0 \<and>
      \<bar>velocity_y f' - 7 / 10 * 8\<bar> \<le> 8\<^sup>2 / 2 ^ 53 + 8 / (5 * 2 ^ 52)) \<and>
   (\<exists>e'. eupdates 8 ((eplayer all_loaded)\<lparr>position_y := 0\<rparr>) = Inr e' \<and>
      velocity_y e' = ((\<lambda>v. jadd v gravity) ^^ 8) 0 \<and>
      \<bar>velocity_y e' - 7 / 10 * 8\<bar> \<le> 8\<^sup>2 / 2 ^ 53 + 8 / (5 * 2 ^ 52))"
proof -
  have h: "airborne_for 8 ((player all_loaded)\<lparr>position_y := 0\<rparr>) \<and>
     velocity_y ((player all_loaded)\<lparr>position_y := 0\<rparr>) = 0"
    "eairborne_for 8 ((eplayer all_loaded)\<lparr>position_y := 0\<rparr>) \<and>
     velocity_y ((eplayer all_loaded)\<lparr>position_y := 0\<rparr>) = 0"
    using eight_ticks by simp_all
  have n: "(8::nat) \<le> 2 ^ 53" by simp
  show ?thesis
    using gravity_accumulates [where n = 8 and f = "(player all_loaded)\<lparr>position_y := 0\<rparr>"
        and e = "(eplayer all_loaded)\<lparr>position_y := 0\<rparr>"] h n
    by simp
qed


section \<open>Health and position stay in bounds\<close>

text \<open>
  C2. In every state that a match of either variant can reach, the health of both
  fighters is between 0 and \<open>maxHealth\<close>, and so it is in what \<open>attack\<close> makes of the two
  fighters, either way round. Every \<open>update\<close> of a reachable fighter leaves it with its
  health in these bounds, its horizontal position between 0 and the screen width less its
  own width, and its lower edge at or above the bottom of the screen. The reachable states
  are closed under \<open>update\<close> and under the attack keys, so the bounds hold before and
  after every such call. An attack that hits a target whose health is below the
  attacker's \<open>attackDamage\<close> leaves the target's health at exactly 0.
\<close>

theorem health_and_position_bounds:
  "(reach (p, e) \<longrightarrow>
      health_ok p \<and> health_ok e \<and>
      health_ok (fst (attack p e)) \<and> health_ok (snd (attack p e)) \<and>
      health_ok (fst (attack e p)) \<and> health_ok (snd (attack e p)) \<and>
      (update p = Inr p' \<longrightarrow> on_screen p' \<and> health_ok p') \<and>
      (update e = Inr e' \<longrightarrow> on_screen e' \<and> health_ok e')) \<and>
   (ereach (q, d) \<longrightarrow>
      health_ok q \<and> health_ok d \<and>
      health_ok (fst (eattack now q d)) \<and> health_ok (snd (eattack now q d)) \<and>
      health_ok (fst (eattack now d q)) \<and> health_ok (snd (eattack now d q)) \<and>
      (eupdate q = Inr q' \<longrightarrow> on_screen q' \<and> health_ok q') \<and>
      (eupdate d = Inr d' \<longrightarrow> on_screen d' \<and> health_ok d')) \<and>
   (attackCooldown a \<le> 0 \<and> attack_hits 100 a t \<and> health t < attackDamage a \<longrightarrow>
      health (snd (attack a t)) = 0) \<and>
   (attackCooldown b \<le> 0 \<and> \<not> isDodging b \<and> attack_hits 120 b u \<and> health u < attackDamage b \<longrightarrow>
      health (snd (eattack now b u)) = 0)"
proof (intro conjI)
  show "reach (p, e) \<longrightarrow>
      health_ok p \<and> health_ok e \<and>
      health_ok (fst (attack p e)) \<and> health_ok (snd (attack p e)) \<and>
      health_ok (fst (attack e p)) \<and> health_ok (snd (attack e p)) \<and>
      (update p = Inr p' \<longrightarrow> on_screen p' \<and> health_ok p') \<and>
      (update e = Inr e' \<longrightarrow> on_screen e' \<and> health_ok e')"
  proof
    assume "reach (p, e)"
    then have i: "in_bounds p" "in_bounds e" using reach_in_bounds[of "(p, e)"] by simp_all
    show "health_ok p \<and> health_ok e \<and>
      health_ok (fst (attack p e)) \<and> health_ok (snd (attack p e)) \<and>
      health_ok (fst (attack e p)) \<and> health_ok (snd (attack e p)) \<and>
      (update p = Inr p' \<longrightarrow> on_screen p' \<and> health_ok p') \<and>
      (update e = Inr e' \<longrightarrow> on_screen e' \<and> health_ok e')"
      using i in_bounds_attack[OF i] in_bounds_attack[OF i(2) i(1)]
        in_bounds_after_update(1)[of p p'] in_bounds_after_update(1)[of e e']
      by (simp add: in_bounds_health_ok)
  qed
  show "ereach (q, d) \<longrightarrow>
      health_ok q \<and> health_ok d \<and>
      health_ok (fst (eattack now q d)) \<and> health_ok (snd (eattack now q d)) \<and>
      health_ok (fst (eattack now d q)) \<and> health_ok (snd (eattack now d q)) \<and>
      (eupdate q = Inr q' \<longrightarrow> on_screen q' \<and> health_ok q') \<and>
      (eupdate d = Inr d' \<longrightarrow> on_screen d' \<and> health_ok d')"
  proof
    assume "ereach (q, d)"
    then have "ein_bounds q" "ein_bounds d" using ereach_in_bounds[of "(q, d)"] by simp_all
    then have i: "in_bounds q" "in_bounds d" by (simp_all add: ein_bounds_def)
    show "health_ok q \<and> health_ok d \<and>
      health_ok (fst (eattack now q d)) \<and> health_ok (snd (eattack now q d)) \<and>
      health_ok (fst (eattack now d q)) \<and> health_ok (snd (eattack now d q)) \<and>
      (eupdate q = Inr q' \<longrightarrow> on_screen q' \<and> health_ok q') \<and>
      (eupdate d = Inr d' \<longrightarrow> on_screen d' \<and> health_ok d')"
      using i in_bounds_eattack[OF i, of now] in_bounds_eattack[OF i(2) i(1), of now]
        in_bounds_after_update(2)[of q q'] in_bounds_after_update(2)[of d d']
      by (simp add: in_bounds_health_ok)
  qed
  show "attackCooldown a \<le> 0 \<and> attack_hits 100 a t \<and> health t < attackDamage a \<longrightarrow>
      health (snd (attack a t)) = 0"
    by (simp add: attack_eligible take_damage_eq)
  show "attackCooldown b \<le> 0 \<and> \<not> isDodging b \<and> attack_hits 120 b u \<and> health u < attackDamage b \<longrightarrow>
      health (snd (eattack now b u)) = 0"
    by (simp add: eattack_eligible take_damage_eq)
qed

theorem health_and_position_bounds_witness:
  "reach (player all_loaded, enemy all_loaded) \<and>
   update (player all_loaded) = Inr (cooldown (physics (player all_loaded))) \<and>
   on_screen (cooldown (physics (player all_loaded))) \<and>
   health_ok (cooldown (physics (player all_loaded))) \<and>
   update (enemy all_loaded) = Inr (cooldown (physics (enemy all_loaded))) \<and>
   on_screen (cooldown (physics (enemy all_loaded))) \<and>
   health_ok (cooldown (physics (enemy all_loaded))) \<and>
   ereach (fst (resetGame (eplayer all_loaded, eenemy all_loaded)),
           snd (resetGame (eplayer all_loaded, eenemy all_loaded))) \<and>
   eupdate (fst (resetGame (eplayer all_loaded, eenemy all_loaded))) =
     Inr (dodge (cooldowns (physics (fst (resetGame (eplayer all_loaded, eenemy all_loaded)))))) \<and>
   on_screen (dodge (cooldowns (physics (fst (resetGame (eplayer all_loaded, eenemy all_loaded)))))) \<and>
   eupdate (snd (resetGame (eplayer all_loaded, eenemy all_loaded))) =
     Inr (dodge (cooldowns (physics (snd (resetGame (eplayer all_loaded, eenemy all_loaded)))))) \<and>
   on_screen (dodge (cooldowns (physics (snd (resetGame (eplayer all_loaded, eenemy all_loaded)))))) \<and>
   attackCooldown (player all_loaded) \<le> 0 \<and>
   attack_hits 100 (player all_loaded) ((enemy all_loaded)\<lparr>position_x := 200, health := 5\<rparr>) \<and>
   health ((enemy all_loaded)\<lparr>position_x := 200, health := 5\<rparr>) < attackDamage (player all_loaded) \<and>
   health (snd (attack (player all_loaded) ((enemy all_loaded)\<lparr>position_x := 200, health := 5\<rparr>))) = 0 \<and>
   attackCooldown (eplayer all_loaded) \<le> 0 \<and> \<not> isDodging (eplayer all_loaded) \<and>
   attack_hits 120 (eplayer all_loaded) ((eenemy all_loaded)\<lparr>position_x := 200, health := 10\<rparr>) \<and>
   health ((eenemy all_loaded)\<lparr>position_x := 200, health := 10\<rparr>) < attackDamage (eplayer all_loaded) \<and>
   health (snd (eattack 1000 (eplayer all_loaded) ((eenemy all_loaded)\<lparr>position_x := 200, health := 10\<rparr>))) = 0"
proof -
  let ?q = "fst (resetGame (eplayer all_loaded, eenemy all_loaded))"
  let ?d = "snd (resetGame (eplayer all_loaded, eenemy all_loaded))"
  have r: "reach (player all_loaded, enemy all_loaded)" by (rule reach.start)
  have "ereach (resetGame (eplayer all_loaded, eenemy all_loaded))" by (rule ereach.estart)
  then have er: "ereach (?q, ?d)" by simp
  have u: "update (player all_loaded) = Inr (cooldown (physics (player all_loaded)))"
    "update (enemy all_loaded) = Inr (cooldown (physics (enemy all_loaded)))"
    "eupdate ?q = Inr (dodge (cooldowns (physics ?q)))"
    "eupdate ?d = Inr (dodge (cooldowns (physics ?d)))"
    by (simp_all add: update_total eupdate_total)
  have h: "attackCooldown (player all_loaded) \<le> 0 \<and>
     attack_hits 100 (player all_loaded) ((enemy all_loaded)\<lparr>position_x := 200, health := 5\<rparr>) \<and>
     health ((enemy all_loaded)\<lparr>position_x := 200, health := 5\<rparr>) < attackDamage (player all_loaded)"
    "attackCooldown (eplayer all_loaded) \<le> 0 \<and> \<not> isDodging (eplayer all_loaded) \<and>
     attack_hits 120 (eplayer all_loaded) ((eenemy all_loaded)\<lparr>position_x := 200, health := 10\<rparr>) \<and>
     health ((eenemy all_loaded)\<lparr>position_x := 200, health := 10\<rparr>) < attackDamage (eplayer all_loaded)"
    by (simp_all add: attack_hits_def jadd_Ints)
  note th = health_and_position_bounds [where p = "player all_loaded" and e = "enemy all_loaded"
      and p' = "cooldown (physics (player all_loaded))" and e' = "cooldown (physics (enemy all_loaded))"
      and q = ?q and d = ?d and q' = "dodge (cooldowns (physics ?q))" and d' = "dodge (cooldowns (physics ?d))"
      and now = 1000 and a = "player all_loaded"
      and t = "(enemy all_loaded)\<lparr>position_x := 200, health := 5\<rparr>"
      and b = "eplayer all_loaded"
      and u = "(eenemy all_loaded)\<lparr>position_x := 200, health := 10\<rparr>"]
  show ?thesis
    using th r er u h by blast
qed

end
